(* ===== verification/Prelude.thy ===== *)
theory Prelude
  imports Main "HOL-Library.AList" "HOL-Library.Monad_Syntax"
begin

text \<open>
  Shared vocabulary of the development: Go's maps, optional configuration pointers,
  64-bit integers, wall-clock time, and the lemma collections the component theories use.

  \<^item> A Go \<^verbatim>\<open>map[K]V\<close> is an association list with distinct keys (\<open>gomap\<close>). The position of
    a key stands for one iteration order of \<^verbatim>\<open>range\<close>, which Go leaves open; no theorem of the
    development depends on which order it is.
  \<^item> A Go pointer that may be nil is an \<open>option\<close>. A function whose code can stop with a
    run-time panic (nil dereference, index out of range) returns an \<open>option\<close>, and \<open>None\<close> is
    the panic.
  \<^item> A Go \<^verbatim>\<open>int\<close> or \<^verbatim>\<open>int64\<close> is an \<open>int\<close>; where the code multiplies or subtracts values that
    may leave 64 bits, the wrap-around is written out with \<open>wrap64\<close>.
  \<^item> A \<^verbatim>\<open>time.Time\<close> is the number of nanoseconds since the Unix epoch. \<^verbatim>\<open>time.Now()\<close> is an
    argument \<open>now\<close> of the operations that read the clock.
\<close>

named_theorems gomap_simps "look-up and update laws of Go maps"
named_theorems frame_simps "fields an operation leaves unchanged"

section \<open>Go maps\<close>

type_synonym ('k, 'v) gomap = "('k \<times> 'v) list"

definition gm_get :: "('k, 'v) gomap \<Rightarrow> 'k \<Rightarrow> 'v option" where
  "gm_get m k = map_of m k"

definition gm_set :: "'k \<Rightarrow> 'v \<Rightarrow> ('k, 'v) gomap \<Rightarrow> ('k, 'v) gomap" where
  "gm_set k v m = AList.update k v m"

definition gm_del :: "'k \<Rightarrow> ('k, 'v) gomap \<Rightarrow> ('k, 'v) gomap" where
  "gm_del k m = AList.delete k m"

definition gm_keys :: "('k, 'v) gomap \<Rightarrow> 'k list" where
  "gm_keys m = map fst m"

definition gm_len :: "('k, 'v) gomap \<Rightarrow> int" where
  "gm_len m = int (length m)"

definition gm_ok :: "('k, 'v) gomap \<Rightarrow> bool" where
  "gm_ok m \<longleftrightarrow> distinct (map fst m)"

text \<open>
  What a client of a Go map relies on. The laws are discharged for the association lists
  above; the facts proved inside the locale then hold for every map of the model.
\<close>

locale go_map =
  fixes get :: "'m \<Rightarrow> 'k \<Rightarrow> 'v option"
    and set_at :: "'k \<Rightarrow> 'v \<Rightarrow> 'm \<Rightarrow> 'm"
    and del_at :: "'k \<Rightarrow> 'm \<Rightarrow> 'm"
    and keys :: "'m \<Rightarrow> 'k list"
    and len :: "'m \<Rightarrow> int"
    and ok :: "'m \<Rightarrow> bool"
    and nothing :: 'm
  assumes get_nothing: "get nothing k = None"
    and get_set: "get (set_at k v m) k' = (if k' = k then Some v else get m k')"
    and get_del: "get (del_at k m) k' = (if k' = k then None else get m k')"
    and keys_get: "k \<in> set (keys m) \<longleftrightarrow> get m k \<noteq> None"
    and len_keys: "len m = int (length (keys m))"
    and ok_nothing: "ok nothing"
    and ok_distinct: "ok m \<Longrightarrow> distinct (keys m)"
    and ok_set: "ok m \<Longrightarrow> ok (set_at k v m)"
    and ok_del: "ok m \<Longrightarrow> ok (del_at k m)"
begin

lemma get_set_same: "get (set_at k v m) k = Some v"
  by (simp add: get_set)

lemma get_del_same: "get (del_at k m) k = None"
  by (simp add: get_del)

lemma set_absorb: "get (set_at k v (set_at k w m)) = get (set_at k v m)"
  by (rule ext) (simp add: get_set)

lemma del_set: "get (del_at k (set_at k v m)) = get (del_at k m)"
  by (rule ext) (simp add: get_set get_del)

lemma len_card: "ok m \<Longrightarrow> len m = int (card {k. get m k \<noteq> None})"
proof -
  assume "ok m"
  then have "length (keys m) = card (set (keys m))"
    using distinct_card [OF ok_distinct] by simp
  moreover have "set (keys m) = {k. get m k \<noteq> None}"
    using keys_get by auto
  ultimately show ?thesis by (simp add: len_keys)
qed

lemma len_zero_iff: "len m = 0 \<longleftrightarrow> (\<forall>k. get m k = None)"
proof -
  have "len m = 0 \<longleftrightarrow> keys m = []"
    by (simp add: len_keys)
  also have "\<dots> \<longleftrightarrow> (\<forall>k. k \<notin> set (keys m))"
    by (cases "keys m") auto
  also have "\<dots> \<longleftrightarrow> (\<forall>k. get m k = None)"
    by (simp add: keys_get)
  finally show ?thesis .
qed

end

lemma map_of_neq_None: "k \<in> set (map fst m) \<longleftrightarrow> map_of m k \<noteq> None"
  by (induction m) auto

interpretation gm: go_map gm_get gm_set gm_del gm_keys gm_len gm_ok "[]"
proof unfold_locales
  show "gm_get (gm_set k v m) k' = (if k' = k then Some v else gm_get m k')" for k v and m :: "('a, 'b) gomap" and k'
    by (simp add: gm_get_def gm_set_def update_conv')
  show "gm_get (gm_del k m) k' = (if k' = k then None else gm_get m k')" for k and m :: "('a, 'b) gomap" and k'
    by (simp add: gm_get_def gm_del_def delete_conv')
  show "k \<in> set (gm_keys m) \<longleftrightarrow> gm_get m k \<noteq> None" for k and m :: "('a, 'b) gomap"
    unfolding gm_keys_def gm_get_def by (rule map_of_neq_None)
qed (simp_all add: gm_get_def gm_set_def gm_del_def gm_keys_def gm_len_def gm_ok_def
      distinct_update distinct_delete)

declare gm.get_nothing [simp, gomap_simps] gm.get_set [simp, gomap_simps] gm.get_del [simp, gomap_simps]
  gm.ok_nothing [simp] gm.ok_set [simp] gm.ok_del [simp]

text \<open>
  Maps of maps, \<^verbatim>\<open>m[a][b]\<close>: reading through a missing inner map gives the zero value, and the
  code creates the inner map before it writes.
\<close>

definition gm2_get :: "('a, ('b, 'v) gomap) gomap \<Rightarrow> 'a \<Rightarrow> 'b \<Rightarrow> 'v option" where
  "gm2_get m a b = (case gm_get m a of None \<Rightarrow> None | Some i \<Rightarrow> gm_get i b)"

definition gm2_touch :: "'a \<Rightarrow> ('a, ('b, 'v) gomap) gomap \<Rightarrow> ('a, ('b, 'v) gomap) gomap" where
  "gm2_touch a m = (case gm_get m a of None \<Rightarrow> gm_set a [] m | Some _ \<Rightarrow> m)"

definition gm2_set :: "'a \<Rightarrow> 'b \<Rightarrow> 'v \<Rightarrow> ('a, ('b, 'v) gomap) gomap \<Rightarrow> ('a, ('b, 'v) gomap) gomap" where
  "gm2_set a b v m = gm_set a (gm_set b v (case gm_get m a of None \<Rightarrow> [] | Some i \<Rightarrow> i)) m"

definition gm2_del :: "'a \<Rightarrow> 'b \<Rightarrow> ('a, ('b, 'v) gomap) gomap \<Rightarrow> ('a, ('b, 'v) gomap) gomap" where
  "gm2_del a b m = (case gm_get m a of None \<Rightarrow> m | Some i \<Rightarrow> gm_set a (gm_del b i) m)"

lemma gm2_get_nothing [simp, gomap_simps]: "gm2_get [] a b = None"
  by (simp add: gm2_get_def)

lemma gm2_get_touch [simp, gomap_simps]: "gm2_get (gm2_touch a m) c b = gm2_get m c b"
  by (simp add: gm2_get_def gm2_touch_def split: option.split)

lemma gm2_get_set [simp, gomap_simps]:
  "gm2_get (gm2_set a b v m) c d = (if c = a \<and> d = b then Some v else gm2_get m c d)"
  by (simp add: gm2_get_def gm2_set_def split: option.split)

lemma gm2_get_del [simp, gomap_simps]:
  "gm2_get (gm2_del a b m) c d = (if c = a \<and> d = b then None else gm2_get m c d)"
  by (auto simp: gm2_get_def gm2_del_def split: option.split)

section \<open>Optional configuration values\<close>

text \<open>\<^verbatim>\<open>td2/types.go\<close>: nil-safe reading of a pointer field.\<close>

definition boolVal :: "bool option \<Rightarrow> bool" where
  "boolVal v = (case v of None \<Rightarrow> False | Some b \<Rightarrow> b)"

definition intVal :: "int option \<Rightarrow> int" where
  "intVal v = (case v of None \<Rightarrow> 0 | Some i \<Rightarrow> i)"

text \<open>A nil slice reads as an empty one; the two are told apart where the code does.\<close>

definition sliceVal :: "'a list option \<Rightarrow> 'a list" where
  "sliceVal v = (case v of None \<Rightarrow> [] | Some xs \<Rightarrow> xs)"

lemma sliceVal_simps [simp]: "sliceVal None = []" "sliceVal (Some xs) = xs"
  by (simp_all add: sliceVal_def)

lemma boolVal_simps [simp]: "boolVal None = False" "boolVal (Some b) = b"
  by (simp_all add: boolVal_def)

lemma intVal_simps [simp]: "intVal None = 0" "intVal (Some i) = i"
  by (simp_all add: intVal_def)

text \<open>A list of results that may each fail.\<close>

lemma those_Some: "those xs = Some ys \<longleftrightarrow> xs = map Some ys"
  by (induction xs arbitrary: ys) (auto split: option.splits)

lemma those_total: "(\<And>x. x \<in> set xs \<Longrightarrow> f x \<noteq> None) \<Longrightarrow> \<exists>ys. those (map f xs) = Some ys \<and> length ys = length xs"
  by (induction xs) fastforce+

section \<open>Machine integers\<close>

text \<open>Two's complement reading of an integer in 64 bits.\<close>

definition wrap64 :: "int \<Rightarrow> int" where
  "wrap64 x = (x + 2 ^ 63) mod 2 ^ 64 - 2 ^ 63"

definition int64 :: "int \<Rightarrow> bool" where
  "int64 x \<longleftrightarrow> - (2 ^ 63) \<le> x \<and> x < 2 ^ 63"

definition uint64 :: "int \<Rightarrow> bool" where
  "uint64 x \<longleftrightarrow> 0 \<le> x \<and> x < 2 ^ 64"

lemma wrap64_range: "int64 (wrap64 x)"
  by (simp add: wrap64_def int64_def)

lemma wrap64_id: "int64 x \<Longrightarrow> wrap64 x = x"
  by (simp add: wrap64_def int64_def)

section \<open>Time\<close>

type_synonym gotime = int
type_synonym duration = int

text \<open>The zero \<^verbatim>\<open>time.Time\<close> is midnight of 1 January of year 1; \<^verbatim>\<open>time.Unix(0, 0)\<close> is not zero.\<close>

definition zero_time :: gotime where
  "zero_time = - 62135596800 * 10 ^ 9"

definition IsZero :: "gotime \<Rightarrow> bool" where
  "IsZero t \<longleftrightarrow> t = zero_time"

definition time_Unix :: "int \<Rightarrow> gotime" where
  "time_Unix secs = secs * 10 ^ 9"

text \<open>\<^verbatim>\<open>t.Unix()\<close>: whole seconds, rounded down (the nanosecond part of a \<^verbatim>\<open>time.Time\<close> is never negative).\<close>

definition Unix :: "gotime \<Rightarrow> int" where
  "Unix t = t div 10 ^ 9"

definition Second :: duration where "Second = 10 ^ 9"
definition Minute :: duration where "Minute = 60 * 10 ^ 9"
definition Hour :: duration where "Hour = 3600 * 10 ^ 9"

text \<open>\<^verbatim>\<open>a.Sub(b)\<close> saturates at the ends of \<^verbatim>\<open>int64\<close>; the product of two durations wraps.\<close>

definition time_Sub :: "gotime \<Rightarrow> gotime \<Rightarrow> duration" where
  "time_Sub a b = max (- (2 ^ 63)) (min (2 ^ 63 - 1) (a - b))"

definition dur_mul :: "int \<Rightarrow> duration \<Rightarrow> duration" where
  "dur_mul n d = wrap64 (n * d)"

lemmas time_defs = zero_time_def IsZero_def time_Unix_def Unix_def Second_def Minute_def Hour_def
  time_Sub_def dur_mul_def

lemma Unix_time_Unix [simp]: "Unix (time_Unix s) = s"
  by (simp add: Unix_def time_Unix_def)

lemma time_Unix_0_not_zero: "\<not> IsZero (time_Unix 0)"
  by (simp add: time_defs)

lemma time_Sub_ge: "- (2 ^ 63) < d \<Longrightarrow> d < 2 ^ 63 \<Longrightarrow> d \<le> time_Sub a b \<longleftrightarrow> d \<le> a - b"
  by (auto simp: time_Sub_def)

lemma time_Sub_gr: "- (2 ^ 63) \<le> d \<Longrightarrow> d < 2 ^ 63 - 1 \<Longrightarrow> d < time_Sub a b \<longleftrightarrow> d < a - b"
  by (auto simp: time_Sub_def)

end
