(* ===== verification/GoStrings.thy ===== *)
theory GoStrings
  imports Prelude "HOL-Library.Char_ord"
begin

text \<open>
  The functions of Go's \<^verbatim>\<open>strings\<close>, \<^verbatim>\<open>strconv\<close> and \<^verbatim>\<open>fmt\<close> the program uses, on byte strings
  (\<open>string\<close> is a list of bytes, as in Go). \<^verbatim>\<open>ToLower\<close> and \<^verbatim>\<open>TrimSpace\<close> are the ASCII part of
  the library functions: bytes from 128 on are left alone. Text outside ASCII in the program's
  messages is spelled out as its UTF-8 bytes.
\<close>

section \<open>Substrings\<close>

definition HasPrefix :: "string \<Rightarrow> string \<Rightarrow> bool" where
  "HasPrefix s p \<longleftrightarrow> take (length p) s = p"

definition HasSuffix :: "string \<Rightarrow> string \<Rightarrow> bool" where
  "HasSuffix s p \<longleftrightarrow> HasPrefix (rev s) (rev p)"

fun Contains :: "string \<Rightarrow> string \<Rightarrow> bool" where
  "Contains [] sub = (sub = [])"
| "Contains (c # cs) sub = (HasPrefix (c # cs) sub \<or> Contains cs sub)"

lemma HasPrefix_append [simp]: "HasPrefix (p @ s) p"
  by (simp add: HasPrefix_def)

lemma HasPrefix_iff: "HasPrefix s p \<longleftrightarrow> (\<exists>t. s = p @ t)"
  by (metis HasPrefix_append HasPrefix_def append_take_drop_id)

text \<open>\<^verbatim>\<open>strings.Split\<close> with a separator that is not empty.\<close>

fun split_from :: "string \<Rightarrow> string \<Rightarrow> string \<Rightarrow> string list" where
  "split_from sep acc [] = [rev acc]"
| "split_from sep acc (c # cs) =
     (if HasPrefix (c # cs) sep then rev acc # split_from sep [] (drop (length sep - 1) cs)
      else split_from sep (c # acc) cs)"

definition Split :: "string \<Rightarrow> string \<Rightarrow> string list" where
  "Split s sep = split_from sep [] s"

fun Join :: "string list \<Rightarrow> string \<Rightarrow> string" where
  "Join [] sep = []"
| "Join [x] sep = x"
| "Join (x # y # ys) sep = x @ sep @ Join (y # ys) sep"

lemma split_from_nonempty: "split_from sep acc s \<noteq> []"
  by (induction sep acc s rule: split_from.induct) auto

lemma Split_nonempty [simp]: "Split s sep \<noteq> []"
  by (simp add: Split_def split_from_nonempty)

lemma HasPrefix_single [simp]: "HasPrefix (c # cs) [d] \<longleftrightarrow> c = d"
  by (auto simp: HasPrefix_def)

lemma split_from_single_append:
  "split_from [d] acc (a @ d # b) = split_from [d] acc a @ split_from [d] [] b"
  by (induction a arbitrary: acc) auto

lemma split_from_single_absent: "d \<notin> set s \<Longrightarrow> split_from [d] acc s = [rev acc @ s]"
  by (induction s arbitrary: acc) auto

lemma Split_single_append: "Split (a @ d # b) [d] = Split a [d] @ Split b [d]"
  by (simp add: Split_def split_from_single_append)

lemma Split_single_absent: "d \<notin> set s \<Longrightarrow> Split s [d] = [s]"
  by (simp add: Split_def split_from_single_absent)

lemma Split_no_sep: "s \<noteq> [] \<Longrightarrow> hd s \<noteq> d \<Longrightarrow> d \<notin> set (tl s) \<Longrightarrow> Split s [d] = [s]"
  by (cases s) (auto intro: Split_single_absent)

section \<open>Case and white space\<close>

definition lower_char :: "char \<Rightarrow> char" where
  "lower_char c = (let n = of_char c :: nat in if 65 \<le> n \<and> n \<le> 90 then char_of (n + 32) else c)"

definition ToLower :: "string \<Rightarrow> string" where
  "ToLower s = map lower_char s"

definition is_space :: "char \<Rightarrow> bool" where
  "is_space c \<longleftrightarrow> (let n = of_char c :: nat in n = 32 \<or> (9 \<le> n \<and> n \<le> 13))"

definition TrimSpace :: "string \<Rightarrow> string" where
  "TrimSpace s = rev (dropWhile is_space (rev (dropWhile is_space s)))"

definition TrimRight :: "string \<Rightarrow> string \<Rightarrow> string" where
  "TrimRight s cutset = rev (dropWhile (\<lambda>c. c \<in> set cutset) (rev s))"

lemma lower_char_idem [simp]: "lower_char (lower_char c) = lower_char c"
  by (auto simp: lower_char_def Let_def)

lemma ToLower_idem [simp]: "ToLower (ToLower s) = ToLower s"
  by (simp add: ToLower_def)

lemma length_ToLower [simp]: "length (ToLower s) = length s"
  by (simp add: ToLower_def)

section \<open>Decimal numbers\<close>

definition digit :: "nat \<Rightarrow> char" where
  "digit d = char_of (48 + d)"

definition digit_val :: "char \<Rightarrow> nat option" where
  "digit_val c = (let n = of_char c :: nat in if 48 \<le> n \<and> n \<le> 57 then Some (n - 48) else None)"

fun utoa :: "nat \<Rightarrow> string" where
  "utoa n = (if n < 10 then [digit n] else utoa (n div 10) @ [digit (n mod 10)])"

declare utoa.simps [simp del]

lemma digit_simps:
  "digit 0 = CHR ''0''" "digit 1 = CHR ''1''" "digit 2 = CHR ''2''" "digit 3 = CHR ''3''" "digit 4 = CHR ''4''"
  "digit 5 = CHR ''5''" "digit 6 = CHR ''6''" "digit 7 = CHR ''7''" "digit 8 = CHR ''8''" "digit 9 = CHR ''9''"
  "digit (Suc 0) = CHR ''1''"
  by code_simp+

text \<open>\<^verbatim>\<open>%d\<close>.\<close>

definition itoa :: "int \<Rightarrow> string" where
  "itoa z = (if z < 0 then ''-'' @ utoa (nat (- z)) else utoa (nat z))"

text \<open>Writing out a concrete number.\<close>

lemmas itoa_eval = itoa_def utoa.simps digit_simps

datatype num_error = ErrSyntax | ErrRange

definition maxUint64 :: nat where "maxUint64 = 2 ^ 64 - 1"

text \<open>
  The loop of \<^verbatim>\<open>strconv.ParseUint(s, 10, 64)\<close>: value and error together, because
  \<^verbatim>\<open>stringInt64.val\<close> uses the value and ignores the error.
\<close>

fun parse_digits :: "nat \<Rightarrow> string \<Rightarrow> nat \<times> num_error option" where
  "parse_digits n [] = (n, None)"
| "parse_digits n (c # cs) =
     (case digit_val c of
        None \<Rightarrow> (0, Some ErrSyntax)
      | Some d \<Rightarrow>
          if maxUint64 div 10 + 1 \<le> n then (maxUint64, Some ErrRange)
          else if maxUint64 < n * 10 + d then (maxUint64, Some ErrRange)
          else parse_digits (n * 10 + d) cs)"

definition ParseUint :: "string \<Rightarrow> nat \<times> num_error option" where
  "ParseUint s = (if s = [] then (0, Some ErrSyntax) else parse_digits 0 s)"

definition ParseInt :: "string \<Rightarrow> int \<times> num_error option" where
  "ParseInt s =
     (case s of
        [] \<Rightarrow> (0, Some ErrSyntax)
      | c # cs \<Rightarrow>
          let neg = (c = CHR ''-''); s' = (if c = CHR ''+'' \<or> c = CHR ''-'' then cs else s)
          in case ParseUint s' of
               (un, Some ErrSyntax) \<Rightarrow> (0, Some ErrSyntax)
             | (un, _) \<Rightarrow>
                 if \<not> neg \<and> 2 ^ 63 \<le> un then (2 ^ 63 - 1, Some ErrRange)
                 else if neg \<and> 2 ^ 63 < un then (- (2 ^ 63), Some ErrRange)
                 else (if neg then - int un else int un, None))"

lemma digit_val_digit [simp]: "d < 10 \<Longrightarrow> digit_val (digit d) = Some d"
  by (simp add: digit_val_def digit_def)

lemma digit_code: "d < 10 \<Longrightarrow> (of_char (digit d) :: nat) = 48 + d"
  by (simp add: digit_def)

lemma utoa_nonempty [simp]: "utoa n \<noteq> []"
  by (subst utoa.simps) simp

lemma utoa_chars: "c \<in> set (utoa n) \<Longrightarrow> \<exists>d < 10. c = digit d"
proof (induction n rule: utoa.induct)
  case (1 n)
  have "c = digit (n mod 10) \<Longrightarrow> \<exists>d < 10. c = digit d"
    by (intro exI [of _ "n mod 10"]) simp
  with 1 show ?case
    by (cases "n < 10") (auto simp: utoa.simps [of n])
qed

lemma utoa_digits: "c \<in> set (utoa n) \<Longrightarrow> 48 \<le> (of_char c :: nat) \<and> (of_char c :: nat) \<le> 57"
  by (auto dest!: utoa_chars simp: digit_code)

lemma utoa_notin [simp]:
  "CHR ''_'' \<notin> set (utoa n)" "CHR ''-'' \<notin> set (utoa n)" "CHR ''+'' \<notin> set (utoa n)"
  by (auto dest!: utoa_digits)

lemma itoa_no_underscore [simp]: "CHR ''_'' \<notin> set (itoa z)"
  by (simp add: itoa_def)

lemma itoa_nonempty [simp]: "itoa z \<noteq> []"
  by (simp add: itoa_def)

text \<open>Reading a number back, one appended digit at a time.\<close>

lemma parse_digits_append:
  "parse_digits n s = (m, None) \<Longrightarrow> parse_digits n (s @ t) = parse_digits m t"
  by (induction n s rule: parse_digits.induct) (auto split: option.splits if_splits)

lemma parse_digits_utoa: "n \<le> maxUint64 \<Longrightarrow> parse_digits 0 (utoa n) = (n, None)"
proof (induction n rule: utoa.induct)
  case (1 n)
  show ?case
  proof (cases "n < 10")
    case True
    then show ?thesis by (simp add: utoa.simps [of n] maxUint64_def)
  next
    case False
    have le: "n div 10 \<le> maxUint64 div 10"
      using 1(2) by (rule div_le_mono)
    have "n div 10 \<le> maxUint64" using 1(2) by simp
    with False 1(1) have "parse_digits 0 (utoa (n div 10)) = (n div 10, None)" by simp
    then have "parse_digits 0 (utoa n) = parse_digits (n div 10) [digit (n mod 10)]"
      using False by (simp add: utoa.simps [of n] parse_digits_append)
    also have "\<dots> = (n, None)"
      using le 1(2) by (simp add: not_less)
    finally show ?thesis .
  qed
qed

lemma ParseUint_utoa: "n < 2 ^ 64 \<Longrightarrow> ParseUint (utoa n) = (n, None)"
  by (simp add: ParseUint_def parse_digits_utoa maxUint64_def)

lemma hd_utoa: "hd (utoa n) \<noteq> CHR ''-''" "hd (utoa n) \<noteq> CHR ''+''"
  using utoa_notin(2,3) [of n] hd_in_set [OF utoa_nonempty [of n]] by metis+

lemma ParseInt_itoa: "int64 z \<Longrightarrow> ParseInt (itoa z) = (z, None)"
proof (cases "z < 0")
  case True
  assume "int64 z"
  with True have "nat (- z) \<le> 2 ^ 63" by (simp add: int64_def)
  with True show ?thesis
    by (simp add: ParseInt_def itoa_def ParseUint_utoa)
next
  case False
  assume "int64 z"
  with False have "nat z < 2 ^ 63" by (simp add: int64_def nat_less_iff)
  then have "nat z < 2 ^ 64" by simp
  with False \<open>nat z < 2 ^ 63\<close> show ?thesis
    using hd_utoa [of "nat z"] utoa_nonempty [of "nat z"]
    by (cases "utoa (nat z)") (auto simp: ParseInt_def itoa_def ParseUint_utoa dest: sym)
qed

lemma parse_digits_syntax:
  "c \<in> set s \<Longrightarrow> digit_val c = None \<Longrightarrow> snd (parse_digits n s) \<noteq> None"
  by (induction n s rule: parse_digits.induct) (auto split: option.splits)

lemma ParseUint_no_digit: "c \<in> set s \<Longrightarrow> digit_val c = None \<Longrightarrow> snd (ParseUint s) \<noteq> None"
  by (auto simp: ParseUint_def dest: parse_digits_syntax)

end
