(* ===== verification/Float64.thy ===== *)
theory Float64
  imports Complex_Main Prelude
begin

text \<open>
  Go's \<^verbatim>\<open>float64\<close>: IEEE 754 binary64 with round-to-nearest-even. A finite value is the rational
  number it stands for; the two infinities and NaN are explicit. The one thing left out is the
  sign of zero: no operation modelled here divides by a float that can be negative zero, and
  comparisons do not see the sign.

  The lemmas give what the alert conditions need: rounding is the identity on values with 53
  significant bits, it is monotone, and its relative error is at most \<open>2^-53\<close>; hence integers
  below \<open>2^53\<close> count exactly and a comparison of a quotient with an integer decides the exact
  question as long as the integers are not huge.
\<close>

named_theorems f64_defs "definitions of the float64 operations"

datatype f64 = NaN | Inf bool | Fin rat

section \<open>Rounding\<close>

fun blen :: "nat \<Rightarrow> nat" where
  "blen n = (if n < 2 then 0 else Suc (blen (n div 2)))"

declare blen.simps [simp del]

text \<open>The exponent of the leading bit of a positive rational.\<close>

definition flog2 :: "rat \<Rightarrow> int" where
  "flog2 a = (let (p, q) = quotient_of a; e = int (blen (nat p)) - int (blen (nat q))
              in if 2 powi e \<le> a then e else e - 1)"

text \<open>Round to the nearest integer, ties to even.\<close>

definition rhe :: "rat \<Rightarrow> int" where
  "rhe x = (let f = \<lfloor>x\<rfloor>; d = x - of_int f
            in if d < 1 / 2 then f else if 1 / 2 < d then f + 1 else if even f then f else f + 1)"

text \<open>The unit in the last place of a positive rational, subnormals included.\<close>

definition ulp_exp :: "rat \<Rightarrow> int" where
  "ulp_exp a = max (flog2 a) (- 1022) - 52"

definition rnd :: "rat \<Rightarrow> rat" where
  "rnd x = (if x = 0 then 0
            else let q = 2 powi ulp_exp \<bar>x\<bar> in sgn x * of_int (rhe (\<bar>x\<bar> / q)) * q)"

definition f64_round :: "rat \<Rightarrow> f64" where
  "f64_round x = (let r = rnd x in if \<bar>r\<bar> < 2 ^ 1024 then Fin r else Inf (x < 0))"

subsection \<open>Leading bit\<close>

lemma blen_bounds: "0 < n \<Longrightarrow> 2 ^ blen n \<le> n \<and> n < 2 ^ Suc (blen n)"
proof (induction n rule: blen.induct)
  case (1 n)
  show ?case
  proof (cases "n < 2")
    case True
    with 1(2) show ?thesis by (simp add: blen.simps [of n])
  next
    case False
    then have "0 < n div 2" by simp
    with False 1(1) have "2 ^ blen (n div 2) \<le> n div 2" "n div 2 < 2 ^ Suc (blen (n div 2))"
      by blast+
    then have "2 * 2 ^ blen (n div 2) \<le> n" "n < 2 * (2 * 2 ^ blen (n div 2))" by simp_all
    with False show ?thesis by (simp add: blen.simps [of n])
  qed
qed

lemma powi_2_pos [simp]: "(0::rat) < 2 powi e"
  by (simp add: zero_less_power_int)

lemma powi_2_mono: "e \<le> e' \<Longrightarrow> (2::rat) powi e \<le> 2 powi e'"
  by (simp add: power_int_increasing)

lemma powi_2_less_iff: "(2::rat) powi e < 2 powi e' \<longleftrightarrow> e < e'"
  by (metis linorder_not_less one_less_numeral_iff power_int_increasing power_int_strict_increasing
      semiring_norm(76) less_imp_le)

lemma powi_2_Suc: "(2::rat) powi (e + 1) = 2 * 2 powi e"
  by (simp add: power_int_add)

lemma flog2_bounds:
  assumes "0 < a"
  shows "2 powi flog2 a \<le> a \<and> a < 2 powi (flog2 a + 1)"
proof -
  obtain p q where pq: "quotient_of a = (p, q)" by fastforce
  then have q: "0 < q" and a: "a = of_int p / of_int q"
    by (auto dest: quotient_of_denom_pos quotient_of_div)
  with assms have p: "0 < p" by (simp add: zero_less_divide_iff)
  define k l where "k = blen (nat p)" and "l = blen (nat q)"
  have "2 ^ k \<le> nat p" "nat p < 2 ^ Suc k" "2 ^ l \<le> nat q" "nat q < 2 ^ Suc l"
    using blen_bounds [of "nat p"] blen_bounds [of "nat q"] p q by (simp_all add: k_def l_def)
  then have P: "2 ^ k \<le> p" "p < 2 ^ Suc k" and Q: "2 ^ l \<le> q" "q < 2 ^ Suc l"
    using p q by (simp_all add: le_nat_iff nat_less_iff)
  have P': "(2::rat) ^ k \<le> of_int p" "of_int p < (2::rat) ^ Suc k"
    using P by (simp_all only: of_int_le_iff [symmetric, where 'a = rat] of_int_less_iff [symmetric, where 'a = rat]
        of_int_power of_int_numeral)
  have Q': "(2::rat) ^ l \<le> of_int q" "of_int q < (2::rat) ^ Suc l"
    using Q by (simp_all only: of_int_le_iff [symmetric, where 'a = rat] of_int_less_iff [symmetric, where 'a = rat]
        of_int_power of_int_numeral)
  have up: "a < 2 powi (int k - int l + 1)"
  proof -
    have "a < 2 ^ Suc k / 2 ^ l"
      unfolding a using P' Q' p q by (intro frac_less) (auto simp del: power_Suc)
    also have "\<dots> = 2 powi (int k - int l + 1)"
      by (simp add: power_int_diff power_int_add)
    finally show ?thesis .
  qed
  have lo: "2 powi (int k - int l - 1) \<le> a"
  proof -
    have "2 powi (int k - int l - 1) = (2::rat) ^ k / 2 ^ Suc l"
      by (simp add: power_int_diff)
    also have "\<dots> \<le> a"
      unfolding a using P' Q' p q by (intro frac_le) auto
    finally show ?thesis .
  qed
  show ?thesis
    using up lo by (auto simp: flog2_def pq k_def l_def Let_def)
qed

lemma flog2_unique: "2 powi e \<le> a \<Longrightarrow> a < 2 powi (e + 1) \<Longrightarrow> flog2 a = e"
proof -
  assume e: "2 powi e \<le> a" "a < 2 powi (e + 1)"
  then have "0 < a" using powi_2_pos [of e] by linarith
  then have f: "2 powi flog2 a \<le> a" "a < 2 powi (flog2 a + 1)"
    using flog2_bounds by auto
  have "(2::rat) powi e < 2 powi (flog2 a + 1)" "(2::rat) powi flog2 a < 2 powi (e + 1)"
    using e f by linarith+
  then have "e < flog2 a + 1" "flog2 a < e + 1"
    by (simp_all add: powi_2_less_iff)
  then show ?thesis by simp
qed

lemma flog2_mono:
  assumes "0 < a" "a \<le> b"
  shows "flog2 a \<le> flog2 b"
proof -
  have "(2::rat) powi flog2 a < 2 powi (flog2 b + 1)"
    using flog2_bounds [of a] flog2_bounds [of b] assms by linarith
  then have "flog2 a < flog2 b + 1"
    by (simp add: powi_2_less_iff)
  then show ?thesis by simp
qed

subsection \<open>Rounding to an integer\<close>

lemma rhe_of_int [simp]: "rhe (of_int n) = n"
  by (simp add: rhe_def)

lemma rhe_floor: "\<lfloor>x\<rfloor> \<le> rhe x \<and> rhe x \<le> \<lfloor>x\<rfloor> + 1"
  by (auto simp: rhe_def Let_def)

lemma rhe_mono:
  assumes "x \<le> y"
  shows "rhe x \<le> rhe y"
proof (cases "\<lfloor>x\<rfloor> = \<lfloor>y\<rfloor>")
  case True
  with assms show ?thesis by (auto simp: rhe_def Let_def)
next
  case False
  with assms have "\<lfloor>x\<rfloor> + 1 \<le> \<lfloor>y\<rfloor>" using floor_mono [OF assms] by linarith
  then show ?thesis using rhe_floor [of x] rhe_floor [of y] by linarith
qed

lemma rhe_err: "\<bar>of_int (rhe x) - x\<bar> \<le> 1 / 2"
proof -
  have "of_int \<lfloor>x\<rfloor> \<le> x" "x < of_int \<lfloor>x\<rfloor> + 1" by linarith+
  then show ?thesis by (auto simp: rhe_def Let_def abs_le_iff)
qed

lemma rhe_ge_int: "of_int n \<le> x \<Longrightarrow> n \<le> rhe x"
  using rhe_mono [of "of_int n" x] by simp

lemma rhe_le_int: "x \<le> of_int n \<Longrightarrow> rhe x \<le> n"
  using rhe_mono [of x "of_int n"] by simp

subsection \<open>Rounding to 53 bits\<close>

lemma rnd_0 [simp]: "rnd 0 = 0"
  by (simp add: rnd_def)

lemma rnd_minus: "rnd (- x) = - rnd x"
  by (simp add: rnd_def Let_def)

lemma rnd_pos: "0 < x \<Longrightarrow> rnd x = of_int (rhe (x / 2 powi ulp_exp x)) * 2 powi ulp_exp x"
  by (simp add: rnd_def Let_def)

lemma below_top: "0 < x \<Longrightarrow> x < 2 ^ 53 * 2 powi ulp_exp x"
proof -
  assume "0 < x"
  then have "x < 2 powi (flog2 x + 1)" using flog2_bounds by blast
  also have "\<dots> \<le> 2 powi (53 + ulp_exp x)" by (intro powi_2_mono) (simp add: ulp_exp_def)
  also have "\<dots> = 2 ^ 53 * 2 powi ulp_exp x" by (simp add: power_int_add)
  finally show ?thesis .
qed

lemma above_bottom: "0 < x \<Longrightarrow> - 1022 \<le> flog2 x \<Longrightarrow> 2 ^ 52 * 2 powi ulp_exp x \<le> x"
proof -
  assume "0 < x" "- 1022 \<le> flog2 x"
  then have "2 ^ 52 * 2 powi ulp_exp x = (2::rat) powi flog2 x"
    by (simp add: ulp_exp_def power_int_diff max_def)
  also have "\<dots> \<le> x" using \<open>0 < x\<close> flog2_bounds by blast
  finally show ?thesis .
qed

lemma rnd_le_top: "0 < x \<Longrightarrow> rnd x \<le> 2 ^ 53 * 2 powi ulp_exp x"
proof -
  assume x: "0 < x"
  then have "x / 2 powi ulp_exp x \<le> of_int (2 ^ 53)"
    using below_top [OF x] by (simp add: pos_divide_le_eq)
  then have "rhe (x / 2 powi ulp_exp x) \<le> 2 ^ 53" by (rule rhe_le_int)
  then have "(of_int (rhe (x / 2 powi ulp_exp x)) :: rat) \<le> of_int (2 ^ 53)"
    by (simp only: of_int_le_iff)
  then show ?thesis using x by (simp add: rnd_pos)
qed

lemma rnd_ge_bottom: "0 < x \<Longrightarrow> - 1022 \<le> flog2 x \<Longrightarrow> 2 ^ 52 * 2 powi ulp_exp x \<le> rnd x"
proof -
  assume x: "0 < x" "- 1022 \<le> flog2 x"
  then have "of_int (2 ^ 52) \<le> x / 2 powi ulp_exp x"
    using above_bottom [OF x] by (simp add: pos_le_divide_eq)
  then have "2 ^ 52 \<le> rhe (x / 2 powi ulp_exp x)" by (rule rhe_ge_int)
  then have "of_int (2 ^ 52) \<le> (of_int (rhe (x / 2 powi ulp_exp x)) :: rat)"
    by (simp only: of_int_le_iff)
  then show ?thesis using x by (simp add: rnd_pos)
qed

lemma rnd_nonneg: "0 \<le> x \<Longrightarrow> 0 \<le> rnd x"
proof (cases "x = 0")
  case False
  assume "0 \<le> x"
  with False have x: "0 < x" by simp
  then have "0 \<le> rhe (x / 2 powi ulp_exp x)" by (intro rhe_ge_int) (simp add: less_imp_le)
  then show ?thesis using x by (simp add: rnd_pos)
qed simp

lemma rnd_mono_pos:
  assumes "0 < x" "x \<le> y"
  shows "rnd x \<le> rnd y"
proof (cases "ulp_exp x = ulp_exp y")
  case True
  have "x / 2 powi ulp_exp y \<le> y / 2 powi ulp_exp y"
    using assms by (intro divide_right_mono) (auto intro: less_imp_le)
  then show ?thesis
    using assms True by (simp add: rnd_pos rhe_mono)
next
  case False
  have lt: "ulp_exp x + 1 \<le> ulp_exp y" and fy: "- 1022 \<le> flog2 y"
    using flog2_mono [OF assms] False by (auto simp: ulp_exp_def max_def split: if_splits)
  have "rnd x \<le> 2 ^ 53 * 2 powi ulp_exp x" using assms by (intro rnd_le_top) simp
  also have "\<dots> = 2 ^ 52 * 2 powi (ulp_exp x + 1)" by (simp add: powi_2_Suc)
  also have "\<dots> \<le> 2 ^ 52 * 2 powi ulp_exp y" using powi_2_mono [OF lt] by simp
  also have "\<dots> \<le> rnd y" using assms fy by (intro rnd_ge_bottom) auto
  finally show ?thesis .
qed

lemma rnd_mono: "x \<le> y \<Longrightarrow> rnd x \<le> rnd y"
proof -
  assume le: "x \<le> y"
  consider "0 < x" | "x \<le> 0" "0 \<le> y" | "y < 0" by linarith
  then show ?thesis
  proof cases
    case 1
    then show ?thesis using le by (rule rnd_mono_pos)
  next
    case 2
    then have "0 \<le> rnd (- x)" "0 \<le> rnd y" by (simp_all add: rnd_nonneg)
    then show ?thesis by (simp add: rnd_minus)
  next
    case 3
    then have "rnd (- y) \<le> rnd (- x)" using le by (intro rnd_mono_pos) auto
    then show ?thesis by (simp add: rnd_minus)
  qed
qed

text \<open>A value with at most 53 significant bits, not below the subnormal range, is kept.\<close>

lemma rnd_exact_pos:
  assumes "0 < m" "m < 2 ^ 53" "- 1074 \<le> k"
  shows "rnd (of_int m * 2 powi k) = of_int m * 2 powi k"
proof -
  define x :: rat where "x = of_int m * 2 powi k"
  have x: "0 < x" using assms by (simp add: x_def)
  have "(of_int m :: rat) < of_int (2 ^ 53)" using assms(2) by (simp only: of_int_less_iff)
  then have "x < 2 ^ 53 * 2 powi k"
    using mult_strict_right_mono [of "of_int m :: rat" "2 ^ 53" "2 powi k"] by (simp add: x_def)
  also have "\<dots> = 2 powi (53 + k)" by (simp add: power_int_add)
  finally have "2 powi flog2 x < (2::rat) powi (53 + k)" using flog2_bounds [OF x] by linarith
  then have "flog2 x < 53 + k" by (simp add: powi_2_less_iff)
  then have le: "ulp_exp x \<le> k" using assms(3) by (simp add: ulp_exp_def)
  define n where "n = m * 2 ^ nat (k - ulp_exp x)"
  have "(2::rat) powi k = 2 powi (k - ulp_exp x) * 2 powi ulp_exp x"
    using power_int_add [of "2::rat" "k - ulp_exp x" "ulp_exp x"] by simp
  moreover have "(2::rat) powi (k - ulp_exp x) = 2 ^ nat (k - ulp_exp x)"
    using le by (simp add: power_int_def)
  ultimately have xn: "x = of_int n * 2 powi ulp_exp x" by (simp add: x_def n_def)
  then have "x / 2 powi ulp_exp x = of_int n"
    using powi_2_pos [of "ulp_exp x"] by (metis nonzero_mult_div_cancel_right less_irrefl)
  then have "rhe (x / 2 powi ulp_exp x) = n" by (simp only: rhe_of_int)
  then have "rnd x = of_int n * 2 powi ulp_exp x" using rnd_pos [OF x] by simp
  then show ?thesis using xn by (simp add: x_def)
qed

lemma rnd_int: "\<bar>m\<bar> < 2 ^ 53 \<Longrightarrow> rnd (of_int m) = of_int m"
proof -
  assume m: "\<bar>m\<bar> < 2 ^ 53"
  consider "0 < m" | "m = 0" | "m < 0" by linarith
  then show ?thesis
  proof cases
    case 1
    then show ?thesis using rnd_exact_pos [of m 0] m by simp
  next
    case 3
    then have "rnd (of_int (- m)) = of_int (- m)" using rnd_exact_pos [of "- m" 0] m by simp
    then show ?thesis by (simp add: rnd_minus)
  qed simp
qed

text \<open>The relative error of one rounding in the normal range.\<close>

lemma rnd_err:
  assumes "0 < x" "- 1022 \<le> flog2 x"
  shows "\<bar>rnd x - x\<bar> \<le> x / 2 ^ 53"
proof -
  let ?q = "2 powi ulp_exp x :: rat"
  have "rnd x - x = (of_int (rhe (x / ?q)) - x / ?q) * ?q"
    using assms(1) by (simp add: rnd_pos algebra_simps)
  then have "\<bar>rnd x - x\<bar> = \<bar>of_int (rhe (x / ?q)) - x / ?q\<bar> * ?q"
    by (simp add: abs_mult)
  also have "\<dots> \<le> 1 / 2 * ?q" by (intro mult_right_mono rhe_err) (simp add: less_imp_le)
  also have "\<dots> \<le> x / 2 ^ 53" using above_bottom [OF assms] by simp
  finally show ?thesis .
qed

lemma f64_round_int: "\<bar>m\<bar> < 2 ^ 53 \<Longrightarrow> f64_round (of_int m) = Fin (of_int m)"
proof -
  assume m: "\<bar>m\<bar> < 2 ^ 53"
  have "\<bar>of_int m :: rat\<bar> < of_int (2 ^ 53)" using m by (simp only: of_int_less_iff flip: of_int_abs)
  also have "\<dots> < 2 ^ 1024" by simp
  finally show ?thesis by (simp add: f64_round_def rnd_int [OF m])
qed

section \<open>Operations\<close>

definition f64_of_int :: "int \<Rightarrow> f64" where
  [f64_defs]: "f64_of_int n = f64_round (of_int n)"

fun f64_neg :: "f64 \<Rightarrow> f64" where
  "f64_neg NaN = NaN"
| "f64_neg (Inf s) = Inf (\<not> s)"
| "f64_neg (Fin x) = Fin (- x)"

fun f64_abs :: "f64 \<Rightarrow> f64" where
  "f64_abs NaN = NaN"
| "f64_abs (Inf s) = Inf False"
| "f64_abs (Fin x) = Fin \<bar>x\<bar>"

fun f64_add :: "f64 \<Rightarrow> f64 \<Rightarrow> f64" where
  "f64_add (Fin x) (Fin y) = f64_round (x + y)"
| "f64_add (Inf s) (Inf t) = (if s = t then Inf s else NaN)"
| "f64_add (Inf s) (Fin y) = Inf s"
| "f64_add (Fin x) (Inf t) = Inf t"
| "f64_add _ _ = NaN"

definition f64_sub :: "f64 \<Rightarrow> f64 \<Rightarrow> f64" where
  [f64_defs]: "f64_sub a b = f64_add a (f64_neg b)"

fun f64_mul :: "f64 \<Rightarrow> f64 \<Rightarrow> f64" where
  "f64_mul (Fin x) (Fin y) = f64_round (x * y)"
| "f64_mul (Inf s) (Inf t) = Inf (s \<noteq> t)"
| "f64_mul (Inf s) (Fin y) = (if y = 0 then NaN else Inf (s \<noteq> (y < 0)))"
| "f64_mul (Fin x) (Inf t) = (if x = 0 then NaN else Inf ((x < 0) \<noteq> t))"
| "f64_mul _ _ = NaN"

fun f64_div :: "f64 \<Rightarrow> f64 \<Rightarrow> f64" where
  "f64_div (Fin x) (Fin y) =
     (if y = 0 then (if x = 0 then NaN else Inf (x < 0)) else f64_round (x / y))"
| "f64_div (Inf s) (Fin y) = Inf (s \<noteq> (y < 0))"
| "f64_div (Fin x) (Inf t) = Fin 0"
| "f64_div _ _ = NaN"

fun f64_lt :: "f64 \<Rightarrow> f64 \<Rightarrow> bool" where
  "f64_lt (Fin x) (Fin y) = (x < y)"
| "f64_lt (Inf s) (Inf t) = (s \<and> \<not> t)"
| "f64_lt (Inf s) (Fin y) = s"
| "f64_lt (Fin x) (Inf t) = (\<not> t)"
| "f64_lt _ _ = False"

fun f64_le :: "f64 \<Rightarrow> f64 \<Rightarrow> bool" where
  "f64_le (Fin x) (Fin y) = (x \<le> y)"
| "f64_le (Inf s) (Inf t) = (s \<or> \<not> t)"
| "f64_le (Inf s) (Fin y) = s"
| "f64_le (Fin x) (Inf t) = (\<not> t)"
| "f64_le _ _ = False"

text \<open>
  The conversion \<^verbatim>\<open>int(f)\<close> truncates towards zero. Go leaves the result open when the value does
  not fit; the value here is the one amd64 produces.
\<close>

definition f64_to_int :: "f64 \<Rightarrow> int" where
  "f64_to_int f =
     (case f of
        Fin x \<Rightarrow> (let n = (if 0 \<le> x then \<lfloor>x\<rfloor> else \<lceil>x\<rceil>) in if int64 n then n else - (2 ^ 63))
      | _ \<Rightarrow> - (2 ^ 63))"

text \<open>\<^verbatim>\<open>floatVal\<close> of \<^verbatim>\<open>td2/types.go\<close>.\<close>

definition floatVal :: "f64 option \<Rightarrow> f64" where
  "floatVal v = (case v of None \<Rightarrow> Fin 0 | Some f \<Rightarrow> f)"

section \<open>What the alert conditions rely on\<close>

lemma f64_of_int_small: "\<bar>m\<bar> < 2 ^ 53 \<Longrightarrow> f64_of_int m = Fin (of_int m)"
  by (simp add: f64_of_int_def f64_round_int)

lemma f64_to_of_int: "\<bar>m\<bar> < 2 ^ 53 \<Longrightarrow> f64_to_int (f64_of_int m) = m"
  by (auto simp: f64_of_int_small f64_to_int_def int64_def)

text \<open>Counting in a float is exact up to \<open>2^53\<close>.\<close>

lemma f64_count: "0 \<le> m \<Longrightarrow> m + 1 < 2 ^ 53 \<Longrightarrow> f64_add (f64_of_int m) (Fin 1) = f64_of_int (m + 1)"
proof -
  assume "0 \<le> m" "m + 1 < 2 ^ 53"
  then have m: "\<bar>m\<bar> < 2 ^ 53" "\<bar>m + 1\<bar> < 2 ^ 53" by auto
  have "f64_add (f64_of_int m) (Fin 1) = f64_round (of_int (m + 1))"
    by (simp add: f64_of_int_small [OF m(1)])
  then show ?thesis by (simp only: f64_of_int_def)
qed

lemma f64_mul_int: "\<bar>m\<bar> < 2 ^ 53 \<Longrightarrow> \<bar>n\<bar> < 2 ^ 53 \<Longrightarrow> \<bar>m * n\<bar> < 2 ^ 53 \<Longrightarrow>
    f64_mul (f64_of_int m) (f64_of_int n) = f64_of_int (m * n)"
  by (simp add: f64_of_int_small f64_of_int_def [of "m * n"] flip: of_int_mult)

text \<open>
  A rounded quotient of integers is on the right side of an integer bound: the exact quotient
  differs from the bound by at least \<open>1 / b\<close>, which the rounding error cannot bridge.
\<close>

lemma f64_ratio_ge:
  assumes a: "0 \<le> a" "a < 2 ^ 53" and b: "0 < b" "b < 2 ^ 53"
    and w: "\<bar>w\<bar> < 2 ^ 53" "w * b < 2 ^ 53"
  shows "f64_le (f64_of_int w) (f64_div (f64_of_int a) (f64_of_int b)) \<longleftrightarrow> w * b \<le> a"
proof (cases "a = 0")
  case True
  then show ?thesis using b w
    by (auto simp: f64_of_int_small f64_round_def mult_le_0_iff)
next
  case False
  define x :: rat where "x = of_int a / of_int b"
  have x: "0 < x" using False a b by (simp add: x_def)
  have xa: "x \<le> of_int a" using a b by (simp add: x_def divide_le_eq mult_le_cancel_left1)
  have "1 / 2 ^ 53 \<le> x"
  proof -
    have "(of_int b :: rat) \<le> of_int (2 ^ 53)" using b by (simp only: of_int_le_iff less_imp_le)
    then have "1 / 2 ^ 53 \<le> (1::rat) / of_int b"
      using b by (intro divide_left_mono) simp_all
    also have "\<dots> \<le> x" unfolding x_def using False a b by (intro divide_right_mono) auto
    finally show ?thesis .
  qed
  moreover have "(2::rat) powi (- 53) = 1 / 2 ^ 53" by (simp only: power_int_minus power_int_numeral divide_inverse mult_1)
  ultimately have "(2::rat) powi (- 53) \<le> x" by (simp only:)
  then have "flog2 (2 powi (- 53)) \<le> flog2 x" by (intro flog2_mono) simp_all
  moreover have "flog2 (2 powi (- 53)) = - 53"
    by (rule flog2_unique) (simp_all only: order_refl powi_2_less_iff)
  ultimately have norm: "- 1022 \<le> flog2 x" by simp
  have "rnd x \<le> rnd (of_int a)" using xa by (rule rnd_mono)
  also have "\<dots> = of_int a" using a by (intro rnd_int) simp
  also have "\<dots> < of_int (2 ^ 53)" using a by (simp only: of_int_less_iff)
  finally have "\<bar>rnd x\<bar> < 2 ^ 1024" using rnd_nonneg [of x] x by simp
  then have div: "f64_div (f64_of_int a) (f64_of_int b) = Fin (rnd x)"
    using a b by (simp add: f64_of_int_small f64_round_def x_def)
  have "of_int w \<le> rnd x \<longleftrightarrow> w * b \<le> a"
  proof
    assume "w * b \<le> a"
    then have "of_int w * of_int b \<le> (of_int a :: rat)" by (simp flip: of_int_mult)
    then have "of_int w \<le> x" using b by (simp add: x_def pos_le_divide_eq)
    then have "rnd (of_int w) \<le> rnd x" by (rule rnd_mono)
    then show "of_int w \<le> rnd x" using w by (simp add: rnd_int)
  next
    assume le: "of_int w \<le> rnd x"
    show "w * b \<le> a"
    proof (rule ccontr)
      assume "\<not> w * b \<le> a"
      then have gap: "a + 1 \<le> w * b" by simp
      then have "(of_int (a + 1) :: rat) \<le> of_int (w * b)" by (simp only: of_int_le_iff)
      then have xw: "x + 1 / of_int b \<le> of_int w"
        using b by (simp add: x_def field_simps)
      have "(of_int (w * b) :: rat) < of_int (2 ^ 53)" using w by (simp only: of_int_less_iff)
      then have "(of_int w :: rat) / 2 ^ 53 < 1 / of_int b" using b by (simp add: field_simps)
      moreover have "(0::rat) < 1 / of_int b" using b by simp
      then have "x \<le> of_int w" using xw by linarith
      then have "x / 2 ^ 53 \<le> of_int w / 2 ^ 53" by (intro divide_right_mono) simp_all
      moreover have "rnd x \<le> x + x / 2 ^ 53" using rnd_err [OF x norm] by linarith
      ultimately have "rnd x < of_int w" using xw by linarith
      with le show False by simp
    qed
  qed
  then show ?thesis using div w by (simp add: f64_of_int_small)
qed

end
