(* ===== verification/ModelTypes.thy ===== *)
theory ModelTypes
  imports GoStrings Float64
begin

text \<open>
  The data of the program, one record per struct, in the order of the source files
  (\<^verbatim>\<open>td2/types.go\<close>, \<^verbatim>\<open>td2/alert.go\<close>, \<^verbatim>\<open>td2/validator.go\<close>, \<^verbatim>\<open>td2/chain-details.go\<close>,
  \<^verbatim>\<open>td2/dashboard/types.go\<close>). Field names carry a prefix for their struct, since record fields
  are global names. Pointer fields that may be nil are options. Structs of the Cosmos SDK appear
  with the fields the program reads; the amount of an SDK \<^verbatim>\<open>DecCoin\<close> is the integer inside the
  SDK's \<^verbatim>\<open>Dec\<close>, and its arithmetic is a parameter of the functions that use it.
\<close>

section \<open>Data of other packages\<close>

record DecCoin =
  dc_Denom :: string
  dc_Amount :: int

record DenomUnit =
  du_Denom :: string
  du_Exponent :: nat
  du_Aliases :: "string list"

record Metadata =
  md_Description :: string
  md_DenomUnits :: "DenomUnit list"
  md_Base :: string
  md_Display :: string
  md_Name :: string
  md_Symbol :: string

record govProposal =
  gp_ProposalId :: nat
  gp_VotingEndTime :: gotime
  gp_Title :: string
  gp_Summary :: string

record CryptoPrice =
  cp_Name :: string
  cp_Slug :: string
  cp_Symbol :: string
  cp_Currency :: string
  cp_Price :: f64
  cp_LastUpdated :: gotime

section \<open>Data from cosmos.directory\<close>

record CDDenomInfo =
  cdi_Denom :: string
  cdi_Exponent :: int

record CDDenomUnit =
  cdu_Denom :: string
  cdu_Exponent :: int
  cdu_Aliases :: "string list"

record CDAsset =
  cda_Base :: CDDenomInfo
  cda_Symbol :: string
  cda_Display :: CDDenomInfo
  cda_Name :: string
  cda_Description :: string
  cda_DenomUnits :: "CDDenomUnit list"

text \<open>Of \<^verbatim>\<open>CDParams\<close>, the parameters the program reads.\<close>

record CDParams =
  cdp_CommunityTax :: f64
  cdp_CalculatedAPR :: f64
  cdp_BondDenom :: string

record CosmosDirectoryChainData =
  cd_ChainID :: string
  cd_Path :: string
  cd_ChainName :: string
  cd_Symbol :: string
  cd_Display :: string
  cd_Decimals :: nat
  cd_Denom :: string
  cd_Params :: CDParams
  cd_Assets :: "CDAsset list"

section \<open>Validator state\<close>

record ValInfo =
  vi_Moniker :: string
  vi_Bonded :: bool
  vi_Jailed :: bool
  vi_Tombstoned :: bool
  vi_Missed :: int
  vi_Window :: int
  vi_Conspub :: "string option"
  vi_Valcons :: string
  vi_DelegatedTokens :: f64
  vi_VotingPowerPercent :: f64
  vi_CommissionRate :: f64
  vi_ValidatorAPR :: f64
  vi_Projected30DRewards :: f64
  vi_SelfDelegationRewards :: "DecCoin list option"
  vi_Commission :: "DecCoin list option"

section \<open>Configuration\<close>

record PDConfig =
  pd_Enabled :: "bool option"
  pd_ApiKey :: string
  pd_DefaultSeverity :: string
  pd_SeverityThreshold :: string

record DiscordConfig =
  di_Enabled :: "bool option"
  di_Webhook :: string
  di_Mentions :: "string list option"
  di_SeverityThreshold :: string

record TeleConfig =
  tg_Enabled :: "bool option"
  tg_ApiKey :: string
  tg_Channel :: string
  tg_Mentions :: "string list option"
  tg_SeverityThreshold :: string

record SlackConfig =
  slk_Enabled :: "bool option"
  slk_Webhook :: string
  slk_Mentions :: "string list option"
  slk_SeverityThreshold :: string

record WebhookConfig =
  wh_Enabled :: "bool option"
  wh_URL :: string
  wh_SeverityThreshold :: string
  wh_DisableResolveMessage :: "bool option"

record AlertConfig =
  ac_Stalled :: "int option"
  ac_StalledAlerts :: "bool option"
  ac_ConsecutiveMissed :: "int option"
  ac_ConsecutivePriority :: string
  ac_ConsecutiveAlerts :: "bool option"
  ac_ConsecutiveMissExcludePreactions :: "bool option"
  ac_Window :: "int option"
  ac_PercentagePriority :: string
  ac_PercentageAlerts :: "bool option"
  ac_ConsecutiveEmpty :: "int option"
  ac_ConsecutiveEmptyPriority :: string
  ac_ConsecutiveEmptyAlerts :: "bool option"
  ac_EmptyWindow :: "int option"
  ac_EmptyPercentagePriority :: string
  ac_EmptyPercentageAlerts :: "bool option"
  ac_AlertIfInactive :: "bool option"
  ac_AlertIfNoServers :: "bool option"
  ac_DoubleSignAlerts :: "bool option"
  ac_GovernanceAlerts :: "bool option"
  ac_StakeChangeAlerts :: "bool option"
  ac_StakeChangeDropThreshold :: "f64 option"
  ac_StakeChangeIncreaseThreshold :: "f64 option"
  ac_CommissionChangeAlerts :: "bool option"
  ac_CommissionChangeThreshold :: "f64 option"
  ac_UnclaimedRewardsAlerts :: "bool option"
  ac_UnclaimedRewardsThreshold :: "f64 option"
  ac_Pagerduty :: PDConfig
  ac_Discord :: DiscordConfig
  ac_Telegram :: TeleConfig
  ac_Slack :: SlackConfig
  ac_Webhook :: WebhookConfig

record NodeConfig =
  nd_Url :: string
  nd_AlertIfDown :: bool
  nd_down :: bool
  nd_wasDown :: bool
  nd_syncing :: bool
  nd_lastMsg :: string
  nd_downSince :: gotime
  nd_lagging :: bool
  nd_wasLagging :: bool
  nd_laggingSince :: gotime

record HealthcheckConfig =
  hc_Enabled :: bool
  hc_PingURL :: string
  hc_PingRate :: duration

record DashboardAuthConfig =
  da_Enabled :: bool
  da_Username :: string
  da_PasswordHash :: string

record PriceConversionConfig =
  pc_Enabled :: bool
  pc_Provider :: string
  pc_Currency :: string
  pc_CacheExpiration :: int

text \<open>A value of the free-form provider settings, as far as the program looks at it.\<close>

datatype any_value = AnyString string | AnyList "any_value list" | AnyOther

record ProviderConfig =
  pv_Name :: string
  pv_Configs :: "(string, any_value) gomap"

text \<open>
  One monitored validator. The RPC client and the websocket client are the URL they are connected
  to; the eight counters are floats, as in the code.
\<close>

record ChainConfig =
  cc_name :: string
  cc_wsclient :: "string option"
  cc_client :: "string option"
  cc_noNodes :: bool
  cc_noWsNodes :: bool
  cc_valInfo :: "ValInfo option"
  cc_lastValInfo :: "ValInfo option"
  cc_totalBondedTokens :: f64
  cc_totalSupply :: f64
  cc_communityTax :: f64
  cc_inflationRate :: f64
  cc_baseAPR :: f64
  cc_denomMetadata :: "Metadata option"
  cc_cryptoPrice :: "CryptoPrice option"
  cc_cosmosDirectoryData :: "CosmosDirectoryChainData option"
  cc_minSignedPerWindow :: f64
  cc_blocksResults :: "int list"
  cc_lastError :: string
  cc_lastBlockTime :: gotime
  cc_lastBlockAlarm :: bool
  cc_lastBlockNum :: int
  cc_activeAlerts :: int
  cc_unvotedOpenGovProposals :: "govProposal list"
  cc_silencedUntil :: int
  cc_statTotalSigns :: f64
  cc_statTotalProps :: f64
  cc_statTotalMiss :: f64
  cc_statPrevoteMiss :: f64
  cc_statPrecommitMiss :: f64
  cc_statConsecutiveMiss :: f64
  cc_statTotalPropsEmpty :: f64
  cc_statConsecutiveEmpty :: f64
  cc_ChainId :: string
  cc_ValAddress :: string
  cc_ValconsOverride :: string
  cc_ExtraInfo :: string
  cc_Alerts :: AlertConfig
  cc_PublicFallback :: bool
  cc_Nodes :: "NodeConfig list"
  cc_Provider :: ProviderConfig
  cc_Slug :: string
  cc_InflationRateOverriding :: f64
  cc_ChainName :: string

record Config =
  cfg_EnableDash :: bool
  cfg_Listen :: string
  cfg_HideLogs :: bool
  cfg_DashboardAuth :: DashboardAuthConfig
  cfg_NodeDownMin :: int
  cfg_NodeDownSeverity :: string
  cfg_DigestIntervalSeconds :: int
  cfg_EscalationMinutes :: int
  cfg_TLSSkipVerify :: bool
  cfg_Prom :: bool
  cfg_PrometheusListenPort :: int
  cfg_DefaultAlertConfig :: AlertConfig
  cfg_Healthcheck :: HealthcheckConfig
  cfg_GovernanceAlertsReminderInterval :: int
  cfg_CoinMarketCapAPIToken :: string
  cfg_CoinGeckoAPIToken :: string
  cfg_PriceConversion :: PriceConversionConfig
  cfg_Chains :: "(string, ChainConfig) gomap"

section \<open>Alerts\<close>

record alertMsg =
  m_pd :: bool
  m_disc :: bool
  m_tg :: bool
  m_slk :: bool
  m_wh :: bool
  m_severity :: string
  m_resolved :: bool
  m_chain :: string
  m_chainName :: string
  m_valoperAddress :: string
  m_valconsAddress :: string
  m_message :: string
  m_uniqueId :: string
  m_key :: string
  m_tgChannel :: string
  m_tgKey :: string
  m_tgMentions :: string
  m_discHook :: string
  m_discMentions :: string
  m_slkHook :: string
  m_slkMentions :: string
  m_whURL :: string
  m_alertConfig :: AlertConfig

datatype notifyDest = pd | tg | di | slk | wh

record alertMsgCache =
  amc_Message :: string
  amc_SentTime :: gotime
  amc_Severity :: string
  amc_Escalated :: bool

type_synonym sent_map = "(string, alertMsgCache) gomap"

record alarmCache =
  SentPdAlarms :: sent_map
  SentTgAlarms :: sent_map
  SentDiAlarms :: sent_map
  SentSlkAlarms :: sent_map
  SentWHAlarms :: sent_map
  AllAlarms :: "(string, sent_map) gomap"
  flappingAlarms :: "(string, sent_map) gomap"

section \<open>Dashboard and metrics\<close>

record LogMessage =
  lm_MsgType :: string
  lm_Ts :: int
  lm_Msg :: string

record AlertHistoryEntry =
  ah_MsgType :: string
  ah_Time :: int
  ah_Chain :: string
  ah_ChainId :: string
  ah_Message :: string
  ah_Severity :: string
  ah_Resolved :: bool

record ChainStatus =
  cs_MsgType :: string
  cs_Name :: string
  cs_ChainId :: string
  cs_Moniker :: string
  cs_Bonded :: bool
  cs_Jailed :: bool
  cs_Tombstoned :: bool
  cs_Missed :: int
  cs_Window :: int
  cs_MinSignedPerWindow :: f64
  cs_Nodes :: int
  cs_HealthyNodes :: int
  cs_ActiveAlerts :: int
  cs_Height :: int
  cs_LastError :: string
  cs_Silenced :: bool
  cs_SilencedUntil :: int
  cs_UnvotedOpenGovProposals :: int
  cs_TotalBondedTokens :: f64
  cs_TotalSupply :: f64
  cs_CommunityTax :: f64
  cs_InflationRate :: f64
  cs_BaseAPR :: f64
  cs_VotingPowerPercent :: f64
  cs_DelegatedTokens :: f64
  cs_CommissionRate :: f64
  cs_ValidatorAPR :: f64
  cs_SelfDelegationRewards :: "DecCoin list option"
  cs_Commission :: "DecCoin list option"
  cs_CryptoPrice :: "CryptoPrice option"
  cs_DenomMetadata :: "Metadata option"
  cs_Projected30DRewards :: f64
  cs_Blocks :: "int list"

datatype metricType =
    metricSigned | metricProposed | metricMissed | metricPrevote | metricPrecommit
  | metricConsecutive | metricEmptyBlocks | metricConsecutiveEmpty | metricWindowMissed
  | metricWindowSize | metricLastBlockSeconds | metricLastBlockSecondsNotFinal
  | metricTotalNodes | metricUnealthyNodes | metricNodeLagSeconds | metricNodeDownSeconds
  | metricUnvotedProposals

record promUpdate =
  pu_metric :: metricType
  pu_counter :: f64
  pu_name :: string
  pu_chainId :: string
  pu_moniker :: string
  pu_endpoint :: string

section \<open>The running program\<close>

text \<open>
  The global variables \<^verbatim>\<open>td\<close> and \<^verbatim>\<open>alarms\<close>, and for every channel of \<^verbatim>\<open>td\<close> what has been sent on
  it so far, oldest first.
\<close>

record sys =
  td :: Config
  alarms :: alarmCache
  alertChan :: "alertMsg list"
  alertHistoryChan :: "AlertHistoryEntry list"
  updateChan :: "ChainStatus list"
  statsChan :: "promUpdate list"

end
