(* ===== verification/Samples.thy ===== *)
theory Samples
  imports ModelTypes
begin

text \<open>
  Concrete states on which the theorems of the development are applied: Go's zero values of the
  configuration structs, and a small installation that monitors one bonded validator on one chain
  with every destination enabled. Nothing but the examples rests on these definitions.
\<close>

definition zero_AlertConfig :: AlertConfig where
  "zero_AlertConfig =
    \<lparr>ac_Stalled = None, ac_StalledAlerts = None, ac_ConsecutiveMissed = None, ac_ConsecutivePriority = [],
     ac_ConsecutiveAlerts = None, ac_ConsecutiveMissExcludePreactions = None, ac_Window = None,
     ac_PercentagePriority = [], ac_PercentageAlerts = None, ac_ConsecutiveEmpty = None,
     ac_ConsecutiveEmptyPriority = [], ac_ConsecutiveEmptyAlerts = None, ac_EmptyWindow = None,
     ac_EmptyPercentagePriority = [], ac_EmptyPercentageAlerts = None, ac_AlertIfInactive = None,
     ac_AlertIfNoServers = None, ac_DoubleSignAlerts = None, ac_GovernanceAlerts = None,
     ac_StakeChangeAlerts = None, ac_StakeChangeDropThreshold = None, ac_StakeChangeIncreaseThreshold = None,
     ac_CommissionChangeAlerts = None, ac_CommissionChangeThreshold = None, ac_UnclaimedRewardsAlerts = None,
     ac_UnclaimedRewardsThreshold = None,
     ac_Pagerduty = \<lparr>pd_Enabled = None, pd_ApiKey = [], pd_DefaultSeverity = [], pd_SeverityThreshold = []\<rparr>,
     ac_Discord = \<lparr>di_Enabled = None, di_Webhook = [], di_Mentions = None, di_SeverityThreshold = []\<rparr>,
     ac_Telegram = \<lparr>tg_Enabled = None, tg_ApiKey = [], tg_Channel = [], tg_Mentions = None, tg_SeverityThreshold = []\<rparr>,
     ac_Slack = \<lparr>slk_Enabled = None, slk_Webhook = [], slk_Mentions = None, slk_SeverityThreshold = []\<rparr>,
     ac_Webhook = \<lparr>wh_Enabled = None, wh_URL = [], wh_SeverityThreshold = [], wh_DisableResolveMessage = None\<rparr>\<rparr>"

definition sample_alerts :: AlertConfig where
  "sample_alerts = zero_AlertConfig\<lparr>
     ac_Stalled := Some 10, ac_ConsecutiveMissed := Some 5, ac_ConsecutivePriority := ''critical'',
     ac_Window := Some 10, ac_PercentagePriority := ''warning'',
     ac_Pagerduty := \<lparr>pd_Enabled = Some True, pd_ApiKey = ''key'', pd_DefaultSeverity = [], pd_SeverityThreshold = ''critical''\<rparr>,
     ac_Discord := \<lparr>di_Enabled = Some True, di_Webhook = ''https://d'', di_Mentions = None, di_SeverityThreshold = ''info''\<rparr>,
     ac_Telegram := \<lparr>tg_Enabled = Some True, tg_ApiKey = ''bot'', tg_Channel = ''chan'', tg_Mentions = None, tg_SeverityThreshold = ''info''\<rparr>,
     ac_Slack := \<lparr>slk_Enabled = Some True, slk_Webhook = ''https://s'', slk_Mentions = Some [''@ops''], slk_SeverityThreshold = ''info''\<rparr>,
     ac_Webhook := \<lparr>wh_Enabled = Some True, wh_URL = ''https://w'', wh_SeverityThreshold = ''info'', wh_DisableResolveMessage = None\<rparr>\<rparr>"

definition sample_valinfo :: ValInfo where
  "sample_valinfo =
    \<lparr>vi_Moniker = ''val'', vi_Bonded = True, vi_Jailed = False, vi_Tombstoned = False, vi_Missed = 0,
     vi_Window = 10000, vi_Conspub = Some ''pub'', vi_Valcons = ''valcons1'', vi_DelegatedTokens = Fin 0,
     vi_VotingPowerPercent = Fin 0, vi_CommissionRate = Fin 0, vi_ValidatorAPR = Fin 0,
     vi_Projected30DRewards = Fin 0, vi_SelfDelegationRewards = None, vi_Commission = None\<rparr>"

definition sample_node :: NodeConfig where
  "sample_node = \<lparr>nd_Url = ''tcp://n1'', nd_AlertIfDown = True, nd_down = False, nd_wasDown = False,
     nd_syncing = False, nd_lastMsg = [], nd_downSince = zero_time, nd_lagging = False,
     nd_wasLagging = False, nd_laggingSince = zero_time\<rparr>"

definition sample_chain :: ChainConfig where
  "sample_chain =
    \<lparr>cc_name = ''net'', cc_wsclient = None, cc_client = Some ''tcp://n1'', cc_noNodes = False, cc_noWsNodes = False,
     cc_valInfo = Some sample_valinfo, cc_lastValInfo = None, cc_totalBondedTokens = Fin 0,
     cc_totalSupply = Fin 0, cc_communityTax = Fin 0, cc_inflationRate = Fin 0, cc_baseAPR = Fin 0,
     cc_denomMetadata = None, cc_cryptoPrice = None, cc_cosmosDirectoryData = None,
     cc_minSignedPerWindow = Fin 0, cc_blocksResults = [- 1, - 1, - 1, - 1], cc_lastError = [],
     cc_lastBlockTime = zero_time, cc_lastBlockAlarm = False, cc_lastBlockNum = 0, cc_activeAlerts = 0,
     cc_unvotedOpenGovProposals = [], cc_silencedUntil = 0, cc_statTotalSigns = Fin 0,
     cc_statTotalProps = Fin 0, cc_statTotalMiss = Fin 0, cc_statPrevoteMiss = Fin 0,
     cc_statPrecommitMiss = Fin 0, cc_statConsecutiveMiss = Fin 0, cc_statTotalPropsEmpty = Fin 0,
     cc_statConsecutiveEmpty = Fin 0, cc_ChainId = ''net-1'', cc_ValAddress = ''netvaloper1xyz'',
     cc_ValconsOverride = [], cc_ExtraInfo = [], cc_Alerts = sample_alerts, cc_PublicFallback = False,
     cc_Nodes = [sample_node], cc_Provider = \<lparr>pv_Name = [], pv_Configs = []\<rparr>, cc_Slug = [],
     cc_InflationRateOverriding = Fin 0, cc_ChainName = []\<rparr>"

definition sample_config :: Config where
  "sample_config =
    \<lparr>cfg_EnableDash = True, cfg_Listen = ''8888'', cfg_HideLogs = False,
     cfg_DashboardAuth = \<lparr>da_Enabled = False, da_Username = [], da_PasswordHash = []\<rparr>,
     cfg_NodeDownMin = 3, cfg_NodeDownSeverity = ''critical'', cfg_DigestIntervalSeconds = 0,
     cfg_EscalationMinutes = 0, cfg_TLSSkipVerify = False, cfg_Prom = False, cfg_PrometheusListenPort = 0,
     cfg_DefaultAlertConfig = sample_alerts,
     cfg_Healthcheck = \<lparr>hc_Enabled = False, hc_PingURL = [], hc_PingRate = 0\<rparr>,
     cfg_GovernanceAlertsReminderInterval = 6, cfg_CoinMarketCapAPIToken = [], cfg_CoinGeckoAPIToken = [],
     cfg_PriceConversion = \<lparr>pc_Enabled = False, pc_Provider = [], pc_Currency = [], pc_CacheExpiration = 0\<rparr>,
     cfg_Chains = [(''net'', sample_chain)]\<rparr>"

definition no_alarms :: alarmCache where
  "no_alarms = \<lparr>SentPdAlarms = [], SentTgAlarms = [], SentDiAlarms = [], SentSlkAlarms = [],
     SentWHAlarms = [], AllAlarms = [], flappingAlarms = []\<rparr>"

definition sample_sys :: "ChainConfig \<Rightarrow> alarmCache \<Rightarrow> sys" where
  "sample_sys cc a = \<lparr>td = sample_config\<lparr>cfg_Chains := [(''net'', cc)]\<rparr>, alarms = a, alertChan = [],
     alertHistoryChan = [], updateChan = [], statsChan = []\<rparr>"

text \<open>A November evening in 2023.\<close>

definition noon :: gotime where
  "noon = 1700000000 * 10 ^ 9"

lemmas sample_defs = zero_AlertConfig_def sample_alerts_def sample_valinfo_def sample_node_def
  sample_chain_def sample_config_def no_alarms_def sample_sys_def noon_def

lemma sample_sys_simps [simp]:
  "alarms (sample_sys cc a) = a" "alertChan (sample_sys cc a) = []"
  "cfg_EnableDash (td (sample_sys cc a))" "\<not> cfg_HideLogs (td (sample_sys cc a))"
  by (simp_all add: sample_sys_def sample_config_def)

lemma noon_ok [simp]: "\<not> IsZero noon" "0 < noon"
  by (simp_all add: noon_def time_defs)

end
