(* ===== verification/Alarms.thy ===== *)
theory Alarms
  imports Samples
begin

text \<open>
  The alarm cache and the notification gate of \<^verbatim>\<open>td2/alert.go\<close>: \<^verbatim>\<open>SeverityThresholdToSeverities\<close>,
  the queries on \<^verbatim>\<open>AllAlarms\<close> and \<^verbatim>\<open>shouldNotify\<close>, which decides for one destination whether a
  message goes out and remembers that it did.

  Abstractly, every pair of a destination and an alert id is a switch: a firing message is let
  through only when the switch is off and turns it on, a resolving message only when it is on and
  turns it off. The locale \<open>notify_gate\<close> states this as a contract; the alternation of firing and
  resolving notifications is proved from the contract alone.
\<close>

section \<open>Severity thresholds\<close>

definition SeverityThresholdToSeverities :: "string \<Rightarrow> string list" where
  "SeverityThresholdToSeverities threshold =
     (let t = ToLower threshold
      in if t = ''critical'' then [''critical'']
         else if t = ''warning'' then [''critical'', ''warning'']
         else if t = ''info'' then [''critical'', ''warning'', ''info'']
         else [''critical'', ''warning'', ''info''])"

lemma critical_always_allowed: "''critical'' \<in> set (SeverityThresholdToSeverities t)"
  by (simp add: SeverityThresholdToSeverities_def Let_def)

section \<open>Queries on the alarm cache\<close>

definition getCount :: "alarmCache \<Rightarrow> string \<Rightarrow> int" where
  "getCount a chain = (case gm_get (AllAlarms a) chain of None \<Rightarrow> 0 | Some m \<Rightarrow> gm_len m)"

definition clearAll :: "string \<Rightarrow> alarmCache \<Rightarrow> alarmCache" where
  "clearAll chain a =
     (case gm_get (AllAlarms a) chain of
        None \<Rightarrow> a
      | Some _ \<Rightarrow> a\<lparr>AllAlarms := gm_set chain [] (AllAlarms a)\<rparr>)"

definition exist :: "alarmCache \<Rightarrow> string \<Rightarrow> string \<Rightarrow> bool" where
  "exist a chain alertID = (gm2_get (AllAlarms a) chain alertID \<noteq> None)"

text \<open>The \<^verbatim>\<open>SentTime\<close> of a map entry; a missing entry reads as the zero value.\<close>

definition sent_time :: "sent_map \<Rightarrow> string \<Rightarrow> gotime" where
  "sent_time m k = (case gm_get m k of None \<Rightarrow> zero_time | Some c \<Rightarrow> amc_SentTime c)"

definition sent_time2 :: "(string, sent_map) gomap \<Rightarrow> string \<Rightarrow> string \<Rightarrow> gotime" where
  "sent_time2 m c k = (case gm2_get m c k of None \<Rightarrow> zero_time | Some e \<Rightarrow> amc_SentTime e)"

lemma exist_clearAll: "exist (clearAll chain a) c i \<longleftrightarrow> c \<noteq> chain \<and> exist a c i"
  by (auto simp: exist_def clearAll_def gm2_get_def split: option.splits)

lemma getCount_zero: "getCount a chain = 0 \<longleftrightarrow> (\<forall>i. \<not> exist a chain i)"
  by (auto simp: getCount_def exist_def gm2_get_def gm.len_zero_iff split: option.splits)

lemma getCount_card:
  "(\<And>m. gm_get (AllAlarms a) chain = Some m \<Longrightarrow> gm_ok m) \<Longrightarrow>
     getCount a chain = int (card {i. exist a chain i})"
  by (auto simp: getCount_def exist_def gm2_get_def gm.len_card split: option.splits)

section \<open>The notification gate\<close>

definition severity_threshold :: "alertMsg \<Rightarrow> notifyDest \<Rightarrow> string" where
  "severity_threshold msg dest =
     (case dest of
        pd \<Rightarrow> pd_SeverityThreshold (ac_Pagerduty (m_alertConfig msg))
      | tg \<Rightarrow> tg_SeverityThreshold (ac_Telegram (m_alertConfig msg))
      | di \<Rightarrow> di_SeverityThreshold (ac_Discord (m_alertConfig msg))
      | slk \<Rightarrow> slk_SeverityThreshold (ac_Slack (m_alertConfig msg))
      | wh \<Rightarrow> wh_SeverityThreshold (ac_Webhook (m_alertConfig msg)))"

definition sent_of :: "notifyDest \<Rightarrow> alarmCache \<Rightarrow> sent_map" where
  "sent_of dest a =
     (case dest of pd \<Rightarrow> SentPdAlarms a | tg \<Rightarrow> SentTgAlarms a | di \<Rightarrow> SentDiAlarms a
      | slk \<Rightarrow> SentSlkAlarms a | wh \<Rightarrow> SentWHAlarms a)"

definition set_sent :: "notifyDest \<Rightarrow> sent_map \<Rightarrow> alarmCache \<Rightarrow> alarmCache" where
  "set_sent dest m a =
     (case dest of pd \<Rightarrow> a\<lparr>SentPdAlarms := m\<rparr> | tg \<Rightarrow> a\<lparr>SentTgAlarms := m\<rparr>
      | di \<Rightarrow> a\<lparr>SentDiAlarms := m\<rparr> | slk \<Rightarrow> a\<lparr>SentSlkAlarms := m\<rparr> | wh \<Rightarrow> a\<lparr>SentWHAlarms := m\<rparr>)"

definition sent_entry :: "gotime \<Rightarrow> alertMsg \<Rightarrow> alertMsgCache" where
  "sent_entry now msg =
     \<lparr>amc_Message = m_message msg, amc_SentTime = now, amc_Severity = [], amc_Escalated = False\<rparr>"

definition governance_prefix :: string where
  "governance_prefix = ''UnvotedGovernanceProposal''"

text \<open>
  \<^verbatim>\<open>shouldNotify(msg, dest)\<close>: the answer and the updated cache. \<open>reminder\<close> is
  \<^verbatim>\<open>td.GovernanceAlertsReminderInterval\<close>.
\<close>

definition shouldNotify ::
  "int \<Rightarrow> gotime \<Rightarrow> alertMsg \<Rightarrow> notifyDest \<Rightarrow> alarmCache \<Rightarrow> bool \<times> alarmCache" where
  "shouldNotify reminder now msg dest a =
     (if m_severity msg \<notin> set (SeverityThresholdToSeverities (severity_threshold msg dest)) then (False, a)
      else
        let whichMap = sent_of dest a; sent = sent_time whichMap (m_uniqueId msg)
        in if \<not> IsZero sent \<and> \<not> m_resolved msg then
             (if HasPrefix (m_uniqueId msg) governance_prefix \<and>
                 sent < now + dur_mul (dur_mul (- 1) reminder) Hour
              then (True, set_sent dest (gm_set (m_uniqueId msg) (sent_entry now msg) whichMap) a)
              else (False, a))
           else if \<not> IsZero sent \<and> m_resolved msg then
             (True, set_sent dest (gm_del (m_uniqueId msg) whichMap) a)
           else if m_resolved msg then (False, a)
           else
             let a1 = a\<lparr>flappingAlarms := gm2_touch (m_chain msg) (flappingAlarms a)\<rparr>
             in if dest = pd \<and> m_pd msg \<and>
                   now + dur_mul (- 5) Minute < sent_time2 (flappingAlarms a1) (m_chain msg) (m_uniqueId msg)
                then (False, a1)
                else
                  let a2 = (if dest = pd \<and> m_pd msg
                            then a1\<lparr>flappingAlarms := gm2_set (m_chain msg) (m_uniqueId msg)
                                     (sent_entry now msg) (flappingAlarms a1)\<rparr>
                            else a1)
                  in (True, set_sent dest (gm_set (m_uniqueId msg) (sent_entry now msg) whichMap) a2))"

text \<open>Whether an alert counts as sent and not resolved at a destination.\<close>

definition is_sent :: "notifyDest \<Rightarrow> string \<Rightarrow> alarmCache \<Rightarrow> bool" where
  "is_sent dest i a \<longleftrightarrow> \<not> IsZero (sent_time (sent_of dest a) i)"

lemma sent_time_simps [simp]:
  "sent_time (gm_set k e m) k' = (if k' = k then amc_SentTime e else sent_time m k')"
  "sent_time (gm_del k m) k' = (if k' = k then zero_time else sent_time m k')"
  "sent_time [] k = zero_time"
  by (simp_all add: sent_time_def)

lemma sent_time2_simps [simp]:
  "sent_time2 (gm2_set c k e m) c' k' = (if c' = c \<and> k' = k then amc_SentTime e else sent_time2 m c' k')"
  "sent_time2 (gm2_touch c m) c' k' = sent_time2 m c' k'"
  by (simp_all add: sent_time2_def)

lemma sent_of_set_sent [simp]: "sent_of d (set_sent d' m a) = (if d = d' then m else sent_of d a)"
  by (cases d; cases d') (simp_all add: sent_of_def set_sent_def)

lemma sent_of_flapping [simp]: "sent_of d (a\<lparr>flappingAlarms := f\<rparr>) = sent_of d a"
  by (cases d) (simp_all add: sent_of_def)

lemma sent_of_AllAlarms [simp]: "sent_of d (a\<lparr>AllAlarms := f\<rparr>) = sent_of d a"
  by (cases d) (simp_all add: sent_of_def)

lemma AllAlarms_set_sent [simp]: "AllAlarms (set_sent d m a) = AllAlarms a"
  by (cases d) (simp_all add: set_sent_def)

lemma flappingAlarms_set_sent [simp]: "flappingAlarms (set_sent d m a) = flappingAlarms a"
  by (cases d) (simp_all add: set_sent_def)

lemma sent_entry_SentTime [simp]: "amc_SentTime (sent_entry now msg) = now"
  by (simp add: sent_entry_def)

lemma IsZero_zero_time [simp]: "IsZero zero_time"
  by (simp add: IsZero_def)

text \<open>The gate never touches the alarms shown on the dashboard.\<close>

lemma shouldNotify_AllAlarms [frame_simps]:
  "AllAlarms (snd (shouldNotify r now msg d a)) = AllAlarms a"
  by (simp add: shouldNotify_def Let_def)

lemma exist_shouldNotify [frame_simps]:
  "exist (snd (shouldNotify r now msg d a)) c i = exist a c i"
  by (simp add: exist_def frame_simps)

lemma shouldNotify_frame:
  "(d', i) \<noteq> (d, m_uniqueId msg) \<Longrightarrow> is_sent d' i (snd (shouldNotify r now msg d a)) = is_sent d' i a"
  by (auto simp: shouldNotify_def is_sent_def Let_def)

lemma shouldNotify_reject:
  "\<not> fst (shouldNotify r now msg d a) \<Longrightarrow> is_sent d' i (snd (shouldNotify r now msg d a)) = is_sent d' i a"
  by (auto simp: shouldNotify_def is_sent_def Let_def split: if_splits)

lemma shouldNotify_accept:
  assumes "fst (shouldNotify r now msg d a)" "\<not> IsZero now"
    "\<not> HasPrefix (m_uniqueId msg) governance_prefix"
  shows "is_sent d (m_uniqueId msg) a = m_resolved msg \<and>
    is_sent d (m_uniqueId msg) (snd (shouldNotify r now msg d a)) = (\<not> m_resolved msg)"
  using assms by (auto simp: shouldNotify_def is_sent_def Let_def split: if_splits)

section \<open>The gate as a contract\<close>

text \<open>
  A run of the gate over a sequence of messages, each with the time of the call and its
  destination, returns the pairs of destination and message that were let through.
\<close>

fun gate_run :: "('t \<Rightarrow> 'm \<Rightarrow> 'd \<Rightarrow> 'a \<Rightarrow> bool \<times> 'a) \<Rightarrow> ('t \<times> 'd \<times> 'm) list \<Rightarrow> 'a \<Rightarrow> ('d \<times> 'm) list \<times> 'a" where
  "gate_run gate [] a = ([], a)"
| "gate_run gate ((t, d, m) # evs) a =
     (let (ok, a') = gate t m d a; (out, a'') = gate_run gate evs a'
      in (if ok then (d, m) # out else out, a''))"

lemma fst_gate_run:
  "gate t m d a = (ok, a') \<Longrightarrow> fst (gate_run gate ((t, d, m) # evs) a) =
     (if ok then (d, m) # fst (gate_run gate evs a') else fst (gate_run gate evs a'))"
  by (simp add: split_def Let_def)

text \<open>The flags alternate, and the next one must be \<open>s\<close>.\<close>

fun alternates :: "bool \<Rightarrow> bool list \<Rightarrow> bool" where
  "alternates s [] = True"
| "alternates s (b # bs) = (b = s \<and> alternates (\<not> s) bs)"

locale notify_gate =
  fixes gate :: "'t \<Rightarrow> 'm \<Rightarrow> 'd \<Rightarrow> 'a \<Rightarrow> bool \<times> 'a"
    and opened :: "'d \<Rightarrow> 'i \<Rightarrow> 'a \<Rightarrow> bool"
    and ident :: "'m \<Rightarrow> 'i"
    and closing :: "'m \<Rightarrow> bool"
    and plain :: "'i \<Rightarrow> bool"
    and clock_ok :: "'t \<Rightarrow> bool"
  assumes accept_flips: "gate t m d a = (True, a') \<Longrightarrow> clock_ok t \<Longrightarrow> plain (ident m) \<Longrightarrow>
        opened d (ident m) a = closing m \<and> opened d (ident m) a' = (\<not> closing m)"
    and reject_keeps: "gate t m d a = (False, a') \<Longrightarrow> opened d' i a' = opened d' i a"
    and gate_frame: "gate t m d a = (r, a') \<Longrightarrow> (d', i) \<noteq> (d, ident m) \<Longrightarrow> opened d' i a' = opened d' i a"
begin

definition flags :: "'d \<Rightarrow> 'i \<Rightarrow> ('d \<times> 'm) list \<Rightarrow> bool list" where
  "flags d i out = map (closing \<circ> snd) (filter (\<lambda>(d', m). d' = d \<and> ident m = i) out)"

lemma accepted_alternate:
  assumes "plain i" "\<forall>(t, d', m) \<in> set evs. clock_ok t"
  shows "alternates (opened d i a) (flags d i (fst (gate_run gate evs a)))"
  using assms(2)
proof (induction evs arbitrary: a)
  case Nil
  show ?case by (simp add: flags_def)
next
  case (Cons ev evs)
  obtain t d' m where ev: "ev = (t, d', m)" by (cases ev)
  obtain r a' where g: "gate t m d' a = (r, a')" by fastforce
  have run: "fst (gate_run gate (ev # evs) a) =
      (if r then (d', m) # fst (gate_run gate evs a') else fst (gate_run gate evs a'))"
    unfolding ev by (rule fst_gate_run) (rule g)
  have IH: "alternates (opened d i a') (flags d i (fst (gate_run gate evs a')))"
    using Cons by (simp add: ev)
  show ?case
  proof (cases "r \<and> d' = d \<and> ident m = i")
    case True
    then have "opened d i a = closing m \<and> opened d i a' = (\<not> closing m)"
      using accept_flips [of t m d' a a'] g Cons.prems assms(1) by (simp add: ev)
    with True IH show ?thesis by (simp add: run flags_def)
  next
    case False
    then have "opened d i a' = opened d i a"
      using reject_keeps [of t m d' a a' d i] gate_frame [of t m d' a r a' d i] g by (cases r) auto
    with False IH show ?thesis by (auto simp: run flags_def)
  qed
qed

text \<open>A second firing message while the first is unresolved is never let through.\<close>

lemma no_duplicate: "opened d (ident m) a \<Longrightarrow> clock_ok t \<Longrightarrow> plain (ident m) \<Longrightarrow> \<not> closing m \<Longrightarrow>
    fst (gate t m d a) = False"
  using accept_flips [of t m d a] by (cases "gate t m d a") auto

text \<open>Nor a resolution nobody was told the beginning of.\<close>

lemma no_stray_resolve: "\<not> opened d (ident m) a \<Longrightarrow> clock_ok t \<Longrightarrow> plain (ident m) \<Longrightarrow> closing m \<Longrightarrow>
    fst (gate t m d a) = False"
  using accept_flips [of t m d a] by (cases "gate t m d a") auto

end

definition plain_id :: "string \<Rightarrow> bool" where
  "plain_id i \<longleftrightarrow> \<not> HasPrefix i governance_prefix"

definition clock_ok :: "gotime \<Rightarrow> bool" where
  "clock_ok now \<longleftrightarrow> \<not> IsZero now"

interpretation ng: notify_gate "shouldNotify r" is_sent m_uniqueId m_resolved plain_id clock_ok
proof unfold_locales
  show "is_sent d (m_uniqueId m) a = m_resolved m \<and> is_sent d (m_uniqueId m) a' = (\<not> m_resolved m)"
    if "shouldNotify r t m d a = (True, a')" "clock_ok t" "plain_id (m_uniqueId m)" for t m d a a'
    using shouldNotify_accept [of r t m d a] that by (simp add: plain_id_def clock_ok_def)
  show "is_sent d' i a' = is_sent d' i a" if "shouldNotify r t m d a = (False, a')" for t m d a a' d' i
    using shouldNotify_reject [of r t m d a d' i] that by simp
  show "is_sent d' i a' = is_sent d' i a"
    if "shouldNotify r t m d a = (x, a')" "(d', i) \<noteq> (d, m_uniqueId m)" for t m d a x a' d' i
    using shouldNotify_frame [of d' i d m r t a] that by simp
qed

section \<open>What the gate decides\<close>

text \<open>The decision on every branch, for the severities the destination takes.\<close>

definition flapping :: "gotime \<Rightarrow> alertMsg \<Rightarrow> alarmCache \<Rightarrow> bool" where
  "flapping now msg a \<longleftrightarrow>
     m_pd msg \<and> now - 5 * Minute < sent_time2 (flappingAlarms a) (m_chain msg) (m_uniqueId msg)"

lemma five_minutes: "dur_mul (- 5) Minute = - 5 * Minute"
  by (simp add: time_defs wrap64_def)

definition severity_ok :: "alertMsg \<Rightarrow> notifyDest \<Rightarrow> bool" where
  "severity_ok msg d \<longleftrightarrow> m_severity msg \<in> set (SeverityThresholdToSeverities (severity_threshold msg d))"

lemma shouldNotify_decision:
  "plain_id (m_uniqueId msg) \<Longrightarrow>
   fst (shouldNotify r now msg d a) \<longleftrightarrow>
     severity_ok msg d \<and> is_sent d (m_uniqueId msg) a = m_resolved msg \<and>
     \<not> (\<not> m_resolved msg \<and> d = pd \<and> flapping now msg a)"
  by (auto simp: shouldNotify_def severity_ok_def is_sent_def plain_id_def flapping_def five_minutes Let_def)

lemma shouldNotify_sent_after:
  "plain_id (m_uniqueId msg) \<Longrightarrow> clock_ok now \<Longrightarrow>
   is_sent d (m_uniqueId msg) (snd (shouldNotify r now msg d a)) =
     (if fst (shouldNotify r now msg d a) then \<not> m_resolved msg else is_sent d (m_uniqueId msg) a)"
  using shouldNotify_accept [of r now msg d a] shouldNotify_reject [of r now msg d a d "m_uniqueId msg"]
  by (auto simp: plain_id_def clock_ok_def)

lemma flapping_after:
  "flapping now' msg' (snd (shouldNotify r now msg d a)) =
     (if fst (shouldNotify r now msg d a) \<and> \<not> m_resolved msg \<and> d = pd \<and> m_pd msg \<and>
         \<not> is_sent pd (m_uniqueId msg) a \<and> m_chain msg' = m_chain msg \<and> m_uniqueId msg' = m_uniqueId msg
      then m_pd msg' \<and> now' - 5 * Minute < now else flapping now' msg' a)"
  by (auto simp: shouldNotify_def flapping_def is_sent_def five_minutes Let_def)

text \<open>
  C1: Notifications alternate. Over any sequence of calls of \<^verbatim>\<open>shouldNotify\<close>, at any times, to any
  destinations and for any mix of alerts, the messages let through to one destination for one
  alert id (other than a governance proposal, which may be repeated as a reminder) are firing,
  resolved, firing, resolved and so on, starting with a firing one if nothing was recorded as
  sent. So no destination sees the same alert twice in a row or a resolution out of the blue.
\<close>

theorem shouldNotify_alternates:
  assumes "\<not> HasPrefix i governance_prefix" "\<forall>(now, dest, msg) \<in> set calls. \<not> IsZero now"
  shows "alternates (is_sent d i a)
    (map (m_resolved \<circ> snd) (filter (\<lambda>(d', msg). d' = d \<and> m_uniqueId msg = i)
       (fst (gate_run (shouldNotify reminder) calls a))))"
  using ng.accepted_alternate [of i calls d a reminder] assms
  by (simp add: ng.flags_def plain_id_def clock_ok_def case_prod_unfold)

lemma not_sent_no_alarms [simp]: "\<not> is_sent d i no_alarms"
  by (cases d) (simp_all add: is_sent_def no_alarms_def sent_of_def)

lemma not_exist_no_alarms [simp]: "\<not> exist no_alarms c i"
  by (simp add: exist_def no_alarms_def)

theorem shouldNotify_alternates_witness:
  "\<exists>calls. length calls = 3 \<and> (\<forall>(now, dest, msg) \<in> set calls. \<not> IsZero now) \<and>
     alternates False (map (m_resolved \<circ> snd) (filter (\<lambda>(d', msg). d' = di \<and> m_uniqueId msg = ''A'')
       (fst (gate_run (shouldNotify 6) calls no_alarms))))"
proof -
  define m where "m r = \<lparr>m_pd = True, m_disc = True, m_tg = True, m_slk = True, m_wh = True, m_severity = ''critical'',
     m_resolved = r, m_chain = ''net'', m_chainName = [], m_valoperAddress = [], m_valconsAddress = [],
     m_message = ''down'', m_uniqueId = ''A'', m_key = [], m_tgChannel = [], m_tgKey = [], m_tgMentions = [],
     m_discHook = [], m_discMentions = [], m_slkHook = [], m_slkMentions = [], m_whURL = [],
     m_alertConfig = sample_alerts\<rparr>" for r
  let ?calls = "[(noon, di, m False), (noon, di, m False), (noon, di, m True)]"
  have "\<forall>(now, dest, msg) \<in> set ?calls. \<not> IsZero now" by simp
  then have "alternates (is_sent di ''A'' no_alarms) (map (m_resolved \<circ> snd)
      (filter (\<lambda>(d', msg). d' = di \<and> m_uniqueId msg = ''A'') (fst (gate_run (shouldNotify 6) ?calls no_alarms))))"
    by (intro shouldNotify_alternates) (simp_all add: HasPrefix_def governance_prefix_def)
  then show ?thesis by (intro exI [of _ ?calls]) simp
qed

end
