(* ===== verification/Alerting.thy ===== *)
theory Alerting
  imports Alarms
begin

text \<open>
  Raising and resolving alerts: \<^verbatim>\<open>buildAlertMsg\<close>, \<^verbatim>\<open>recordAlertHistory\<close>, \<^verbatim>\<open>(*Config).alert\<close> and
  \<^verbatim>\<open>clearNoBlocks\<close> of \<^verbatim>\<open>td2/alert.go\<close>, \<^verbatim>\<open>silenceStatus\<close> of \<^verbatim>\<open>td2/types.go\<close>, and the maintenance
  windows of \<^verbatim>\<open>td2/silence.go\<close>. The channels \<^verbatim>\<open>alertChan\<close> and \<^verbatim>\<open>alertHistoryChan\<close> are the lists of
  what was sent; both exist once \<^verbatim>\<open>loadConfig\<close> has run. Console logging is not modelled.
\<close>

section \<open>Maintenance windows\<close>

definition maxSilenceMinutes :: int where
  "maxSilenceMinutes = 24 * 60"

definition silenceStatus :: "gotime \<Rightarrow> ChainConfig \<Rightarrow> bool \<times> int" where
  "silenceStatus now cc =
     (let u = cc_silencedUntil cc in if 0 < u \<and> Unix now < u then (True, u) else (False, 0))"

abbreviation silenced :: "gotime \<Rightarrow> ChainConfig \<Rightarrow> bool" where
  "silenced now cc \<equiv> fst (silenceStatus now cc)"

text \<open>The chain a pointer of \<^verbatim>\<open>td.Chains\<close> leads to, and a write through it.\<close>

definition chain_of :: "sys \<Rightarrow> string \<Rightarrow> ChainConfig option" where
  "chain_of s k = gm_get (cfg_Chains (td s)) k"

definition put_chain :: "string \<Rightarrow> ChainConfig \<Rightarrow> sys \<Rightarrow> sys" where
  "put_chain k cc s = s\<lparr>td := (td s)\<lparr>cfg_Chains := gm_set k cc (cfg_Chains (td s))\<rparr>\<rparr>"

definition silenceChain :: "gotime \<Rightarrow> string \<Rightarrow> int \<Rightarrow> sys \<Rightarrow> string + (gotime \<times> sys)" where
  "silenceChain now chain minutes s =
     (if minutes < 1 \<or> maxSilenceMinutes < minutes
      then Inl (''minutes must be between 1 and '' @ itoa maxSilenceMinutes)
      else case chain_of s chain of
             None \<Rightarrow> Inl ''chain not found''
           | Some cc \<Rightarrow>
               let until = now + dur_mul minutes Minute
               in Inr (until, put_chain chain (cc\<lparr>cc_silencedUntil := Unix until\<rparr>) s))"

definition unsilenceChain :: "string \<Rightarrow> sys \<Rightarrow> string + sys" where
  "unsilenceChain chain s =
     (case chain_of s chain of
        None \<Rightarrow> Inl ''chain not found''
      | Some cc \<Rightarrow> Inr (put_chain chain (cc\<lparr>cc_silencedUntil := 0\<rparr>) s))"

lemma chain_of_put_chain [simp]: "chain_of (put_chain k cc s) k' = (if k' = k then Some cc else chain_of s k')"
  by (simp add: chain_of_def put_chain_def)

lemma put_chain_frame [simp, frame_simps]:
  "alarms (put_chain k cc s) = alarms s" "alertChan (put_chain k cc s) = alertChan s"
  "alertHistoryChan (put_chain k cc s) = alertHistoryChan s"
  "statsChan (put_chain k cc s) = statsChan s" "updateChan (put_chain k cc s) = updateChan s"
  by (simp_all add: put_chain_def)

lemma chain_of_alarms [simp]:
  "chain_of (s\<lparr>alarms := a\<rparr>) k = chain_of s k" "chain_of (s\<lparr>alertChan := c\<rparr>) k = chain_of s k"
  "chain_of (s\<lparr>alertHistoryChan := h\<rparr>) k = chain_of s k"
  "chain_of (s\<lparr>statsChan := st\<rparr>) k = chain_of s k" "chain_of (s\<lparr>updateChan := u\<rparr>) k = chain_of s k"
  by (simp_all add: chain_of_def)

lemma minutes_exact: "\<bar>m\<bar> \<le> 10 ^ 8 \<Longrightarrow> dur_mul m Minute = m * Minute"
  by (auto simp: dur_mul_def Minute_def int64_def intro!: wrap64_id)

section \<open>Building a message\<close>

definition buildAlertMsg ::
  "Config \<Rightarrow> string \<Rightarrow> string \<Rightarrow> string \<Rightarrow> bool \<Rightarrow> string \<Rightarrow> (alertMsg \<times> ChainConfig) option" where
  "buildAlertMsg c configName message severity resolved i =
     (case gm_get (cfg_Chains c) configName of
        None \<Rightarrow> None
      | Some cc \<Rightarrow>
          let valcons = (case cc_valInfo cc of None \<Rightarrow> [] | Some vi \<Rightarrow> vi_Valcons vi);
              dac = cfg_DefaultAlertConfig c; ac = cc_Alerts cc
          in Some
            (\<lparr>m_pd = boolVal (pd_Enabled (ac_Pagerduty dac)) \<and> boolVal (pd_Enabled (ac_Pagerduty ac)),
              m_disc = boolVal (di_Enabled (ac_Discord dac)) \<and> boolVal (di_Enabled (ac_Discord ac)),
              m_tg = boolVal (tg_Enabled (ac_Telegram dac)) \<and> boolVal (tg_Enabled (ac_Telegram ac)),
              m_slk = boolVal (slk_Enabled (ac_Slack dac)) \<and> boolVal (slk_Enabled (ac_Slack ac)),
              m_wh = boolVal (wh_Enabled (ac_Webhook dac)) \<and> boolVal (wh_Enabled (ac_Webhook ac)),
              m_severity = severity,
              m_resolved = resolved,
              m_chain = configName @ '' ('' @ cc_ChainId cc @ '')'',
              m_chainName = cc_ChainName cc,
              m_valoperAddress = cc_ValAddress cc,
              m_valconsAddress = valcons,
              m_message = message,
              m_uniqueId = i,
              m_key = pd_ApiKey (ac_Pagerduty ac),
              m_tgChannel = tg_Channel (ac_Telegram ac),
              m_tgKey = tg_ApiKey (ac_Telegram ac),
              m_tgMentions = Join (sliceVal (tg_Mentions (ac_Telegram ac))) '' '',
              m_discHook = di_Webhook (ac_Discord ac),
              m_discMentions = Join (sliceVal (di_Mentions (ac_Discord ac))) '' '',
              m_slkHook = slk_Webhook (ac_Slack ac),
              m_slkMentions = [],
              m_whURL = wh_URL (ac_Webhook ac),
              m_alertConfig = ac\<rparr>, cc))"

definition recordAlertHistory :: "gotime \<Rightarrow> ChainConfig \<Rightarrow> string \<Rightarrow> string \<Rightarrow> bool \<Rightarrow> sys \<Rightarrow> sys" where
  "recordAlertHistory now cc message severity resolved s =
     (if \<not> cfg_EnableDash (td s) \<or> cfg_HideLogs (td s) then s
      else s\<lparr>alertHistoryChan := alertHistoryChan s @
             [\<lparr>ah_MsgType = ''alert_history'', ah_Time = Unix now, ah_Chain = cc_name cc,
               ah_ChainId = cc_ChainId cc, ah_Message = message, ah_Severity = severity,
               ah_Resolved = resolved\<rparr>]\<rparr>)"

section \<open>Raising and resolving\<close>

definition alert_entry :: "gotime \<Rightarrow> string \<Rightarrow> string \<Rightarrow> alertMsgCache" where
  "alert_entry now message severity =
     \<lparr>amc_Message = message, amc_SentTime = now, amc_Severity = severity, amc_Escalated = False\<rparr>"

definition alert ::
  "gotime \<Rightarrow> string \<Rightarrow> string \<Rightarrow> string \<Rightarrow> bool \<Rightarrow> string option \<Rightarrow> sys \<Rightarrow> sys" where
  "alert now configName message severity resolved idp s =
     (case idp of
        None \<Rightarrow> s
      | Some i \<Rightarrow>
          (case buildAlertMsg (td s) configName message severity resolved i of
             None \<Rightarrow> s
           | Some (a, cc) \<Rightarrow>
               let sil = fst (silenceStatus now cc);
                   s1 = (if sil then s else s\<lparr>alertChan := alertChan s @ [a]\<rparr>);
                   s2 = recordAlertHistory now cc message severity resolved s1;
                   all = gm2_touch configName (AllAlarms (alarms s2))
               in if resolved \<and> \<not> IsZero (sent_time2 all configName i)
                  then s2\<lparr>alarms := (alarms s2)\<lparr>AllAlarms := gm2_del configName i all\<rparr>\<rparr>
                  else if resolved \<or> sil then s2\<lparr>alarms := (alarms s2)\<lparr>AllAlarms := all\<rparr>\<rparr>
                  else s2\<lparr>alarms := (alarms s2)\<lparr>AllAlarms :=
                         gm2_set configName i (alert_entry now message severity) all\<rparr>\<rparr>))"

text \<open>\<^verbatim>\<open>clearNoBlocks\<close> walks over the alarms of the chain; an alarm deleted on the way is not visited.\<close>

fun clearNoBlocks_at :: "gotime \<Rightarrow> ChainConfig \<Rightarrow> string list \<Rightarrow> sys \<Rightarrow> sys" where
  "clearNoBlocks_at now cc [] s = s"
| "clearNoBlocks_at now cc (k # ks) s =
     (if HasPrefix k ''ChainStalled'' \<and> exist (alarms s) (cc_name cc) k
      then clearNoBlocks_at now cc ks
        (alert now (cc_name cc)
          (''stalled: have not seen a new block on '' @ cc_ChainId cc @ '' in '' @
           itoa (intVal (ac_Stalled (cc_Alerts cc))) @ '' minutes'')
          ''critical'' True (Some (''ChainStalled_'' @ cc_ValAddress cc)) s)
      else clearNoBlocks_at now cc ks s)"

definition clearNoBlocks :: "gotime \<Rightarrow> ChainConfig \<Rightarrow> sys \<Rightarrow> sys" where
  "clearNoBlocks now cc s =
     (case gm_get (AllAlarms (alarms s)) (cc_name cc) of
        None \<Rightarrow> s
      | Some m \<Rightarrow> clearNoBlocks_at now cc (gm_keys m) s)"

section \<open>What alert changes\<close>

lemma recordAlertHistory_frame [simp, frame_simps]:
  "td (recordAlertHistory now cc msg sev r s) = td s"
  "alarms (recordAlertHistory now cc msg sev r s) = alarms s"
  "alertChan (recordAlertHistory now cc msg sev r s) = alertChan s"
  "statsChan (recordAlertHistory now cc msg sev r s) = statsChan s"
  "updateChan (recordAlertHistory now cc msg sev r s) = updateChan s"
  by (simp_all add: recordAlertHistory_def)

lemma alert_frame [simp, frame_simps]:
  "td (alert now c msg sev r i s) = td s"
  "statsChan (alert now c msg sev r i s) = statsChan s"
  "updateChan (alert now c msg sev r i s) = updateChan s"
  by (auto simp: alert_def Let_def split: option.splits prod.splits)

lemma alert_frame_alarms [simp, frame_simps]:
  "sent_of d (alarms (alert now c msg sev r i s)) = sent_of d (alarms s)"
  "flappingAlarms (alarms (alert now c msg sev r i s)) = flappingAlarms (alarms s)"
  by (auto simp: alert_def Let_def split: option.splits prod.splits)

lemma chain_of_alert [simp, frame_simps]: "chain_of (alert now c msg sev r i s) k = chain_of s k"
  by (simp add: chain_of_def)

lemma is_sent_alert [simp, frame_simps]: "is_sent d j (alarms (alert now c msg sev r i s)) = is_sent d j (alarms s)"
  by (simp add: is_sent_def)

lemma buildAlertMsg_None: "buildAlertMsg c k msg sev r i = None \<longleftrightarrow> gm_get (cfg_Chains c) k = None"
  by (simp add: buildAlertMsg_def Let_def split: option.split)

lemma buildAlertMsg_Some:
  "gm_get (cfg_Chains c) k = Some cc \<Longrightarrow>
   \<exists>a. buildAlertMsg c k msg sev r i = Some (a, cc) \<and> m_uniqueId a = i \<and> m_message a = msg \<and>
     m_severity a = sev \<and> m_resolved a = r \<and> m_alertConfig a = cc_Alerts cc \<and>
     m_chain a = k @ '' ('' @ cc_ChainId cc @ '')''"
  by (simp add: buildAlertMsg_def Let_def)

text \<open>The message an alert on a chain carries.\<close>

definition alert_message :: "sys \<Rightarrow> string \<Rightarrow> string \<Rightarrow> string \<Rightarrow> bool \<Rightarrow> string \<Rightarrow> alertMsg" where
  "alert_message s k message severity resolved i =
     fst (the (buildAlertMsg (td s) k message severity resolved i))"

lemma alert_message_simps [simp]:
  assumes "chain_of s k = Some cc"
  shows "m_uniqueId (alert_message s k msg sev r i) = i"
    "m_message (alert_message s k msg sev r i) = msg"
    "m_severity (alert_message s k msg sev r i) = sev"
    "m_resolved (alert_message s k msg sev r i) = r"
    "m_alertConfig (alert_message s k msg sev r i) = cc_Alerts cc"
    "m_chain (alert_message s k msg sev r i) = k @ '' ('' @ cc_ChainId cc @ '')''"
  using assms by (auto simp: alert_message_def buildAlertMsg_def chain_of_def Let_def)

lemma alert_alertChan:
  assumes "chain_of s k = Some cc"
  shows "alertChan (alert now k msg sev r (Some i) s) =
    alertChan s @ (if silenced now cc then [] else [alert_message s k msg sev r i])"
  using assms by (auto simp: alert_def alert_message_def buildAlertMsg_def chain_of_def Let_def)

lemma alert_no_chain: "chain_of s k = None \<Longrightarrow> alert now k msg sev r i s = s"
  by (simp add: alert_def buildAlertMsg_def chain_of_def split: option.split)

text \<open>
  The alarms of a chain as the dashboard and the evaluators see them: the set of active ids.
  Every recorded alarm has a time, and inner maps have distinct keys.
\<close>

definition activeAlarms :: "alarmCache \<Rightarrow> string \<Rightarrow> string set" where
  "activeAlarms a c = {i. exist a c i}"

definition alarms_ok :: "alarmCache \<Rightarrow> bool" where
  "alarms_ok a \<longleftrightarrow> (\<forall>c m. gm_get (AllAlarms a) c = Some m \<longrightarrow>
     gm_ok m \<and> (\<forall>i e. gm_get m i = Some e \<longrightarrow> \<not> IsZero (amc_SentTime e)))"

lemma alarms_ok_touch: "alarms_ok a \<Longrightarrow> alarms_ok (a\<lparr>AllAlarms := gm2_touch c (AllAlarms a)\<rparr>)"
  by (auto simp: alarms_ok_def gm2_touch_def split: option.splits if_splits)

lemma alarms_ok_del: "alarms_ok a \<Longrightarrow> alarms_ok (a\<lparr>AllAlarms := gm2_del c i (AllAlarms a)\<rparr>)"
  by (auto simp: alarms_ok_def gm2_del_def split: option.splits if_splits)

lemma alarms_ok_set: "alarms_ok a \<Longrightarrow> \<not> IsZero (amc_SentTime e) \<Longrightarrow>
    alarms_ok (a\<lparr>AllAlarms := gm2_set c i e (AllAlarms a)\<rparr>)"
  by (auto simp: alarms_ok_def gm2_set_def split: option.splits if_splits)

lemma alarms_ok_cong: "AllAlarms b = AllAlarms a \<Longrightarrow> alarms_ok b = alarms_ok a"
  by (simp add: alarms_ok_def)

lemma alarms_ok_shouldNotify [simp]: "alarms_ok (snd (shouldNotify r now msg d a)) = alarms_ok a"
  by (rule alarms_ok_cong) (rule shouldNotify_AllAlarms)

lemma alarms_ok_clearAll: "alarms_ok a \<Longrightarrow> alarms_ok (clearAll c a)"
  by (auto simp: alarms_ok_def clearAll_def split: option.splits if_splits)

lemma alarms_ok_sent_time2: "alarms_ok a \<Longrightarrow> IsZero (sent_time2 (AllAlarms a) c i) \<longleftrightarrow> \<not> exist a c i"
  by (auto simp: alarms_ok_def sent_time2_def exist_def gm2_get_def split: option.splits)

lemma getCount_active: "alarms_ok a \<Longrightarrow> getCount a c = int (card (activeAlarms a c))"
  unfolding activeAlarms_def by (rule getCount_card) (simp add: alarms_ok_def)

lemma alert_alarms_ok:
  assumes "alarms_ok (alarms s)" "clock_ok now"
  shows "alarms_ok (alarms (alert now k msg sev r i s))"
proof -
  have touch: "alarms_ok ((alarms s)\<lparr>AllAlarms := gm2_touch k (AllAlarms (alarms s))\<rparr>)"
    by (rule alarms_ok_touch) (rule assms)
  show ?thesis
    using touch assms(1) alarms_ok_del [OF touch] alarms_ok_set [OF touch] assms(2)
    by (auto simp: alert_def alert_entry_def clock_ok_def Let_def split: option.splits prod.splits)
qed

text \<open>\<^verbatim>\<open>alert\<close> on the set of active alarms.\<close>

lemma exist_alert:
  assumes "chain_of s k = Some cc" "alarms_ok (alarms s)"
  shows "exist (alarms (alert now k msg sev r (Some i) s)) c j \<longleftrightarrow>
    (if c = k \<and> j = i then (if r then False else if silenced now cc then exist (alarms s) c j else True)
     else exist (alarms s) c j)"
  using assms alarms_ok_sent_time2 [OF assms(2), of k i]
  by (auto simp: alert_def buildAlertMsg_def chain_of_def exist_def Let_def)

text \<open>
  C18: Raising and resolving refine insertion and deletion in a set. Through the abstraction that
  reads the alarm cache as the set of active ids of each chain, a resolving \<^verbatim>\<open>alert\<close> deletes the
  id, a firing one inserts it unless the chain is in a maintenance window, no other chain and no
  other id is touched, the invariant of the cache is kept, and \<^verbatim>\<open>getCount\<close> is the size of the set.
\<close>

theorem alert_refines_active_set:
  assumes "chain_of s k = Some cc" "alarms_ok (alarms s)" "\<not> IsZero now"
  shows "let s' = alert now k message severity resolved (Some i) s in
    activeAlarms (alarms s') =
      (activeAlarms (alarms s))(k := (if resolved then activeAlarms (alarms s) k - {i}
         else if silenced now cc then activeAlarms (alarms s) k
         else insert i (activeAlarms (alarms s) k))) \<and>
    alarms_ok (alarms s') \<and>
    (\<forall>c. getCount (alarms s') c = int (card (activeAlarms (alarms s') c)))"
proof -
  let ?s' = "alert now k message severity resolved (Some i) s"
  have ok: "alarms_ok (alarms ?s')"
    using assms by (intro alert_alarms_ok) (simp_all add: clock_ok_def)
  moreover have "activeAlarms (alarms ?s') c = ((activeAlarms (alarms s))(k := (if resolved then activeAlarms (alarms s) k - {i}
         else if silenced now cc then activeAlarms (alarms s) k
         else insert i (activeAlarms (alarms s) k)))) c" for c
    by (auto simp: activeAlarms_def exist_alert [OF assms(1,2)])
  ultimately show ?thesis
    by (simp add: Let_def fun_eq_iff getCount_active)
qed

section \<open>Maintenance windows and alerts\<close>

lemma silenced_iff: "silenced t cc \<longleftrightarrow> 0 < cc_silencedUntil cc \<and> Unix t < cc_silencedUntil cc"
  by (simp add: silenceStatus_def Let_def)

lemma Unix_mono: "t \<le> u \<Longrightarrow> Unix t \<le> Unix u"
  by (simp add: Unix_def zdiv_mono1)

lemma Unix_add_minutes: "Unix (now + m * Minute) = Unix now + m * 60"
proof -
  have "now + m * Minute = now + (m * 60) * 10 ^ 9" by (simp add: Minute_def)
  then show ?thesis unfolding Unix_def by (simp only: div_mult_self1 power_not_zero zero_neq_numeral not_False_eq_True)
qed

text \<open>
  C20: A maintenance window has exactly the length asked for. A request for 1 to 1440 minutes on
  a configured chain succeeds; at any later time the chain counts as silenced precisely while
  the whole-second clock is before the end, so never longer than 24 hours; any other request is
  refused with an error and leaves the program unchanged.
\<close>

theorem silenceChain_window:
  assumes "chain_of s chain = Some cc" "0 < now"
  shows "(1 \<le> minutes \<and> minutes \<le> 1440 \<longrightarrow>
      (\<exists>s' cc'. silenceChain now chain minutes s = Inr (now + minutes * Minute, s') \<and>
         chain_of s' chain = Some cc' \<and>
         (\<forall>t. silenced t cc' \<longleftrightarrow> Unix t < Unix now + 60 * minutes) \<and>
         (\<forall>t. now + 24 * Hour \<le> t \<longrightarrow> \<not> silenced t cc'))) \<and>
    (minutes < 1 \<or> 1440 < minutes \<longrightarrow>
      silenceChain now chain minutes s = Inl ''minutes must be between 1 and 1440'')"
proof (intro conjI impI)
  assume m: "1 \<le> minutes \<and> minutes \<le> 1440"
  let ?cc' = "cc\<lparr>cc_silencedUntil := Unix now + 60 * minutes\<rparr>"
  let ?s' = "put_chain chain ?cc' s"
  have until: "dur_mul minutes Minute = minutes * Minute" "Unix (now + minutes * Minute) = Unix now + 60 * minutes"
    using m by (simp_all add: minutes_exact Unix_add_minutes)
  have un: "0 \<le> Unix now" using assms(2) Unix_mono [of 0 now] by (simp add: Unix_def)
  have "silenceChain now chain minutes s = Inr (now + minutes * Minute, ?s')"
    using m assms(1) by (simp add: silenceChain_def maxSilenceMinutes_def until Let_def)
  moreover have "silenced t ?cc' \<longleftrightarrow> Unix t < Unix now + 60 * minutes" for t
    using m un by (auto simp: silenced_iff)
  moreover have "\<not> silenced t ?cc'" if "now + 24 * Hour \<le> t" for t
    using m un Unix_mono [OF that] Unix_add_minutes [of now 1440]
    by (auto simp: silenced_iff Hour_def Minute_def)
  ultimately show "\<exists>s' cc'. silenceChain now chain minutes s = Inr (now + minutes * Minute, s') \<and>
         chain_of s' chain = Some cc' \<and>
         (\<forall>t. silenced t cc' \<longleftrightarrow> Unix t < Unix now + 60 * minutes) \<and>
         (\<forall>t. now + 24 * Hour \<le> t \<longrightarrow> \<not> silenced t cc')"
    by (intro exI [of _ ?s'] exI [of _ ?cc'] conjI allI impI) simp_all
next
  assume "minutes < 1 \<or> 1440 < minutes"
  moreover have "itoa maxSilenceMinutes = ''1440''" by code_simp
  ultimately show "silenceChain now chain minutes s = Inl ''minutes must be between 1 and 1440''"
    by (auto simp: silenceChain_def maxSilenceMinutes_def)
qed

text \<open>
  While a chain is silenced nothing is dispatched for it: \<^verbatim>\<open>alert\<close> hands no message to the
  notifier and records no new active alarm (so a condition that still holds is raised again
  after the window), but a resolution still clears the alarm and the dashboard's history still
  gets its entry.
\<close>

lemma silenced_alert_not_dispatched:
  assumes "chain_of s k = Some cc" "silenced now cc" "alarms_ok (alarms s)"
    "cfg_EnableDash (td s)" "\<not> cfg_HideLogs (td s)"
  shows "let s' = alert now k message severity resolved (Some i) s in
    alertChan s' = alertChan s \<and>
    activeAlarms (alarms s') k = (if resolved then activeAlarms (alarms s) k - {i} else activeAlarms (alarms s) k) \<and>
    map ah_Message (alertHistoryChan s') = map ah_Message (alertHistoryChan s) @ [message]"
proof -
  let ?s' = "alert now k message severity resolved (Some i) s"
  have "alertChan ?s' = alertChan s" using assms by (simp add: alert_alertChan)
  moreover have "activeAlarms (alarms ?s') k = (if resolved then activeAlarms (alarms s) k - {i} else activeAlarms (alarms s) k)"
    using assms by (auto simp: activeAlarms_def exist_alert [OF assms(1,3)])
  moreover have "map ah_Message (alertHistoryChan ?s') = map ah_Message (alertHistoryChan s) @ [message]"
    using assms by (auto simp: alert_def buildAlertMsg_def recordAlertHistory_def chain_of_def Let_def)
  ultimately show ?thesis by (simp add: Let_def)
qed

text \<open>
  C19: An alert that resolves during a maintenance window makes the next one disappear. If the
  alert was notified at a destination, its condition clears while the chain is silenced and
  comes back after the window, the second \<^verbatim>\<open>alert\<close> does reach the notifier, but \<^verbatim>\<open>shouldNotify\<close>
  still has the first one on record as sent and refuses it: nobody is told.
\<close>

theorem resolved_while_silenced_loses_next_alert:
  assumes "chain_of s k = Some cc" "\<not> HasPrefix i governance_prefix" "is_sent d i (alarms s)"
    "silenced t1 cc" "\<not> silenced t2 cc"
  shows "let s1 = alert t1 k message1 severity True (Some i) s;
             s2 = alert t2 k message2 severity False (Some i) s1;
             m = alert_message s1 k message2 severity False i
         in alertChan s2 = alertChan s @ [m] \<and> m_uniqueId m = i \<and> \<not> m_resolved m \<and>
            (\<forall>t3 reminder. \<not> fst (shouldNotify reminder t3 m d (alarms s2)))"
proof -
  let ?s1 = "alert t1 k message1 severity True (Some i) s"
  let ?s2 = "alert t2 k message2 severity False (Some i) ?s1"
  have c1: "chain_of ?s1 k = Some cc" using assms(1) by simp
  have "alertChan ?s2 = alertChan s @ [alert_message ?s1 k message2 severity False i]"
    using assms by (simp add: alert_alertChan)
  moreover have "\<not> fst (shouldNotify reminder t3 (alert_message ?s1 k message2 severity False i) d (alarms ?s2))"
    for t3 reminder
    using assms c1 by (subst shouldNotify_decision) (simp_all add: plain_id_def)
  ultimately show ?thesis using c1 by (simp add: Let_def)
qed

text \<open>Slack mentions are configured but never put into a message.\<close>

lemma slack_mentions_dropped:
  "buildAlertMsg c k msg sev r i = Some (a, cc) \<Longrightarrow> m_slkMentions a = []"
  by (auto simp: buildAlertMsg_def Let_def split: option.splits)

section \<open>The theorems on a concrete installation\<close>

lemma chain_of_sample [simp]: "chain_of (sample_sys cc a) ''net'' = Some cc"
  by (simp add: chain_of_def sample_sys_def gm_get_def)

lemma alarms_ok_no_alarms [simp]: "alarms_ok no_alarms"
  by (simp add: alarms_ok_def no_alarms_def)

theorem alert_refines_active_set_witness:
  "exist (alarms (alert noon ''net'' ''down'' ''critical'' False (Some ''A'') (sample_sys sample_chain no_alarms))) ''net'' ''A'' \<and>
   getCount (alarms (alert noon ''net'' ''down'' ''critical'' False (Some ''A'') (sample_sys sample_chain no_alarms))) ''net'' = 1"
proof -
  let ?s = "sample_sys sample_chain no_alarms"
  have sil: "\<not> silenced noon sample_chain" by (simp add: silenced_iff sample_chain_def)
  have "activeAlarms no_alarms ''net'' = {}" by (simp add: activeAlarms_def)
  with sil alert_refines_active_set [of ?s "''net''" sample_chain noon "''down''" "''critical''" False "''A''"]
  have "activeAlarms (alarms (alert noon ''net'' ''down'' ''critical'' False (Some ''A'') ?s)) ''net'' = {''A''}"
    "getCount (alarms (alert noon ''net'' ''down'' ''critical'' False (Some ''A'') ?s)) ''net'' =
       int (card (activeAlarms (alarms (alert noon ''net'' ''down'' ''critical'' False (Some ''A'') ?s)) ''net''))"
    by (simp_all add: Let_def)
  then show ?thesis by (auto simp: activeAlarms_def)
qed

theorem silenceChain_window_witness:
  "\<exists>s' cc'. silenceChain noon ''net'' 30 (sample_sys sample_chain no_alarms) = Inr (noon + 30 * Minute, s') \<and>
     chain_of s' ''net'' = Some cc' \<and> silenced noon cc' \<and> \<not> silenced (noon + 24 * Hour) cc'"
proof -
  obtain s' cc' where "silenceChain noon ''net'' 30 (sample_sys sample_chain no_alarms) = Inr (noon + 30 * Minute, s')"
      "chain_of s' ''net'' = Some cc'" "\<forall>t. silenced t cc' \<longleftrightarrow> Unix t < Unix noon + 60 * 30"
      "\<forall>t. noon + 24 * Hour \<le> t \<longrightarrow> \<not> silenced t cc'"
    using silenceChain_window [of "sample_sys sample_chain no_alarms" "''net''" sample_chain noon 30] by auto
  then show ?thesis by auto
qed

definition silenced_sample :: ChainConfig where
  "silenced_sample = sample_chain\<lparr>cc_silencedUntil := Unix noon + 60\<rparr>"

lemma silenced_sample [simp]: "silenced noon silenced_sample" "\<not> silenced (noon + Hour) silenced_sample"
  by (simp_all add: silenced_sample_def silenced_iff noon_def Unix_def Hour_def)

lemma silenced_alert_not_dispatched_witness:
  "silenced noon silenced_sample \<and>
   alertChan (alert noon ''net'' ''down'' ''critical'' False (Some ''A'') (sample_sys silenced_sample no_alarms)) = []"
  using silenced_alert_not_dispatched [of "sample_sys silenced_sample no_alarms" "''net''" silenced_sample noon
      "''down''" "''critical''" False "''A''"]
  by (simp add: Let_def)

theorem resolved_while_silenced_loses_next_alert_witness:
  "let sent = set_sent di [(''A'', alert_entry noon ''down'' ''critical'')] no_alarms;
       s1 = alert noon ''net'' ''down'' ''critical'' True (Some ''A'') (sample_sys silenced_sample sent);
       s2 = alert (noon + Hour) ''net'' ''down again'' ''critical'' False (Some ''A'') s1
   in length (alertChan s2) = 1 \<and>
      \<not> fst (shouldNotify 6 (noon + Hour) (hd (alertChan s2)) di (alarms s2))"
proof -
  let ?sent = "set_sent di [(''A'', alert_entry noon ''down'' ''critical'')] no_alarms"
  have "is_sent di ''A'' ?sent"
    by (simp add: is_sent_def sent_time_def gm_get_def alert_entry_def)
  then show ?thesis
    using resolved_while_silenced_loses_next_alert [of "sample_sys silenced_sample ?sent" "''net''" silenced_sample
        "''A''" di noon "noon + Hour" "''down''" "''critical''" "''down again''"]
    by (simp add: Let_def HasPrefix_def governance_prefix_def)
qed

end
