(* ===== verification/Evaluate.thy ===== *)
theory Evaluate
  imports Alerting
begin

text \<open>
  The alert conditions of \<^verbatim>\<open>td2/alert.go\<close> that look at one validator: missed blocks, empty blocks,
  dead endpoints, a stalled chain and an inactive validator. Each evaluator takes the clock, the
  chain it is called for and the program state, and returns whether it raised or resolved an alert,
  the chain and the state. A nil \<^verbatim>\<open>valInfo\<close> that the code dereferences is \<open>None\<close>.

  The evaluators that watch a threshold are edge detectors. The locale \<open>threshold_alert\<close> states
  that once; what follows for a whole run of the two-second loop, maintenance windows included,
  is proved in the locale and read off for each evaluator. An evaluator is \<open>ready\<close> on a chain when
  the data it compares are there.
\<close>

section \<open>The evaluators\<close>

type_synonym verdict = "(bool \<times> bool) \<times> ChainConfig \<times> sys"

text \<open>\<^verbatim>\<open>cc.activeAlerts = alarms.getCount(cc.name); return alert, resolved\<close>.\<close>

definition finish :: "bool \<times> bool \<Rightarrow> ChainConfig \<Rightarrow> sys \<Rightarrow> verdict" where
  "finish r cc s = (r, cc\<lparr>cc_activeAlerts := getCount (alarms s) (cc_name cc)\<rparr>, s)"

text \<open>
  The two branches the evaluators share: raise unless active, otherwise clear if active. The text
  is an option because building it may dereference nil; it is built only when it is needed.
\<close>

definition raise_or_clear ::
  "gotime \<Rightarrow> ChainConfig \<Rightarrow> bool \<Rightarrow> string \<Rightarrow> string \<Rightarrow> string option \<Rightarrow> sys \<Rightarrow> ((bool \<times> bool) \<times> sys) option" where
  "raise_or_clear now cc cond alertID priority message s =
     (if cond then
        (if \<not> exist (alarms s) (cc_name cc) alertID then
           do { msg \<leftarrow> message;
                Some ((True, False), alert now (cc_name cc) msg priority False (Some alertID) s) }
         else Some ((False, False), s))
      else
        (if exist (alarms s) (cc_name cc) alertID then
           do { msg \<leftarrow> message;
                Some ((False, True), alert now (cc_name cc) msg priority True (Some alertID) s) }
         else Some ((False, False), s)))"

definition moniker :: "ChainConfig \<Rightarrow> string option" where
  "moniker cc = map_option vi_Moniker (cc_valInfo cc)"

definition evaluateConsecutiveBlocksMissedAlert :: "gotime \<Rightarrow> ChainConfig \<Rightarrow> sys \<Rightarrow> verdict option" where
  "evaluateConsecutiveBlocksMissedAlert now cc s =
     do { (r, s') \<leftarrow> raise_or_clear now cc
            (intVal (ac_ConsecutiveMissed (cc_Alerts cc)) \<le> f64_to_int (cc_statConsecutiveMiss cc))
            (''ConsecutiveBlocksMissed_'' @ cc_ValAddress cc)
            (ac_ConsecutivePriority (cc_Alerts cc))
            (do { m \<leftarrow> moniker cc;
                  Some (m @ '' has missed '' @ itoa (intVal (ac_ConsecutiveMissed (cc_Alerts cc))) @
                        '' blocks on '' @ cc_ChainId cc) }) s;
          Some (finish r cc s') }"

definition evaluatePercentageBlocksMissedAlert :: "gotime \<Rightarrow> ChainConfig \<Rightarrow> sys \<Rightarrow> verdict option" where
  "evaluatePercentageBlocksMissedAlert now cc s =
     do { vi \<leftarrow> cc_valInfo cc;
          (r, s') \<leftarrow> raise_or_clear now cc
            (f64_le (f64_of_int (intVal (ac_Window (cc_Alerts cc))))
              (f64_div (f64_mul (Fin 100) (f64_of_int (vi_Missed vi))) (f64_of_int (vi_Window vi))))
            (''PercentageBlocksMissed_'' @ cc_ValAddress cc)
            (ac_PercentagePriority (cc_Alerts cc))
            (Some (vi_Moniker vi @ '' has missed > '' @ itoa (intVal (ac_Window (cc_Alerts cc))) @
                   ''% of the slashing window's blocks on '' @ cc_ChainId cc)) s;
          Some (finish r cc s') }"

text \<open>The counter \<^verbatim>\<open>*noNodesSec\<close> is passed in and returned.\<close>

definition evaluateNoRPCEndpointsAlert ::
  "gotime \<Rightarrow> ChainConfig \<Rightarrow> int \<Rightarrow> sys \<Rightarrow> int \<times> verdict" where
  "evaluateNoRPCEndpointsAlert now cc noNodesSec s =
     (let alertID = ''NoRPCEndpoints_'' @ cc_ValAddress cc;
          text = ''no RPC endpoints are working for '' @ cc_ChainId cc
      in if cc_noNodes cc \<or> cc_noWsNodes cc then
           let sec = wrap64 (noNodesSec + 2)
           in if sec \<le> wrap64 (60 * cfg_NodeDownMin (td s)) then (sec, finish (False, False) cc s)
              else if \<not> exist (alarms s) (cc_name cc) alertID
              then (sec, finish (True, False) cc (alert now (cc_name cc) text ''critical'' False (Some alertID) s))
              else (sec, finish (False, False) cc s)
         else
           if exist (alarms s) (cc_name cc) alertID
           then (0, finish (False, True) cc (alert now (cc_name cc) text ''critical'' True (Some alertID) s))
           else (0, finish (False, False) cc s))"

definition evaluateChainStalledAlert :: "gotime \<Rightarrow> ChainConfig \<Rightarrow> sys \<Rightarrow> verdict" where
  "evaluateChainStalledAlert now cc s =
     (if IsZero (cc_lastBlockTime cc) then ((False, False), cc, s)
      else
        let alertID = ''ChainStalled_'' @ cc_ValAddress cc;
            limit = now + dur_mul (wrap64 (- intVal (ac_Stalled (cc_Alerts cc)))) Minute
        in if \<not> cc_lastBlockAlarm cc \<and> cc_lastBlockTime cc < limit then
             finish (True, False) (cc\<lparr>cc_lastBlockAlarm := True\<rparr>)
               (alert now (cc_name cc)
                 (''stalled: have not seen a new block on '' @ cc_ChainId cc @ '' in '' @
                  itoa (intVal (ac_Stalled (cc_Alerts cc))) @ '' minutes'')
                 ''critical'' False (Some alertID) s)
           else if \<not> cc_lastBlockTime cc < limit then
             finish (False, True) (cc\<lparr>cc_lastBlockAlarm := False\<rparr>) (clearNoBlocks now cc s)
           else finish (False, False) cc s)"

text \<open>The word between skull and tombstone signs, spelled out in UTF-8.\<close>

definition tombstoned_text :: string where
  "tombstoned_text =
     [CHR 0xE2, CHR 0x98, CHR 0xA0, CHR 0xEF, CHR 0xB8, CHR 0x8F] @ '' tombstoned '' @
     [CHR 0xF0, CHR 0x9F, CHR 0xAA, CHR 0xA6]"

definition evaluateValidatorInactiveAlert :: "gotime \<Rightarrow> ChainConfig \<Rightarrow> sys \<Rightarrow> verdict option" where
  "evaluateValidatorInactiveAlert now cc s =
     (case cc_lastValInfo cc of
        None \<Rightarrow> Some (finish (False, False) cc s)
      | Some lastInfo \<Rightarrow>
          do { vi \<leftarrow> cc_valInfo cc;
               if vi_Bonded lastInfo \<noteq> vi_Bonded vi \<and> vi_Moniker lastInfo = vi_Moniker vi then
                 let alertID = ''ValidatorInactive_'' @ cc_ValAddress cc;
                     text = (\<lambda>inactive. vi_Moniker vi @ '' is no longer active: validator '' @ cc_ValAddress cc @
                        '' is '' @ inactive @ '' for chainid '' @ cc_ChainId cc)
                 in if \<not> vi_Bonded vi \<and> vi_Bonded lastInfo then
                      Some (finish (True, False) cc (alert now (cc_name cc)
                        (text (if vi_Tombstoned vi then tombstoned_text else ''jailed''))
                        ''critical'' False (Some alertID) s))
                    else if vi_Bonded vi \<and> \<not> vi_Bonded lastInfo then
                      Some (finish (False, True) cc (alert now (cc_name cc) (text ''jailed'')
                        ''critical'' True (Some alertID) s))
                    else Some (finish (False, False) cc s)
               else Some (finish (False, False) cc s) })"

definition evaluateConsecutiveEmptyBlocksAlert :: "gotime \<Rightarrow> ChainConfig \<Rightarrow> sys \<Rightarrow> verdict option" where
  "evaluateConsecutiveEmptyBlocksAlert now cc s =
     do { (r, s') \<leftarrow> raise_or_clear now cc
            (intVal (ac_ConsecutiveEmpty (cc_Alerts cc)) \<le> f64_to_int (cc_statConsecutiveEmpty cc))
            (''ConsecutiveEmptyBlocks_'' @ cc_ValAddress cc)
            (ac_ConsecutiveEmptyPriority (cc_Alerts cc))
            (do { m \<leftarrow> moniker cc;
                  Some (m @ '' has proposed '' @ itoa (intVal (ac_ConsecutiveEmpty (cc_Alerts cc))) @
                        '' consecutive empty blocks on '' @ cc_ChainId cc) }) s;
          Some (finish r cc s') }"

definition evaluatePercentageEmptyBlocksAlert :: "gotime \<Rightarrow> ChainConfig \<Rightarrow> sys \<Rightarrow> verdict option" where
  "evaluatePercentageEmptyBlocksAlert now cc s =
     (let emptyBlocksPercent =
            (if f64_lt (Fin 0) (cc_statTotalProps cc)
             then f64_div (f64_mul (Fin 100) (cc_statTotalPropsEmpty cc)) (cc_statTotalProps cc) else Fin 0)
      in do { (r, s') \<leftarrow> raise_or_clear now cc
                (f64_le (f64_of_int (intVal (ac_EmptyWindow (cc_Alerts cc)))) emptyBlocksPercent)
                (''PercentageEmptyBlocks_'' @ cc_ValAddress cc)
                (ac_EmptyPercentagePriority (cc_Alerts cc))
                (do { m \<leftarrow> moniker cc;
                      Some (m @ '' has > '' @ itoa (intVal (ac_EmptyWindow (cc_Alerts cc))) @
                            ''% empty blocks ('' @ itoa (f64_to_int (cc_statTotalPropsEmpty cc)) @ '' of '' @
                            itoa (f64_to_int (cc_statTotalProps cc)) @ '' proposed blocks) on '' @ cc_ChainId cc) }) s;
              Some (finish r cc s') })"

section \<open>Threshold alerts as edge detectors\<close>

text \<open>
  A run of one evaluator over what the loop observes: before every tick other goroutines may have
  changed the chain in any way, so each observation carries the chain as the tick finds it.
\<close>

fun watch_run ::
  "(gotime \<Rightarrow> ChainConfig \<Rightarrow> sys \<Rightarrow> verdict option) \<Rightarrow> string \<Rightarrow> (gotime \<times> ChainConfig) list \<Rightarrow> sys \<Rightarrow> sys option" where
  "watch_run eval k [] s = Some s"
| "watch_run eval k ((now, cc) # obs) s =
     do { (r, cc', s') \<leftarrow> eval now cc (put_chain k cc s);
          watch_run eval k obs (put_chain k cc' s') }"

text \<open>
  What should be dispatched, and whether the alert is active at the end: given whether it is
  active now and, for each tick, whether the condition holds and whether the chain is silenced.
  A change is announced unless it falls into a maintenance window; a condition that begins in a
  window is announced at the first tick after it that still sees it.
\<close>

fun announced :: "bool \<Rightarrow> (bool \<times> bool) list \<Rightarrow> bool list" where
  "announced p [] = []"
| "announced p ((b, sil) # xs) =
     (if b = p then announced p xs else if sil then announced False xs else b # announced b xs)"

fun active_after :: "bool \<Rightarrow> (bool \<times> bool) list \<Rightarrow> bool" where
  "active_after p [] = p"
| "active_after p ((b, sil) # xs) = active_after (if b = p then p else if sil then False else b) xs"

locale threshold_alert =
  fixes eval :: "gotime \<Rightarrow> ChainConfig \<Rightarrow> sys \<Rightarrow> verdict option"
    and ready :: "ChainConfig \<Rightarrow> bool"
    and cond :: "ChainConfig \<Rightarrow> bool"
    and aid :: "string \<Rightarrow> string"
    and severity :: "ChainConfig \<Rightarrow> string"
    and message :: "ChainConfig \<Rightarrow> string"
  assumes eval_edge: "ready cc \<Longrightarrow>
    eval now cc s =
      (let k = cc_name cc; i = aid (cc_ValAddress cc)
       in if cond cc = exist (alarms s) k i then Some (finish (False, False) cc s)
          else Some (finish (cond cc, \<not> cond cc) cc
                 (alert now k (message cc) (severity cc) (\<not> cond cc) (Some i) s)))"
begin

lemma tick:
  assumes "ready cc" "alarms_ok (alarms s)" "\<not> IsZero now"
  shows "\<exists>s' out. eval now cc (put_chain (cc_name cc) cc s) = Some (finish (cond cc \<and> \<not> exist (alarms s) (cc_name cc) (aid (cc_ValAddress cc)), \<not> cond cc \<and> exist (alarms s) (cc_name cc) (aid (cc_ValAddress cc))) cc s') \<and>
    alertChan s' = alertChan s @ out \<and> alarms_ok (alarms s') \<and>
    map (\<lambda>m. (m_uniqueId m, \<not> m_resolved m)) out =
      (let p = exist (alarms s) (cc_name cc) (aid (cc_ValAddress cc))
       in if cond cc = p \<or> silenced now cc then [] else [(aid (cc_ValAddress cc), cond cc)]) \<and>
    (\<forall>c j. exist (alarms s') c j =
      (if c = cc_name cc \<and> j = aid (cc_ValAddress cc)
       then (if cond cc = exist (alarms s) c j then cond cc else if silenced now cc then False else cond cc)
       else exist (alarms s) c j))"
proof -
  let ?k = "cc_name cc" and ?i = "aid (cc_ValAddress cc)"
  let ?s = "put_chain ?k cc s"
  let ?p = "exist (alarms s) ?k ?i"
  show ?thesis
  proof (cases "cond cc = ?p")
    case True
    then show ?thesis using assms
      by (intro exI [of _ ?s] exI [of _ "[]"]) (simp add: eval_edge Let_def)
  next
    case False
    let ?s' = "alert now ?k (message cc) (severity cc) (\<not> cond cc) (Some ?i) ?s"
    have c: "chain_of ?s ?k = Some cc" "alarms_ok (alarms ?s)" using assms by simp_all
    have "alarms_ok (alarms ?s')" using assms by (intro alert_alarms_ok) (simp_all add: clock_ok_def)
    with False assms show ?thesis
      by (intro exI [of _ ?s'] exI [of _ "if silenced now cc then [] else [alert_message ?s ?k (message cc) (severity cc) (\<not> cond cc) ?i]"])
        (auto simp: eval_edge Let_def alert_alertChan [OF c(1)] exist_alert [OF c])
  qed
qed

lemma run:
  assumes "\<forall>(now, cc) \<in> set obs. cc_name cc = k \<and> cc_ValAddress cc = v \<and> ready cc \<and> \<not> IsZero now"
    and "alarms_ok (alarms s)"
  shows "\<exists>s' out. watch_run eval k obs s = Some s' \<and> alertChan s' = alertChan s @ out \<and>
    map (\<lambda>m. (m_uniqueId m, \<not> m_resolved m)) out =
      map (Pair (aid v)) (announced (exist (alarms s) k (aid v)) (map (\<lambda>(now, cc). (cond cc, silenced now cc)) obs)) \<and>
    exist (alarms s') k (aid v) =
      active_after (exist (alarms s) k (aid v)) (map (\<lambda>(now, cc). (cond cc, silenced now cc)) obs)"
  using assms
proof (induction obs arbitrary: s)
  case Nil
  then show ?case by (intro exI [of _ s] exI [of _ "[]"]) simp
next
  case (Cons o1 obs)
  obtain now cc where o1: "o1 = (now, cc)" by (cases o1)
  have cc: "cc_name cc = k" "cc_ValAddress cc = v" "ready cc" "\<not> IsZero now"
    using Cons.prems by (auto simp: o1)
  obtain r s1 out1 where t: "eval now cc (put_chain k cc s) = Some (finish r cc s1)"
      "alertChan s1 = alertChan s @ out1" "alarms_ok (alarms s1)"
      "map (\<lambda>m. (m_uniqueId m, \<not> m_resolved m)) out1 =
        (if cond cc = exist (alarms s) k (aid v) \<or> silenced now cc then [] else [(aid v, cond cc)])"
      "exist (alarms s1) k (aid v) = (if cond cc = exist (alarms s) k (aid v) then cond cc
         else if silenced now cc then False else cond cc)"
    using tick [of cc s now] Cons.prems(2) cc by (auto simp: Let_def)
  let ?s1 = "put_chain k (cc\<lparr>cc_activeAlerts := getCount (alarms s1) (cc_name cc)\<rparr>) s1"
  obtain s' out where IH: "watch_run eval k obs ?s1 = Some s'" "alertChan s' = alertChan ?s1 @ out"
      "map (\<lambda>m. (m_uniqueId m, \<not> m_resolved m)) out =
        map (Pair (aid v)) (announced (exist (alarms ?s1) k (aid v)) (map (\<lambda>(now, cc). (cond cc, silenced now cc)) obs))"
      "exist (alarms s') k (aid v) =
        active_after (exist (alarms ?s1) k (aid v)) (map (\<lambda>(now, cc). (cond cc, silenced now cc)) obs)"
    using Cons.IH [of ?s1] Cons.prems t(3) by auto
  have "watch_run eval k (o1 # obs) s = Some s'" using t(1) IH(1) by (simp add: o1 finish_def)
  then show ?case using t(2,4,5) IH(2,3,4)
    by (intro exI [of _ s'] exI [of _ "out1 @ out"]) (auto simp: o1)
qed

end

lemma raise_or_clear_edge:
  "do { (r, s') \<leftarrow> raise_or_clear now cc b i sev (Some m) s; Some (finish r cc s') } =
     (if b = exist (alarms s) (cc_name cc) i then Some (finish (False, False) cc s)
      else Some (finish (b, \<not> b) cc (alert now (cc_name cc) m sev (\<not> b) (Some i) s)))"
  by (auto simp: raise_or_clear_def)

interpretation missed_row: threshold_alert evaluateConsecutiveBlocksMissedAlert "\<lambda>cc. cc_valInfo cc \<noteq> None"
  "\<lambda>cc. intVal (ac_ConsecutiveMissed (cc_Alerts cc)) \<le> f64_to_int (cc_statConsecutiveMiss cc)"
  "\<lambda>v. ''ConsecutiveBlocksMissed_'' @ v" "\<lambda>cc. ac_ConsecutivePriority (cc_Alerts cc)"
  "\<lambda>cc. vi_Moniker (the (cc_valInfo cc)) @ '' has missed '' @ itoa (intVal (ac_ConsecutiveMissed (cc_Alerts cc))) @
        '' blocks on '' @ cc_ChainId cc"
  by unfold_locales
    (auto simp: evaluateConsecutiveBlocksMissedAlert_def moniker_def Let_def raise_or_clear_edge)

interpretation missed_share: threshold_alert evaluatePercentageBlocksMissedAlert "\<lambda>cc. cc_valInfo cc \<noteq> None"
  "\<lambda>cc. f64_le (f64_of_int (intVal (ac_Window (cc_Alerts cc))))
     (f64_div (f64_mul (Fin 100) (f64_of_int (vi_Missed (the (cc_valInfo cc))))) (f64_of_int (vi_Window (the (cc_valInfo cc)))))"
  "\<lambda>v. ''PercentageBlocksMissed_'' @ v" "\<lambda>cc. ac_PercentagePriority (cc_Alerts cc)"
  "\<lambda>cc. vi_Moniker (the (cc_valInfo cc)) @ '' has missed > '' @ itoa (intVal (ac_Window (cc_Alerts cc))) @
        ''% of the slashing window's blocks on '' @ cc_ChainId cc"
  by unfold_locales
    (auto simp add: evaluatePercentageBlocksMissedAlert_def Let_def raise_or_clear_edge)

interpretation empty_row: threshold_alert evaluateConsecutiveEmptyBlocksAlert "\<lambda>cc. cc_valInfo cc \<noteq> None"
  "\<lambda>cc. intVal (ac_ConsecutiveEmpty (cc_Alerts cc)) \<le> f64_to_int (cc_statConsecutiveEmpty cc)"
  "\<lambda>v. ''ConsecutiveEmptyBlocks_'' @ v" "\<lambda>cc. ac_ConsecutiveEmptyPriority (cc_Alerts cc)"
  "\<lambda>cc. vi_Moniker (the (cc_valInfo cc)) @ '' has proposed '' @ itoa (intVal (ac_ConsecutiveEmpty (cc_Alerts cc))) @
        '' consecutive empty blocks on '' @ cc_ChainId cc"
  by unfold_locales
    (auto simp: evaluateConsecutiveEmptyBlocksAlert_def moniker_def Let_def raise_or_clear_edge)

definition empty_percent :: "ChainConfig \<Rightarrow> f64" where
  "empty_percent cc =
     (if f64_lt (Fin 0) (cc_statTotalProps cc)
      then f64_div (f64_mul (Fin 100) (cc_statTotalPropsEmpty cc)) (cc_statTotalProps cc) else Fin 0)"

interpretation empty_share: threshold_alert evaluatePercentageEmptyBlocksAlert "\<lambda>cc. cc_valInfo cc \<noteq> None"
  "\<lambda>cc. f64_le (f64_of_int (intVal (ac_EmptyWindow (cc_Alerts cc)))) (empty_percent cc)"
  "\<lambda>v. ''PercentageEmptyBlocks_'' @ v" "\<lambda>cc. ac_EmptyPercentagePriority (cc_Alerts cc)"
  "\<lambda>cc. vi_Moniker (the (cc_valInfo cc)) @ '' has > '' @ itoa (intVal (ac_EmptyWindow (cc_Alerts cc))) @
        ''% empty blocks ('' @ itoa (f64_to_int (cc_statTotalPropsEmpty cc)) @ '' of '' @
        itoa (f64_to_int (cc_statTotalProps cc)) @ '' proposed blocks) on '' @ cc_ChainId cc"
  by unfold_locales
    (auto simp: evaluatePercentageEmptyBlocksAlert_def moniker_def empty_percent_def [symmetric] Let_def
      raise_or_clear_edge)

section \<open>Missed and empty blocks\<close>

text \<open>The exact meaning of the two percentages for counters below \<open>2^40\<close>.\<close>

lemma missed_share_exact:
  assumes "0 \<le> n" "n \<le> w" "0 < w" "w < 2 ^ 40" "0 \<le> p" "p \<le> 1000"
  shows "f64_le (f64_of_int p) (f64_div (f64_mul (Fin 100) (f64_of_int n)) (f64_of_int w)) \<longleftrightarrow> p * w \<le> 100 * n"
proof -
  have "p * w \<le> 1000 * w" using assms by (intro mult_right_mono) simp_all
  also have "\<dots> < 2 ^ 53" using assms by simp
  finally have "p * w < 2 ^ 53" .
  moreover have "f64_mul (Fin 100) (f64_of_int n) = f64_of_int (100 * n)"
    using f64_mul_int [of 100 n] assms by (simp add: f64_of_int_small)
  ultimately show ?thesis
    using f64_ratio_ge [of "100 * n" w p] assms by simp
qed

lemma empty_share_exact:
  assumes "cc_statTotalProps cc = f64_of_int n" "cc_statTotalPropsEmpty cc = f64_of_int e"
    "0 \<le> e" "e \<le> n" "n < 2 ^ 40" "0 < p" "p \<le> 1000"
  shows "f64_le (f64_of_int p) (empty_percent cc) \<longleftrightarrow> 0 < n \<and> p * n \<le> 100 * e"
proof (cases "n = 0")
  case True
  then show ?thesis using assms by (simp add: empty_percent_def f64_of_int_small)
next
  case False
  then show ?thesis using missed_share_exact [of e n p] assms
    by (simp add: empty_percent_def f64_of_int_small)
qed

text \<open>
  The consecutive-missed alert is an edge detector. Over any run of the two-second loop the
  evaluator never panics, and the messages it dispatches are exactly one firing message at each
  tick where the count of consecutive missed blocks is at or above the threshold and the alert is
  not active, and one resolved message at each tick where it is below and the alert is active;
  changes inside a maintenance window are not announced, but a condition that outlasts the window
  is announced at the first tick after it. The alert is active after the run accordingly.
\<close>

lemma evaluateConsecutiveBlocksMissedAlert_run:
  assumes "\<forall>(now, cc) \<in> set obs. cc_name cc = k \<and> cc_ValAddress cc = v \<and> cc_valInfo cc \<noteq> None \<and> \<not> IsZero now"
    and "alarms_ok (alarms s)"
  shows "let i = ''ConsecutiveBlocksMissed_'' @ v;
      seen = map (\<lambda>(now, cc). (intVal (ac_ConsecutiveMissed (cc_Alerts cc)) \<le> f64_to_int (cc_statConsecutiveMiss cc),
               silenced now cc)) obs
    in \<exists>s' out. watch_run evaluateConsecutiveBlocksMissedAlert k obs s = Some s' \<and>
      alertChan s' = alertChan s @ out \<and>
      map (\<lambda>m. (m_uniqueId m, \<not> m_resolved m)) out = map (Pair i) (announced (exist (alarms s) k i) seen) \<and>
      exist (alarms s') k i = active_after (exist (alarms s) k i) seen"
  unfolding Let_def by (rule missed_row.run [OF assms])

text \<open>
  The slashing-window alert compares exactly. For windows below \<open>2^40\<close> blocks and thresholds
  up to 1000 percent, the floating-point comparison of the code never misjudges the share: over
  any run of the loop the alert is raised and resolved precisely on the changes of
  \<open>threshold * window \<le> 100 * missed\<close> in integers, windows of maintenance excepted as above.
\<close>

lemma evaluatePercentageBlocksMissedAlert_run:
  assumes "\<forall>(now, cc) \<in> set obs. cc_name cc = k \<and> cc_ValAddress cc = v \<and> \<not> IsZero now \<and>
      ac_Window (cc_Alerts cc) = Some threshold \<and>
      (\<exists>vi. cc_valInfo cc = Some vi \<and> 0 \<le> vi_Missed vi \<and> vi_Missed vi \<le> vi_Window vi \<and> 0 < vi_Window vi \<and> vi_Window vi < 2 ^ 40)"
    and "0 \<le> threshold" "threshold \<le> 1000" and "alarms_ok (alarms s)"
  shows "let i = ''PercentageBlocksMissed_'' @ v;
      seen = map (\<lambda>(now, cc). (threshold * vi_Window (the (cc_valInfo cc)) \<le> 100 * vi_Missed (the (cc_valInfo cc)),
               silenced now cc)) obs
    in \<exists>s' out. watch_run evaluatePercentageBlocksMissedAlert k obs s = Some s' \<and>
      alertChan s' = alertChan s @ out \<and>
      map (\<lambda>m. (m_uniqueId m, \<not> m_resolved m)) out = map (Pair i) (announced (exist (alarms s) k i) seen) \<and>
      exist (alarms s') k i = active_after (exist (alarms s) k i) seen"
proof -
  have seen: "map (\<lambda>(now, cc). (f64_le (f64_of_int (intVal (ac_Window (cc_Alerts cc))))
      (f64_div (f64_mul (Fin 100) (f64_of_int (vi_Missed (the (cc_valInfo cc))))) (f64_of_int (vi_Window (the (cc_valInfo cc))))),
      silenced now cc)) obs =
    map (\<lambda>(now, cc). (threshold * vi_Window (the (cc_valInfo cc)) \<le> 100 * vi_Missed (the (cc_valInfo cc)),
      silenced now cc)) obs"
    using assms(1-3) by (auto simp: missed_share_exact)
  have "\<forall>(now, cc) \<in> set obs. cc_name cc = k \<and> cc_ValAddress cc = v \<and> cc_valInfo cc \<noteq> None \<and> \<not> IsZero now"
    using assms(1) by auto
  from missed_share.run [OF this assms(4)] show ?thesis
    unfolding Let_def seen .
qed

text \<open>
  The empty-block alert compares exactly too. For fewer than \<open>2^40\<close> proposals and thresholds
  of 1 to 1000 percent it is raised and resolved precisely on the changes of
  \<open>threshold * proposals \<le> 100 * empty\<close> in integers, and a validator that has not proposed
  anything never has the alert.
\<close>

lemma evaluatePercentageEmptyBlocksAlert_run:
  assumes "\<forall>(now, cc) \<in> set obs. cc_name cc = k \<and> cc_ValAddress cc = v \<and> \<not> IsZero now \<and> cc_valInfo cc \<noteq> None \<and>
      ac_EmptyWindow (cc_Alerts cc) = Some threshold \<and>
      cc_statTotalProps cc = f64_of_int (proposed cc) \<and> cc_statTotalPropsEmpty cc = f64_of_int (empties cc) \<and>
      0 \<le> empties cc \<and> empties cc \<le> proposed cc \<and> proposed cc < 2 ^ 40"
    and "0 < threshold" "threshold \<le> 1000" and "alarms_ok (alarms s)"
  shows "let i = ''PercentageEmptyBlocks_'' @ v;
      seen = map (\<lambda>(now, cc). (0 < proposed cc \<and> threshold * proposed cc \<le> 100 * empties cc, silenced now cc)) obs
    in \<exists>s' out. watch_run evaluatePercentageEmptyBlocksAlert k obs s = Some s' \<and>
      alertChan s' = alertChan s @ out \<and>
      map (\<lambda>m. (m_uniqueId m, \<not> m_resolved m)) out = map (Pair i) (announced (exist (alarms s) k i) seen) \<and>
      exist (alarms s') k i = active_after (exist (alarms s) k i) seen"
proof -
  have seen: "map (\<lambda>(now, cc). (f64_le (f64_of_int (intVal (ac_EmptyWindow (cc_Alerts cc)))) (empty_percent cc),
      silenced now cc)) obs =
    map (\<lambda>(now, cc). (0 < proposed cc \<and> threshold * proposed cc \<le> 100 * empties cc, silenced now cc)) obs"
    using assms(1-3) by (intro map_cong) (auto simp: empty_share_exact)
  have "\<forall>(now, cc) \<in> set obs. cc_name cc = k \<and> cc_ValAddress cc = v \<and> cc_valInfo cc \<noteq> None \<and> \<not> IsZero now"
    using assms(1) by auto
  from empty_share.run [OF this assms(4)] show ?thesis
    unfolding Let_def seen .
qed

section \<open>Dead endpoints\<close>

fun norpc_run :: "string \<Rightarrow> (gotime \<times> ChainConfig) list \<Rightarrow> int \<Rightarrow> sys \<Rightarrow> int \<times> sys" where
  "norpc_run k [] sec s = (sec, s)"
| "norpc_run k ((now, cc) # obs) sec s =
     (case evaluateNoRPCEndpointsAlert now cc sec (put_chain k cc s) of
        (sec', r, cc', s') \<Rightarrow> norpc_run k obs sec' (put_chain k cc' s'))"

lemma norpc_run_snoc:
  "norpc_run k (obs @ [(now, cc)]) sec s =
     (case norpc_run k obs sec s of (sec', s') \<Rightarrow>
        (case evaluateNoRPCEndpointsAlert now cc sec' (put_chain k cc s') of
           (sec'', r, cc', s'') \<Rightarrow> (sec'', put_chain k cc' s'')))"
  by (induction k obs sec s rule: norpc_run.induct) (auto split: prod.splits)

lemma NodeDownMin_put_chain [simp]: "cfg_NodeDownMin (td (put_chain k cc s)) = cfg_NodeDownMin (td s)"
  by (simp add: put_chain_def)

text \<open>
  The grace period for dead endpoints is exact. While no endpoint works, nothing is dispatched
  for the first \<open>30 * node_down_minutes\<close> ticks of two seconds; the next tick dispatches one firing
  message and no further tick another one; the first tick that sees a working endpoint resets
  the counter and dispatches one resolution, if and only if the alert was raised.
\<close>

lemma evaluateNoRPCEndpointsAlert_grace:
  assumes "\<forall>(now, cc) \<in> set obs. cc_name cc = k \<and> cc_ValAddress cc = v \<and> \<not> IsZero now \<and>
      \<not> silenced now cc \<and> (cc_noNodes cc \<or> cc_noWsNodes cc)"
    and "cfg_NodeDownMin (td s) = mins" "0 \<le> mins" "mins < 2 ^ 50" "length obs < 2 ^ 50"
    and "alarms_ok (alarms s)" "\<not> exist (alarms s) k (''NoRPCEndpoints_'' @ v)"
    and "cc_name up = k \<and> cc_ValAddress up = v \<and> \<not> IsZero t \<and> \<not> silenced t up \<and> \<not> cc_noNodes up \<and> \<not> cc_noWsNodes up"
  shows "let i = ''NoRPCEndpoints_'' @ v; raised = (30 * mins < int (length obs));
      (sec, s1) = norpc_run k obs 0 s; (sec2, s2) = norpc_run k [(t, up)] sec s1
    in (\<exists>out1. alertChan s1 = alertChan s @ out1 \<and>
          map (\<lambda>m. (m_uniqueId m, m_resolved m)) out1 = (if raised then [(i, False)] else [])) \<and>
       (\<exists>out2. alertChan s2 = alertChan s1 @ out2 \<and>
          map (\<lambda>m. (m_uniqueId m, m_resolved m)) out2 = (if raised then [(i, True)] else [])) \<and>
       sec2 = 0"
proof -
  let ?i = "''NoRPCEndpoints_'' @ v"
  have down: "\<exists>s1 out1. norpc_run k obs 0 s = (2 * int (length obs), s1) \<and> alarms_ok (alarms s1) \<and>
      cfg_NodeDownMin (td s1) = mins \<and> exist (alarms s1) k ?i = (30 * mins < int (length obs)) \<and>
      alertChan s1 = alertChan s @ out1 \<and>
      map (\<lambda>m. (m_uniqueId m, m_resolved m)) out1 = (if 30 * mins < int (length obs) then [(?i, False)] else [])"
    using assms(1,5)
  proof (induction obs rule: rev_induct)
    case Nil
    then show ?case using assms(2-7) by (intro exI [of _ s] exI [of _ "[]"]) simp
  next
    case (snoc o1 obs)
    obtain now cc where o1: "o1 = (now, cc)" by (cases o1)
    obtain s1 out1 where IH: "norpc_run k obs 0 s = (2 * int (length obs), s1)" "alarms_ok (alarms s1)"
        "cfg_NodeDownMin (td s1) = mins" "exist (alarms s1) k ?i = (30 * mins < int (length obs))"
        "alertChan s1 = alertChan s @ out1"
        "map (\<lambda>m. (m_uniqueId m, m_resolved m)) out1 = (if 30 * mins < int (length obs) then [(?i, False)] else [])"
      using snoc by auto
    let ?n = "int (length obs)" and ?s = "put_chain k cc s1"
    let ?text = "''no RPC endpoints are working for '' @ cc_ChainId cc"
    have cc: "cc_name cc = k" "cc_ValAddress cc = v" "\<not> silenced now cc" "cc_noNodes cc \<or> cc_noWsNodes cc"
        "\<not> IsZero now"
      using snoc.prems by (auto simp: o1)
    have n: "int (length obs) < 2 ^ 50" using snoc.prems by simp
    have w: "wrap64 (2 * ?n + 2) = 2 * ?n + 2" "wrap64 (60 * mins) = 60 * mins"
      using n assms(3,4) by (simp_all add: wrap64_id int64_def)
    have c: "chain_of ?s k = Some cc" "alarms_ok (alarms ?s)" using IH by simp_all
    let ?r = "if 30 * mins \<le> ?n \<and> \<not> exist (alarms s1) k ?i then alert now k ?text ''critical'' False (Some ?i) ?s else ?s"
    have step: "norpc_run k (obs @ [o1]) 0 s = (2 * (?n + 1),
        put_chain k (cc\<lparr>cc_activeAlerts := getCount (alarms ?r) k\<rparr>) ?r)"
      using cc IH(1,3) by (auto simp: o1 norpc_run_snoc evaluateNoRPCEndpointsAlert_def finish_def w Let_def)
    show ?case
    proof (cases "30 * mins \<le> ?n \<and> \<not> exist (alarms s1) k ?i")
      case True
      then have "?n = 30 * mins" using IH(4) by simp
      with True show ?thesis using IH cc
        by (simp add: step alert_alertChan [OF c(1)] exist_alert [OF c] alert_alarms_ok clock_ok_def c)
    next
      case False
      then show ?thesis using IH by (auto simp: step)
    qed
  qed
  then obtain s1 out1 where s1: "norpc_run k obs 0 s = (2 * int (length obs), s1)" "alarms_ok (alarms s1)"
      "exist (alarms s1) k ?i = (30 * mins < int (length obs))" "alertChan s1 = alertChan s @ out1"
      "map (\<lambda>m. (m_uniqueId m, m_resolved m)) out1 = (if 30 * mins < int (length obs) then [(?i, False)] else [])"
    by auto
  have "chain_of (put_chain k up s1) k = Some up" by simp
  with s1 assms(8) show ?thesis
    by (simp add: evaluateNoRPCEndpointsAlert_def finish_def Let_def alert_alertChan)
qed

section \<open>A stalled chain\<close>

fun stall_run :: "string \<Rightarrow> gotime list \<Rightarrow> sys \<Rightarrow> sys" where
  "stall_run k [] s = s"
| "stall_run k (now # ts) s =
     (case chain_of s k of
        None \<Rightarrow> s
      | Some cc \<Rightarrow>
          (case evaluateChainStalledAlert now cc s of
             (r, cc', s') \<Rightarrow> stall_run k ts (put_chain k cc' s')))"

lemma wrap64_neg: "0 \<le> m \<Longrightarrow> m < 2 ^ 63 \<Longrightarrow> wrap64 (- m) = - m"
  by (simp add: wrap64_id int64_def)

lemma stall_limit:
  "0 \<le> m \<Longrightarrow> m \<le> 10 ^ 8 \<Longrightarrow> now + dur_mul (wrap64 (- m)) Minute = now - m * Minute"
  by (subst wrap64_neg) (simp_all add: minutes_exact)

lemma stalled_quiet:
  assumes "cc_lastBlockAlarm cc" "\<not> IsZero (cc_lastBlockTime cc)" "chain_of s k = Some cc"
    "\<forall>t \<in> set ts. cc_lastBlockTime cc < t + dur_mul (wrap64 (- intVal (ac_Stalled (cc_Alerts cc)))) Minute"
  shows "alertChan (stall_run k ts s) = alertChan s"
  using assms
proof (induction ts arbitrary: s cc)
  case (Cons t ts)
  have "evaluateChainStalledAlert t cc s = finish (False, False) cc s"
    using Cons.prems by (simp add: evaluateChainStalledAlert_def Let_def)
  moreover have "alertChan (stall_run k ts (put_chain k (cc\<lparr>cc_activeAlerts := getCount (alarms s) (cc_name cc)\<rparr>) s)) =
      alertChan (put_chain k (cc\<lparr>cc_activeAlerts := getCount (alarms s) (cc_name cc)\<rparr>) s)"
    using Cons.prems by (intro Cons.IH [of "cc\<lparr>cc_activeAlerts := getCount (alarms s) (cc_name cc)\<rparr>"]) simp_all
  ultimately show ?case using Cons.prems by (simp add: finish_def)
qed simp

text \<open>
  C21: A stall is announced when it is first seen, or never. Once the last block is older than the
  configured minutes, the first tick dispatches one firing message unless the chain is in a
  maintenance window; every later tick dispatches nothing while no block arrives, in particular
  also after the window has ended, because the evaluator remembers the stall in
  \<^verbatim>\<open>lastBlockAlarm\<close> and not in the alarm cache. The alarm cache does not have the alarm then.
\<close>

theorem evaluateChainStalledAlert_once_or_never:
  assumes "chain_of s k = Some cc" "cc_name cc = k" "\<not> cc_lastBlockAlarm cc" "\<not> IsZero (cc_lastBlockTime cc)"
    and "0 \<le> intVal (ac_Stalled (cc_Alerts cc))" "intVal (ac_Stalled (cc_Alerts cc)) \<le> 10 ^ 8"
    and "\<forall>t \<in> set (t1 # ts). cc_lastBlockTime cc + intVal (ac_Stalled (cc_Alerts cc)) * Minute < t"
    and "alarms_ok (alarms s)" "\<not> IsZero t1" "\<not> exist (alarms s) k (''ChainStalled_'' @ cc_ValAddress cc)"
  shows "(\<exists>out. alertChan (stall_run k (t1 # ts) s) = alertChan s @ out \<and>
      map (\<lambda>m. (m_uniqueId m, m_resolved m)) out =
        (if silenced t1 cc then [] else [(''ChainStalled_'' @ cc_ValAddress cc, False)])) \<and>
    exist (alarms (stall_run k [t1] s)) k (''ChainStalled_'' @ cc_ValAddress cc) = (\<not> silenced t1 cc)"
proof -
  let ?i = "''ChainStalled_'' @ cc_ValAddress cc"
  let ?text = "''stalled: have not seen a new block on '' @ cc_ChainId cc @ '' in '' @
                  itoa (intVal (ac_Stalled (cc_Alerts cc))) @ '' minutes''"
  let ?s1 = "alert t1 k ?text ''critical'' False (Some ?i) s"
  let ?cc1 = "cc\<lparr>cc_lastBlockAlarm := True, cc_activeAlerts := getCount (alarms ?s1) k\<rparr>"
  have first: "evaluateChainStalledAlert t1 cc s = ((True, False), ?cc1, ?s1)"
    using assms by (simp add: evaluateChainStalledAlert_def finish_def stall_limit Let_def)
  have "alertChan (stall_run k ts (put_chain k ?cc1 ?s1)) = alertChan (put_chain k ?cc1 ?s1)"
    using assms(4-7) by (intro stalled_quiet [of ?cc1]) (auto simp: stall_limit)
  then have "alertChan (stall_run k (t1 # ts) s) = alertChan ?s1"
    using assms(1) first by (simp only: stall_run.simps option.case prod.case put_chain_frame)
  also have "\<dots> = alertChan s @ (if silenced t1 cc then [] else [alert_message s k ?text ''critical'' False ?i])"
    by (rule alert_alertChan [OF assms(1)])
  finally have "alertChan (stall_run k (t1 # ts) s) = \<dots>" .
  moreover have "alarms (stall_run k [t1] s) = alarms ?s1"
    using assms(1) first by (simp only: stall_run.simps option.case prod.case put_chain_frame)
  moreover have "exist (alarms ?s1) k ?i = (\<not> silenced t1 cc)"
    using assms(10) by (subst exist_alert [OF assms(1,8)]) simp
  ultimately show ?thesis
    using alert_message_simps(1,4) [OF assms(1), of ?text "''critical''" False ?i]
    by (cases "silenced t1 cc") (auto simp del: stall_run.simps append_Cons)
qed

text \<open>The only stall alarm of a chain is its own.\<close>

definition stall_alarms_own :: "alarmCache \<Rightarrow> string \<Rightarrow> string \<Rightarrow> bool" where
  "stall_alarms_own a k v \<longleftrightarrow> (\<forall>i. exist a k i \<and> HasPrefix i ''ChainStalled'' \<longrightarrow> i = ''ChainStalled_'' @ v)"

lemma clearNoBlocks_at_other:
  "\<forall>i \<in> set ks. HasPrefix i ''ChainStalled'' \<longrightarrow> \<not> exist (alarms s) (cc_name cc) i \<Longrightarrow> clearNoBlocks_at now cc ks s = s"
  by (induction now cc ks s rule: clearNoBlocks_at.induct) auto

lemma clearNoBlocks_own:
  assumes "chain_of s k = Some cc" "cc_name cc = k" "alarms_ok (alarms s)" "stall_alarms_own (alarms s) k (cc_ValAddress cc)"
    "i = ''ChainStalled_'' @ cc_ValAddress cc"
  shows "clearNoBlocks now cc s =
    (if exist (alarms s) k i
     then alert now k (''stalled: have not seen a new block on '' @ cc_ChainId cc @ '' in '' @
            itoa (intVal (ac_Stalled (cc_Alerts cc))) @ '' minutes'') ''critical'' True (Some i) s
     else s)"
proof -
  let ?a = "alert now k (''stalled: have not seen a new block on '' @ cc_ChainId cc @ '' in '' @
            itoa (intVal (ac_Stalled (cc_Alerts cc))) @ '' minutes'') ''critical'' True (Some i)"
  have own: "HasPrefix j ''ChainStalled'' \<Longrightarrow> exist (alarms s) k j \<Longrightarrow> j = i" for j
    using assms(4,5) by (auto simp: stall_alarms_own_def)
  have pre: "HasPrefix i ''ChainStalled''" by (simp add: assms(5) HasPrefix_def)
  have at: "clearNoBlocks_at now cc ks s = (if i \<in> set ks \<and> exist (alarms s) k i then ?a s else s)" for ks
  proof (induction ks)
    case (Cons j ks)
    show ?case
    proof (cases "HasPrefix j ''ChainStalled'' \<and> exist (alarms s) k j")
      case True
      with own have j: "j = i" by blast
      have "clearNoBlocks_at now cc ks (?a s) = ?a s"
        using own by (intro clearNoBlocks_at_other) (auto simp: assms(2) exist_alert [OF assms(1,3)])
      with True j show ?thesis by (simp add: assms(2,5))
    next
      case False
      with Cons pre show ?thesis by (auto simp: assms(2))
    qed
  qed simp
  show ?thesis
    by (auto simp: clearNoBlocks_def at assms(2) exist_def gm2_get_def gm.keys_get split: option.splits)
qed

text \<open>
  A block ends a stall. When a block younger than the configured minutes has been seen, the
  evaluator resolves the stall alarm of the chain: one resolution is dispatched exactly if the
  alarm is active, the alarm is gone from the cache, and the next stall will be seen as a new one.
\<close>

lemma evaluateChainStalledAlert_recovers:
  assumes "chain_of s k = Some cc" "cc_name cc = k" "\<not> IsZero (cc_lastBlockTime cc)" "\<not> silenced now cc"
    and "0 \<le> intVal (ac_Stalled (cc_Alerts cc))" "intVal (ac_Stalled (cc_Alerts cc)) \<le> 10 ^ 8"
    and "now \<le> cc_lastBlockTime cc + intVal (ac_Stalled (cc_Alerts cc)) * Minute"
    and "alarms_ok (alarms s)" "stall_alarms_own (alarms s) k (cc_ValAddress cc)" "\<not> IsZero now"
  shows "let i = ''ChainStalled_'' @ cc_ValAddress cc; (r, cc', s') = evaluateChainStalledAlert now cc s
    in \<not> exist (alarms s') k i \<and> \<not> cc_lastBlockAlarm cc' \<and>
       cc_activeAlerts cc' = int (card (activeAlarms (alarms s) k - {i})) \<and>
       (\<exists>out. alertChan s' = alertChan s @ out \<and>
          map (\<lambda>m. (m_uniqueId m, m_resolved m)) out = (if exist (alarms s) k i then [(i, True)] else []))"
proof -
  define i where "i = ''ChainStalled_'' @ cc_ValAddress cc"
  define msg where "msg = ''stalled: have not seen a new block on '' @ cc_ChainId cc @ '' in '' @
            itoa (intVal (ac_Stalled (cc_Alerts cc))) @ '' minutes''"
  let ?s' = "clearNoBlocks now cc s"
  have s': "?s' = (if exist (alarms s) k i then alert now k msg ''critical'' True (Some i) s else s)"
    unfolding msg_def using assms by (intro clearNoBlocks_own) (simp_all only: i_def)
  have e: "evaluateChainStalledAlert now cc s =
      ((False, True), cc\<lparr>cc_lastBlockAlarm := False, cc_activeAlerts := getCount (alarms ?s') k\<rparr>, ?s')"
    using assms by (simp add: evaluateChainStalledAlert_def finish_def stall_limit Let_def)
  have ex: "exist (alarms ?s') k j \<longleftrightarrow> exist (alarms s) k j \<and> j \<noteq> i" for j
    by (auto simp: s' exist_alert [OF assms(1,8)])
  moreover have "alarms_ok (alarms ?s')"
    using assms(8) alert_alarms_ok [OF assms(8)] assms(10) by (simp add: s' clock_ok_def)
  ultimately have count: "getCount (alarms ?s') k = int (card (activeAlarms (alarms s) k - {i}))"
    by (simp add: getCount_active activeAlarms_def set_diff_eq)
  have out: "\<exists>out. alertChan ?s' = alertChan s @ out \<and>
      map (\<lambda>m. (m_uniqueId m, m_resolved m)) out = (if exist (alarms s) k i then [(i, True)] else [])"
    using assms(4) by (simp add: s' alert_alertChan [OF assms(1)] alert_message_simps [OF assms(1)])
  show ?thesis
    unfolding i_def [symmetric] Let_def e prod.case using ex [of i] count out by simp
qed

section \<open>An inactive validator\<close>

text \<open>
  Leaving and joining the active set. With the same moniker in the previous and the current
  validator data, the evaluator dispatches a firing message exactly when the validator was bonded
  and is not any more, naming the tombstone if there is one, a resolution exactly when it was not
  bonded and now is, and nothing otherwise; the verdict says the same.
\<close>

lemma evaluateValidatorInactiveAlert_transitions:
  assumes "chain_of s k = Some cc" "cc_name cc = k" "\<not> silenced now cc"
    and "cc_lastValInfo cc = Some old" "cc_valInfo cc = Some vi" "vi_Moniker old = vi_Moniker vi"
  shows "\<exists>cc' s' out. evaluateValidatorInactiveAlert now cc s =
      Some ((vi_Bonded old \<and> \<not> vi_Bonded vi, \<not> vi_Bonded old \<and> vi_Bonded vi), cc', s') \<and>
    alertChan s' = alertChan s @ out \<and>
    map (\<lambda>m. (m_uniqueId m, m_resolved m, m_message m)) out =
      (if vi_Bonded old = vi_Bonded vi then []
       else [(''ValidatorInactive_'' @ cc_ValAddress cc, vi_Bonded vi,
              vi_Moniker vi @ '' is no longer active: validator '' @ cc_ValAddress cc @ '' is '' @
              (if vi_Tombstoned vi \<and> \<not> vi_Bonded vi then tombstoned_text else ''jailed'') @
              '' for chainid '' @ cc_ChainId cc)])"
  using assms(2-)
  by (auto simp: evaluateValidatorInactiveAlert_def finish_def Let_def alert_alertChan [OF assms(1)]
      alert_message_simps [OF assms(1)])

text \<open>
  The evaluator does not ask whether the alert is active: it dispatches the same message on
  every tick until the validator data are refreshed. What is left of them after the gate:
\<close>

fun inactive_run :: "string \<Rightarrow> gotime list \<Rightarrow> sys \<Rightarrow> sys" where
  "inactive_run k [] s = s"
| "inactive_run k (now # ts) s =
     (case chain_of s k of
        None \<Rightarrow> s
      | Some cc \<Rightarrow>
          (case evaluateValidatorInactiveAlert now cc s of
             None \<Rightarrow> s
           | Some (r, cc', s') \<Rightarrow> inactive_run k ts (put_chain k cc' s')))"

lemma inactive_run_repeats:
  assumes "chain_of s k = Some cc" "cc_name cc = k" "\<forall>t \<in> set ts. \<not> silenced t cc"
    and "cc_lastValInfo cc = Some old" "cc_valInfo cc = Some vi" "vi_Moniker old = vi_Moniker vi"
      "vi_Bonded old" "\<not> vi_Bonded vi"
  shows "\<exists>out. alertChan (inactive_run k ts s) = alertChan s @ out \<and> length out = length ts \<and>
    (\<forall>m \<in> set out. m_uniqueId m = ''ValidatorInactive_'' @ cc_ValAddress cc \<and> \<not> m_resolved m)"
  using assms
proof (induction ts arbitrary: s cc)
  case (Cons t ts)
  obtain cc' s' out where e: "evaluateValidatorInactiveAlert t cc s = Some ((True, False), cc', s')"
      "alertChan s' = alertChan s @ out"
      "map (\<lambda>m. (m_uniqueId m, m_resolved m)) out = [(''ValidatorInactive_'' @ cc_ValAddress cc, False)]"
      "cc' = cc\<lparr>cc_activeAlerts := cc_activeAlerts cc'\<rparr>"
    using Cons.prems
    by (auto simp: evaluateValidatorInactiveAlert_def finish_def Let_def alert_alertChan alert_message_simps)
  have "chain_of (put_chain k cc' s') k = Some cc'" by simp
  moreover have "cc_name cc' = k" "cc_lastValInfo cc' = Some old" "cc_valInfo cc' = Some vi"
      "cc_ValAddress cc' = cc_ValAddress cc" "silenceStatus u cc' = silenceStatus u cc" for u
    using Cons.prems by (subst e(4), simp add: silenceStatus_def)+
  ultimately obtain out' where "alertChan (inactive_run k ts (put_chain k cc' s')) = alertChan s' @ out'"
      "length out' = length ts" "\<forall>m \<in> set out'. m_uniqueId m = ''ValidatorInactive_'' @ cc_ValAddress cc \<and> \<not> m_resolved m"
    using Cons.IH [of "put_chain k cc' s'" cc'] Cons.prems by auto
  then show ?case using e Cons.prems(1) by (intro exI [of _ "out @ out'"]) (auto simp: map_eq_Cons_conv)
qed simp

section \<open>The theorems on a concrete installation\<close>

lemma not_silenced_0 [simp]: "cc_silencedUntil cc = 0 \<Longrightarrow> \<not> silenced t cc"
  by (simp add: silenced_iff)

definition missing :: "int \<Rightarrow> ChainConfig" where
  "missing n = sample_chain\<lparr>cc_statConsecutiveMiss := f64_of_int n,
     cc_statTotalProps := f64_of_int 10, cc_statTotalPropsEmpty := f64_of_int n,
     cc_Alerts := sample_alerts\<lparr>ac_EmptyWindow := Some 40\<rparr>,
     cc_valInfo := Some (sample_valinfo\<lparr>vi_Missed := 250 * n\<rparr>)\<rparr>"

lemma missing_simps [simp]:
  "cc_name (missing n) = ''net''" "cc_ValAddress (missing n) = ''netvaloper1xyz''" "cc_silencedUntil (missing n) = 0"
  "cc_statConsecutiveMiss (missing n) = f64_of_int n" "cc_statTotalProps (missing n) = f64_of_int 10"
  "cc_statTotalPropsEmpty (missing n) = f64_of_int n" "cc_valInfo (missing n) = Some (sample_valinfo\<lparr>vi_Missed := 250 * n\<rparr>)"
  "ac_EmptyWindow (cc_Alerts (missing n)) = Some 40" "ac_ConsecutiveMissed (cc_Alerts (missing n)) = Some 5"
  "ac_Window (cc_Alerts (missing n)) = Some 10"
  by (simp_all add: missing_def sample_chain_def sample_alerts_def)

lemma evaluateConsecutiveBlocksMissedAlert_run_witness:
  "\<exists>s' out. watch_run evaluateConsecutiveBlocksMissedAlert ''net'' [(noon, missing 5), (noon, missing 6), (noon, missing 0)]
      (sample_sys sample_chain no_alarms) = Some s' \<and> alertChan s' = out \<and> map m_resolved out = [False, True]"
proof -
  let ?obs = "[(noon, missing 5), (noon, missing 6), (noon, missing 0)]" and ?s = "sample_sys sample_chain no_alarms"
  show ?thesis
    using evaluateConsecutiveBlocksMissedAlert_run [of ?obs "''net''" "''netvaloper1xyz''" ?s]
    by (auto simp: Let_def f64_to_of_int simp del: watch_run.simps)
qed

lemma evaluatePercentageBlocksMissedAlert_run_witness:
  "\<exists>s' out. watch_run evaluatePercentageBlocksMissedAlert ''net'' [(noon, missing 4), (noon, missing 3)]
      (sample_sys sample_chain no_alarms) = Some s' \<and> alertChan s' = out \<and> map m_resolved out = [False, True]"
proof -
  let ?obs = "[(noon, missing 4), (noon, missing 3)]" and ?s = "sample_sys sample_chain no_alarms"
  show ?thesis
    using evaluatePercentageBlocksMissedAlert_run [of ?obs "''net''" "''netvaloper1xyz''" 10 ?s]
    by (auto simp: Let_def sample_valinfo_def simp del: watch_run.simps)
qed

lemma evaluatePercentageEmptyBlocksAlert_run_witness:
  "\<exists>s' out. watch_run evaluatePercentageEmptyBlocksAlert ''net'' [(noon, missing 4), (noon, missing 3)]
      (sample_sys sample_chain no_alarms) = Some s' \<and> alertChan s' = out \<and> map m_resolved out = [False, True]"
proof -
  let ?obs = "[(noon, missing 4), (noon, missing 3)]" and ?s = "sample_sys sample_chain no_alarms"
  let ?e = "\<lambda>cc. vi_Missed (the (cc_valInfo cc)) div 250"
  show ?thesis
    using evaluatePercentageEmptyBlocksAlert_run [of ?obs "''net''" "''netvaloper1xyz''" 40 "\<lambda>_. 10" ?e ?s]
    by (auto simp: Let_def simp del: watch_run.simps)
qed

lemma evaluateNoRPCEndpointsAlert_grace_witness:
  "let down = sample_chain\<lparr>cc_noNodes := True\<rparr>; s = sample_sys sample_chain no_alarms;
     (sec, s1) = norpc_run ''net'' (replicate 91 (noon, down)) 0 s
   in map m_resolved (alertChan s1) = [False]"
proof -
  let ?down = "sample_chain\<lparr>cc_noNodes := True\<rparr>" and ?s = "sample_sys sample_chain no_alarms"
  let ?obs = "replicate 91 (noon, ?down)"
  have fields: "cc_name sample_chain = ''net''" "cc_silencedUntil sample_chain = 0" "\<not> cc_noNodes sample_chain"
      "\<not> cc_noWsNodes sample_chain" "cfg_NodeDownMin (td ?s) = 3"
    by (simp_all add: sample_chain_def sample_sys_def sample_config_def)
  obtain sec s1 where run: "norpc_run ''net'' ?obs 0 ?s = (sec, s1)" by (cases "norpc_run ''net'' ?obs 0 ?s")
  have "\<exists>out1. alertChan s1 = alertChan ?s @ out1 \<and>
      map (\<lambda>m. (m_uniqueId m, m_resolved m)) out1 = [(''NoRPCEndpoints_'' @ cc_ValAddress sample_chain, False)]"
    using evaluateNoRPCEndpointsAlert_grace [of ?obs "''net''" "cc_ValAddress sample_chain" ?s 3 sample_chain noon]
    by (simp add: fields run Let_def del: norpc_run.simps split: prod.splits)
  then have "map m_resolved (alertChan s1) = [False]" by (auto simp: map_eq_Cons_conv)
  then show ?thesis by (simp only: Let_def run prod.case)
qed

definition stalled_sample :: ChainConfig where
  "stalled_sample = sample_chain\<lparr>cc_lastBlockTime := noon\<rparr>"

lemma stalled_sample_simps [simp]:
  "cc_name stalled_sample = ''net''" "cc_silencedUntil stalled_sample = 0" "\<not> cc_lastBlockAlarm stalled_sample"
  "cc_lastBlockTime stalled_sample = noon" "intVal (ac_Stalled (cc_Alerts stalled_sample)) = 10"
  by (simp_all add: stalled_sample_def sample_chain_def sample_alerts_def)

theorem evaluateChainStalledAlert_once_or_never_witness:
  "map m_resolved (alertChan (stall_run ''net'' [noon + Hour, noon + Hour] (sample_sys stalled_sample no_alarms))) = [False]"
proof -
  have t: "\<not> IsZero (noon + Hour)" "noon + 10 * Minute < noon + Hour"
    by (simp_all add: noon_def time_defs)
  then show ?thesis
    using evaluateChainStalledAlert_once_or_never [of "sample_sys stalled_sample no_alarms" "''net''" stalled_sample
        "noon + Hour" "[noon + Hour]"]
    by (auto simp: map_eq_Cons_conv simp del: stall_run.simps)
qed

lemma evaluateChainStalledAlert_recovers_witness:
  "let i = ''ChainStalled_'' @ cc_ValAddress stalled_sample;
     s = alert noon ''net'' ''stalled'' ''critical'' False (Some i) (sample_sys stalled_sample no_alarms);
     (r, cc', s') = evaluateChainStalledAlert noon stalled_sample s
   in \<not> exist (alarms s') ''net'' i \<and> length (alertChan s') = 2"
proof -
  define i where "i = ''ChainStalled_'' @ cc_ValAddress stalled_sample"
  let ?s0 = "sample_sys stalled_sample no_alarms"
  define s where "s = alert noon ''net'' ''stalled'' ''critical'' False (Some i) ?s0"
  have c: "chain_of s ''net'' = Some stalled_sample" by (simp add: s_def)
  have ex: "exist (alarms s) ''net'' j \<longleftrightarrow> j = i" for j
    by (auto simp: s_def exist_alert [of ?s0 "''net''" stalled_sample])
  have ch: "length (alertChan s) = 1" by (simp add: s_def alert_alertChan [of ?s0 "''net''" stalled_sample])
  have ok: "alarms_ok (alarms s)" unfolding s_def by (rule alert_alarms_ok) (simp_all add: clock_ok_def)
  have "stall_alarms_own (alarms s) ''net'' (cc_ValAddress stalled_sample)"
    by (auto simp: stall_alarms_own_def ex i_def)
  moreover have "noon \<le> noon + 10 * Minute" by (simp add: Minute_def)
  moreover obtain r cc' s' where e: "evaluateChainStalledAlert noon stalled_sample s = (r, cc', s')"
    by (cases "evaluateChainStalledAlert noon stalled_sample s")
  ultimately have "\<not> exist (alarms s') ''net'' i"
      "\<exists>out. alertChan s' = alertChan s @ out \<and> map (\<lambda>m. (m_uniqueId m, m_resolved m)) out = [(i, True)]"
    using evaluateChainStalledAlert_recovers [of s "''net''" stalled_sample noon] c ok ex [of i]
    unfolding i_def [symmetric] Let_def e by simp_all
  then show ?thesis
    unfolding i_def [symmetric] s_def [symmetric] Let_def e using ch by (auto simp: map_eq_Cons_conv)
qed

lemma evaluateValidatorInactiveAlert_transitions_witness:
  "let jailed = sample_chain\<lparr>cc_lastValInfo := Some sample_valinfo, cc_valInfo := Some (sample_valinfo\<lparr>vi_Bonded := False\<rparr>)\<rparr>
   in \<exists>cc' s' m. evaluateValidatorInactiveAlert noon jailed (sample_sys jailed no_alarms) = Some ((True, False), cc', s') \<and>
        alertChan s' = [m] \<and>
        m_message m = ''val is no longer active: validator netvaloper1xyz is jailed for chainid net-1''"
proof -
  let ?j = "sample_chain\<lparr>cc_lastValInfo := Some sample_valinfo, cc_valInfo := Some (sample_valinfo\<lparr>vi_Bonded := False\<rparr>)\<rparr>"
  have "vi_Bonded sample_valinfo" "\<not> vi_Tombstoned sample_valinfo" "vi_Moniker sample_valinfo = ''val''"
      "cc_name sample_chain = ''net''" "cc_silencedUntil sample_chain = 0"
      "cc_ValAddress sample_chain = ''netvaloper1xyz''" "cc_ChainId sample_chain = ''net-1''"
    by (simp_all add: sample_valinfo_def sample_chain_def)
  then show ?thesis
    using evaluateValidatorInactiveAlert_transitions [of "sample_sys ?j no_alarms" "''net''" ?j noon
        sample_valinfo "sample_valinfo\<lparr>vi_Bonded := False\<rparr>"]
    by (auto simp: Let_def map_eq_Cons_conv)
qed

end
