(* ===== verification/GoTime.thy ===== *)
theory GoTime
  imports GoStrings
begin

text \<open>
  What the program uses of Go's \<^verbatim>\<open>time\<close> package beyond comparison: rounding and splitting a
  duration, and the layout \<^verbatim>\<open>2006-01-02 15:04\<close>. A \<^verbatim>\<open>time.Time\<close> is formatted in the zone it
  carries: zero offset for the times of the Cosmos SDK, the zone of the machine for the result of
  \<^verbatim>\<open>time.Unix\<close>. The zone is an offset in seconds east of UTC.
\<close>

definition dur_Round :: "duration \<Rightarrow> duration \<Rightarrow> duration" where
  "dur_Round d m =
     (if m \<le> 0 then d
      else let r = d - m * (if 0 \<le> d then d div m else - (- d div m))
           in if d < 0 then
                if 2 * (- r) < m then d - r else let d1 = d - m - r in if - (2 ^ 63) \<le> d1 then d1 else - (2 ^ 63)
              else
                if 2 * r < m then d - r else let d1 = d + m - r in if d1 < 2 ^ 63 then d1 else 2 ^ 63 - 1)"

lemma dur_Round_pos:
  assumes "0 < d" "d + m < 2 ^ 63" "0 < m" "even m"
  shows "dur_Round d m = (d + m div 2) div m * m"
proof -
  define q r where "q = d div m" and "r = d mod m"
  have d: "d = q * m + r" "0 \<le> r" "r < m" using assms(3) by (simp_all add: q_def r_def)
  have m2: "2 * (m div 2) = m" using assms(4) by simp
  have "(d + m div 2) div m = (if 2 * r < m then q else q + 1)"
  proof (cases "2 * r < m")
    case True
    then have "(q * m + (r + m div 2)) div m = q"
      using d m2 by (subst div_mult_self3) (simp_all add: div_pos_pos_trivial)
    with True show ?thesis by (simp add: d(1) add.assoc)
  next
    case False
    then have "(r + m div 2) div m = 1" using d m2 by (intro int_div_pos_eq [where r = "r + m div 2 - m"]) simp_all
    moreover have "(q * m + (r + m div 2)) div m = q + (r + m div 2) div m"
      using assms(3) by (subst div_mult_self3) simp_all
    ultimately show ?thesis using False by (simp add: d(1) add.assoc)
  qed
  moreover have "dur_Round d m = (if 2 * r < m then d - r else if d + m - r < 2 ^ 63 then d + m - r else 2 ^ 63 - 1)"
    using assms by (simp add: dur_Round_def Let_def r_def minus_mult_div_eq_mod)
  moreover have "d - r = q * m" "d + m - r = (q + 1) * m" "d + m - r < 2 ^ 63"
    using d assms(2) by (simp_all add: algebra_simps)
  ultimately show ?thesis by simp
qed

text \<open>Days since the epoch to year, month and day of the proleptic Gregorian calendar.\<close>

definition civil_from_days :: "int \<Rightarrow> int \<times> int \<times> int" where
  "civil_from_days days =
     (let z = days + 719468;
          era = z div 146097;
          doe = z mod 146097;
          yoe = (doe - doe div 1460 + doe div 36524 - doe div 146096) div 365;
          doy = doe - (365 * yoe + yoe div 4 - yoe div 100);
          mp = (5 * doy + 2) div 153;
          d = doy - (153 * mp + 2) div 5 + 1;
          m = (if mp < 10 then mp + 3 else mp - 9);
          y = yoe + era * 400 + (if m \<le> 2 then 1 else 0)
      in (y, m, d))"

definition pad0 :: "nat \<Rightarrow> int \<Rightarrow> string" where
  "pad0 w z = (let t = itoa z in replicate (w - length t) CHR ''0'' @ t)"

definition format_minute :: "int \<Rightarrow> gotime \<Rightarrow> string" where
  "format_minute zone t =
     (let secs = Unix t + zone; (y, m, d) = civil_from_days (secs div 86400); r = secs mod 86400
      in pad0 4 y @ ''-'' @ pad0 2 m @ ''-'' @ pad0 2 d @ '' '' @
         pad0 2 (r div 3600) @ '':'' @ pad0 2 (r mod 3600 div 60))"

lemma format_minute_sample:
  "format_minute 0 (1700000000 * 10 ^ 9) = ''2023-11-14 22:13''"
  "format_minute 0 (951782400 * 10 ^ 9) = ''2000-02-29 00:00''"
  by code_simp+

text \<open>\<^verbatim>\<open>humanDuration\<close> of \<^verbatim>\<open>td2/gov.go\<close>.\<close>

definition humanDuration :: "duration \<Rightarrow> string" where
  "humanDuration d0 =
     (if d0 \<le> 0 then ''0m''
      else let d = dur_Round d0 Minute;
               days = d div (24 * Hour);
               d1 = d - days * 24 * Hour;
               hours = d1 div Hour;
               d2 = d1 - hours * Hour;
               minutes = d2 div Minute
           in if 0 < days then itoa days @ ''d '' @ itoa hours @ ''h''
              else if 0 < hours then itoa hours @ ''h '' @ itoa minutes @ ''m''
              else itoa minutes @ ''m'')"

lemma Minute_num: "Minute = 60000000000" "Hour = 3600000000000"
  by (simp_all add: Minute_def Hour_def)

text \<open>
  \<^verbatim>\<open>humanDuration\<close> rounds to the nearest minute and splits exactly. For a positive duration the
  text shows the minutes \<open>M\<close> nearest to it (half a minute rounds up) as days and hours, as hours
  and minutes or as minutes, with hours below 24 and minutes below 60; a duration that is not
  positive shows as \<^verbatim>\<open>0m\<close>.
\<close>

lemma humanDuration_exact:
  assumes "d < 2 ^ 62"
  shows "let M = (d + 30 * Second) div Minute in
    humanDuration d =
      (if d \<le> 0 then ''0m''
       else if 1440 \<le> M then itoa (M div 1440) @ ''d '' @ itoa (M mod 1440 div 60) @ ''h''
       else if 60 \<le> M then itoa (M div 60) @ ''h '' @ itoa (M mod 60) @ ''m''
       else itoa M @ ''m'')"
proof (cases "d \<le> 0")
  case False
  define M where "M = (d + 30 * Second) div Minute"
  have M0: "0 \<le> M" using False by (simp add: M_def Second_def Minute_def)
  have R: "dur_Round d Minute = M * Minute"
    using False assms by (subst dur_Round_pos) (simp_all add: M_def Second_def Minute_def)
  have days: "M * Minute div (24 * Hour) = M div 1440"
    by (simp add: Minute_def Hour_def)
  have rest: "M * Minute - M div 1440 * 24 * Hour = M mod 1440 * Minute"
    unfolding Minute_num using div_mult_mod_eq [of M 1440] by linarith
  have hours: "M mod 1440 * Minute div Hour = M mod 1440 div 60"
    by (simp add: Minute_def Hour_def)
  have "M mod 1440 * Minute - M mod 1440 div 60 * Hour = M mod 1440 mod 60 * Minute"
    unfolding Minute_num using div_mult_mod_eq [of "M mod 1440" 60] by linarith
  moreover have "M mod 1440 mod 60 = M mod 60" by (simp add: mod_mod_cancel)
  ultimately have mins: "(M mod 1440 * Minute - M mod 1440 div 60 * Hour) div Minute = M mod 60"
    by (simp add: Minute_def)
  have "humanDuration d =
      (if 0 < M div 1440 then itoa (M div 1440) @ ''d '' @ itoa (M mod 1440 div 60) @ ''h''
       else if 0 < M mod 1440 div 60 then itoa (M mod 1440 div 60) @ ''h '' @ itoa (M mod 60) @ ''m''
       else itoa (M mod 60) @ ''m'')"
    using False unfolding humanDuration_def Let_def R days rest hours mins by (simp only: if_False)
  moreover have "0 < M div 1440 \<longleftrightarrow> 1440 \<le> M" using M0 by (simp add: pos_imp_zdiv_pos_iff)
  moreover have "M < 1440 \<Longrightarrow> M mod 1440 = M" "M < 60 \<Longrightarrow> M mod 60 = M" "0 < M div 60 \<longleftrightarrow> 60 \<le> M"
    using M0 by (simp_all add: pos_imp_zdiv_pos_iff)
  ultimately show ?thesis
    using False unfolding Let_def M_def [symmetric] by auto
qed (simp add: humanDuration_def Let_def)

lemma humanDuration_exact_witness: "humanDuration (93 * Hour + 29 * Second) = ''3d 21h''"
proof -
  have "humanDuration (93 * Hour + 29 * Second) =
      (let M = (93 * Hour + 29 * Second + 30 * Second) div Minute in itoa (M div 1440) @ ''d '' @ itoa (M mod 1440 div 60) @ ''h'')"
    using humanDuration_exact [of "93 * Hour + 29 * Second"] by (simp add: Let_def Hour_def Second_def Minute_def)
  also have "\<dots> = ''3d 21h''" by code_simp
  finally show ?thesis .
qed

end
