(* ===== verification/Governance.thy ===== *)
theory Governance
  imports Evaluate GoTime
begin

text \<open>
  Governance reminders: \<^verbatim>\<open>extractProposalTitles\<close> of \<^verbatim>\<open>td2/gov.go\<close> (with the protobuf decoder as a
  parameter) and \<^verbatim>\<open>evaluateUnvotedGovernanceProposalAlert\<close> of \<^verbatim>\<open>td2/alert.go\<close>. The evaluator keeps
  no state of its own: an alert id carries proposal and deadline, and the id is parsed again when
  the alert is resolved. \<open>zone\<close> is the offset of the machine's time zone, in which the result of
  \<^verbatim>\<open>time.Unix\<close> is formatted.
\<close>

section \<open>Proposal titles\<close>

record v1ProposalTitleFields =
  pt_ProposalId :: nat
  pt_Title :: string
  pt_Summary :: string

definition extractProposalTitles ::
  "(string \<Rightarrow> v1ProposalTitleFields option list option) \<Rightarrow> string \<Rightarrow> (nat, string \<times> string) gomap" where
  "extractProposalTitles unmarshal raw =
     (if raw = [] then []
      else case unmarshal raw of
             None \<Rightarrow> []
           | Some ps \<Rightarrow>
               fold (\<lambda>p result. case p of
                       None \<Rightarrow> result
                     | Some p \<Rightarrow>
                         if pt_Title p = [] \<and> pt_Summary p = [] then result
                         else gm_set (pt_ProposalId p) (pt_Title p, pt_Summary p) result) ps [])"

section \<open>Alert ids\<close>

definition gov_alert_id :: "string \<Rightarrow> nat \<Rightarrow> int \<Rightarrow> string" where
  "gov_alert_id valAddress pid deadline =
     ''UnvotedGovernanceProposal_'' @ valAddress @ ''_'' @ utoa pid @ ''_'' @ itoa deadline"

record resolvingProposal =
  rp_alertID :: string
  rp_proposalID :: nat
  rp_deadline :: gotime
  rp_hasDeadline :: bool

text \<open>What the resolve loop makes of an active alarm's id; \<open>None\<close> is \<^verbatim>\<open>continue\<close>.\<close>

definition parse_gov_id :: "string \<Rightarrow> resolvingProposal option" where
  "parse_gov_id alertID =
     (if \<not> HasPrefix alertID ''UnvotedGovernanceProposal'' then None
      else let parts = Split alertID ''_''; n = length parts
           in if n < 2 then None
              else case (ParseUint (parts ! (n - 2)), ParseInt (parts ! (n - 1))) of
                     ((pid, None), (dl, None)) \<Rightarrow>
                       Some \<lparr>rp_alertID = alertID, rp_proposalID = pid, rp_deadline = time_Unix dl, rp_hasDeadline = True\<rparr>
                   | _ \<Rightarrow>
                       (case ParseUint (parts ! (n - 1)) of
                          (pid, None) \<Rightarrow>
                            Some \<lparr>rp_alertID = alertID, rp_proposalID = pid, rp_deadline = zero_time, rp_hasDeadline = False\<rparr>
                        | _ \<Rightarrow> None))"

section \<open>The evaluator\<close>

definition quote_char :: "char \<Rightarrow> string" where
  "quote_char c =
     (let n = of_char c :: nat; bs = char_of (92 :: nat); hex = (\<lambda>d. if d < 10 then char_of (48 + d) else char_of (87 + d))
      in if n = 34 \<or> n = 92 then [bs, c]
         else if n = 7 then [bs, CHR ''a''] else if n = 8 then [bs, CHR ''b'']
         else if n = 12 then [bs, CHR ''f''] else if n = 10 then [bs, CHR ''n'']
         else if n = 13 then [bs, CHR ''r''] else if n = 9 then [bs, CHR ''t'']
         else if n = 11 then [bs, CHR ''v'']
         else if n < 32 \<or> n = 127 then [bs, CHR ''x'', hex (n div 16), hex (n mod 16)]
         else [c])"

text \<open>\<^verbatim>\<open>%q\<close>, for text whose bytes from 128 on are printable UTF-8.\<close>

definition quote :: "string \<Rightarrow> string" where
  "quote s = [char_of (34 :: nat)] @ concat (map quote_char s) @ [char_of (34 :: nat)]"

definition gov_message :: "gotime \<Rightarrow> ChainConfig \<Rightarrow> govProposal \<Rightarrow> string" where
  "gov_message now cc p =
     (let titlePart = (if gp_Title p \<noteq> [] then '': '' @ quote (gp_Title p) else []);
          deadlinePart = (if pv_Name (cc_Provider cc) \<noteq> ''namada''
            then '', voting ends in '' @ humanDuration (time_Sub (gp_VotingEndTime p) now) @ '' ('' @
                 format_minute 0 (gp_VotingEndTime p) @ '' UTC)''
            else [])
      in ''[WARNING] Open proposal #'' @ utoa (gp_ProposalId p) @ '' on '' @ cc_name cc @ titlePart @
         '' - not yet voted'' @ deadlinePart)"

definition proposal_id :: "ChainConfig \<Rightarrow> govProposal \<Rightarrow> string" where
  "proposal_id cc p = gov_alert_id (cc_ValAddress cc) (gp_ProposalId p) (Unix (gp_VotingEndTime p))"

fun raise_unvoted :: "gotime \<Rightarrow> ChainConfig \<Rightarrow> govProposal list \<Rightarrow> bool \<times> sys \<Rightarrow> bool \<times> sys" where
  "raise_unvoted now cc [] (al, s) = (al, s)"
| "raise_unvoted now cc (p # ps) (al, s) =
     (if \<not> exist (alarms s) (cc_name cc) (proposal_id cc p)
      then raise_unvoted now cc ps
        (True, alert now (cc_name cc) (gov_message now cc p) ''warning'' False (Some (proposal_id cc p)) s)
      else raise_unvoted now cc ps (al, s))"

definition gov_to_resolve :: "ChainConfig \<Rightarrow> sys \<Rightarrow> resolvingProposal list" where
  "gov_to_resolve cc s =
     (case gm_get (AllAlarms (alarms s)) (cc_name cc) of
        None \<Rightarrow> []
      | Some m \<Rightarrow>
          filter (\<lambda>rp. rp_proposalID rp \<notin> set (map gp_ProposalId (cc_unvotedOpenGovProposals cc)))
            (List.map_filter parse_gov_id (gm_keys m)))"

definition gov_resolve_message :: "int \<Rightarrow> gotime \<Rightarrow> ChainConfig \<Rightarrow> resolvingProposal \<Rightarrow> string" where
  "gov_resolve_message zone now cc rp =
     (if \<not> rp_hasDeadline rp
      then ''Proposal #'' @ utoa (rp_proposalID rp) @ '' on '' @ cc_name cc @
           '' is no longer awaiting the validator's vote.''
      else if now < rp_deadline rp
      then ''Proposal #'' @ utoa (rp_proposalID rp) @ '' on '' @ cc_name cc @ '' - vote recorded before the '' @
           format_minute zone (rp_deadline rp) @ '' UTC deadline.''
      else ''[MISSED] Proposal #'' @ utoa (rp_proposalID rp) @ '' on '' @ cc_name cc @
           '' reached its voting deadline ('' @ format_minute zone (rp_deadline rp) @
           '' UTC) WITHOUT a vote from the validator.'')"

fun resolve_voted ::
  "int \<Rightarrow> gotime \<Rightarrow> ChainConfig \<Rightarrow> resolvingProposal list \<Rightarrow> bool \<times> sys \<Rightarrow> bool \<times> sys" where
  "resolve_voted zone now cc [] (res, s) = (res, s)"
| "resolve_voted zone now cc (rp # rps) (res, s) =
     (if \<not> exist (alarms s) (cc_name cc) (rp_alertID rp) then resolve_voted zone now cc rps (res, s)
      else resolve_voted zone now cc rps
        (True, alert now (cc_name cc) (gov_resolve_message zone now cc rp) ''warning'' True (Some (rp_alertID rp)) s))"

definition evaluateUnvotedGovernanceProposalAlert :: "int \<Rightarrow> gotime \<Rightarrow> ChainConfig \<Rightarrow> sys \<Rightarrow> verdict" where
  "evaluateUnvotedGovernanceProposalAlert zone now cc s =
     (let (al, s1) = raise_unvoted now cc (cc_unvotedOpenGovProposals cc) (False, s);
          (res, s2) = resolve_voted zone now cc (gov_to_resolve cc s1) (False, s1)
      in finish (al, res) cc s2)"

section \<open>The id is a faithful record\<close>

lemma Split_gov_id:
  "Split (gov_alert_id v pid dl) ''_'' =
     Split (''UnvotedGovernanceProposal_'' @ v) ''_'' @ [utoa pid, itoa dl]"
proof -
  have "gov_alert_id v pid dl = (''UnvotedGovernanceProposal_'' @ v) @ CHR ''_'' # (utoa pid @ CHR ''_'' # itoa dl)"
    by (simp add: gov_alert_id_def)
  moreover have "Split (utoa pid @ CHR ''_'' # itoa dl) ''_'' = [utoa pid, itoa dl]"
    by (simp add: Split_single_append Split_single_absent)
  ultimately show ?thesis by (simp only: Split_single_append)
qed

lemma gov_id_prefix: "HasPrefix (gov_alert_id v pid dl) ''UnvotedGovernanceProposal''"
  by (simp add: gov_alert_id_def HasPrefix_def)

text \<open>
  C23: The alert id round-trips. Whatever the validator address looks like, underscores included,
  parsing the id the evaluator builds gives back the proposal number and the voting deadline to
  the second, for every 64-bit proposal number and deadline.
\<close>

theorem parse_gov_alert_id:
  assumes "pid < 2 ^ 64" "int64 dl"
  shows "parse_gov_id (gov_alert_id v pid dl) =
    Some \<lparr>rp_alertID = gov_alert_id v pid dl, rp_proposalID = pid, rp_deadline = time_Unix dl, rp_hasDeadline = True\<rparr>"
proof -
  let ?q = "Split (''UnvotedGovernanceProposal_'' @ v) ''_''"
  have "(?q @ [utoa pid, itoa dl]) ! length ?q = utoa pid" "(?q @ [utoa pid, itoa dl]) ! Suc (length ?q) = itoa dl"
    by (simp_all add: nth_append)
  then show ?thesis
    by (simp add: parse_gov_id_def gov_id_prefix Split_gov_id Let_def ParseUint_utoa [OF assms(1)] ParseInt_itoa [OF assms(2)])
qed

lemma parse_gov_id_alertID: "parse_gov_id i = Some rp \<Longrightarrow> rp_alertID rp = i \<and> HasPrefix i ''UnvotedGovernanceProposal''"
  by (auto simp: parse_gov_id_def Let_def split: if_splits prod.splits option.splits)

lemma gov_alert_id_inj:
  assumes "pid < 2 ^ 64" "pid' < 2 ^ 64" "int64 dl" "int64 dl'" "gov_alert_id v pid dl = gov_alert_id v' pid' dl'"
  shows "pid = pid' \<and> dl = dl'"
proof -
  have "pid = pid'" "time_Unix dl = time_Unix dl'"
    using parse_gov_alert_id [OF assms(1,3), of v] parse_gov_alert_id [OF assms(2,4), of v'] assms(5) by simp_all
  then show ?thesis by (simp add: time_Unix_def)
qed

section \<open>What an evaluation does\<close>

text \<open>An active alarm for a proposal that is not on the list of unvoted proposals any more.\<close>

definition gov_stale :: "ChainConfig \<Rightarrow> string \<Rightarrow> bool" where
  "gov_stale cc i \<longleftrightarrow>
     (case parse_gov_id i of None \<Rightarrow> False
      | Some rp \<Rightarrow> rp_proposalID rp \<notin> set (map gp_ProposalId (cc_unvotedOpenGovProposals cc)))"

definition proposals_ok :: "ChainConfig \<Rightarrow> bool" where
  "proposals_ok cc \<longleftrightarrow> distinct (map (proposal_id cc) (cc_unvotedOpenGovProposals cc)) \<and>
     (\<forall>p \<in> set (cc_unvotedOpenGovProposals cc). gp_ProposalId p < 2 ^ 64 \<and> int64 (Unix (gp_VotingEndTime p)))"

lemma unvoted_not_stale:
  "proposals_ok cc \<Longrightarrow> p \<in> set (cc_unvotedOpenGovProposals cc) \<Longrightarrow> \<not> gov_stale cc (proposal_id cc p)"
  by (auto simp: gov_stale_def proposal_id_def proposals_ok_def parse_gov_alert_id)

lemma raise_unvoted_result:
  assumes "chain_of s k = Some cc" "cc_name cc = k" "alarms_ok (alarms s)" "\<not> IsZero now" "\<not> silenced now cc"
    "distinct (map (proposal_id cc) ps)"
  shows "\<exists>s' out. raise_unvoted now cc ps (al, s) =
      (al \<or> (\<exists>p \<in> set ps. \<not> exist (alarms s) k (proposal_id cc p)), s') \<and>
    chain_of s' k = Some cc \<and> alarms_ok (alarms s') \<and> alertChan s' = alertChan s @ out \<and>
    map (\<lambda>m. (m_uniqueId m, m_resolved m)) out =
      map (\<lambda>p. (proposal_id cc p, False)) (filter (\<lambda>p. \<not> exist (alarms s) k (proposal_id cc p)) ps) \<and>
    (\<forall>i. exist (alarms s') k i \<longleftrightarrow> exist (alarms s) k i \<or> i \<in> proposal_id cc ` set ps)"
  using assms
proof (induction ps arbitrary: s al)
  case Nil
  then show ?case by (intro exI [of _ s] exI [of _ "[]"]) simp
next
  case (Cons p ps)
  show ?case
  proof (cases "exist (alarms s) k (proposal_id cc p)")
    case True
    obtain s' out where "raise_unvoted now cc ps (al, s) =
        (al \<or> (\<exists>p \<in> set ps. \<not> exist (alarms s) k (proposal_id cc p)), s')"
        "chain_of s' k = Some cc" "alarms_ok (alarms s')" "alertChan s' = alertChan s @ out"
        "map (\<lambda>m. (m_uniqueId m, m_resolved m)) out =
          map (\<lambda>p. (proposal_id cc p, False)) (filter (\<lambda>p. \<not> exist (alarms s) k (proposal_id cc p)) ps)"
        "\<forall>i. exist (alarms s') k i \<longleftrightarrow> exist (alarms s) k i \<or> i \<in> proposal_id cc ` set ps"
      using Cons.IH [of s al] Cons.prems by auto
    with True show ?thesis
      by (intro exI [of _ s'] exI [of _ out]) (auto simp: Cons.prems(2))
  next
    case False
    define s1 where "s1 = alert now k (gov_message now cc p) ''warning'' False (Some (proposal_id cc p)) s"
    have c1: "chain_of s1 k = Some cc" using Cons.prems(1) by (simp add: s1_def)
    have o1: "alarms_ok (alarms s1)"
      unfolding s1_def using Cons.prems(3,4) by (intro alert_alarms_ok) (simp_all add: clock_ok_def)
    have e1: "exist (alarms s1) k i \<longleftrightarrow> exist (alarms s) k i \<or> i = proposal_id cc p" for i
      using Cons.prems(5) by (simp add: s1_def exist_alert [OF Cons.prems(1,3)])
    have a1: "alertChan s1 = alertChan s @ [alert_message s k (gov_message now cc p) ''warning'' False (proposal_id cc p)]"
      using Cons.prems(5) by (simp add: s1_def alert_alertChan [OF Cons.prems(1)])
    obtain s' out where IH: "raise_unvoted now cc ps (True, s1) = (True, s')"
        "chain_of s' k = Some cc" "alarms_ok (alarms s')" "alertChan s' = alertChan s1 @ out"
        "map (\<lambda>m. (m_uniqueId m, m_resolved m)) out =
          map (\<lambda>p. (proposal_id cc p, False)) (filter (\<lambda>p. \<not> exist (alarms s1) k (proposal_id cc p)) ps)"
        "\<forall>i. exist (alarms s') k i \<longleftrightarrow> exist (alarms s1) k i \<or> i \<in> proposal_id cc ` set ps"
      using Cons.IH [of s1 True] c1 o1 Cons.prems by auto
    have "filter (\<lambda>p. \<not> exist (alarms s1) k (proposal_id cc p)) ps = filter (\<lambda>p. \<not> exist (alarms s) k (proposal_id cc p)) ps"
      using Cons.prems(6) by (intro filter_cong) (auto simp: e1, metis imageI)
    with IH False show ?thesis
      by (intro exI [of _ s'] exI [of _ "alert_message s k (gov_message now cc p) ''warning'' False (proposal_id cc p) # out"])
        (auto simp: Cons.prems(2) s1_def [symmetric] a1 e1 alert_message_simps [OF Cons.prems(1)])
  qed
qed

lemma resolve_voted_result:
  assumes "chain_of s k = Some cc" "cc_name cc = k" "alarms_ok (alarms s)" "\<not> IsZero now" "\<not> silenced now cc"
    "distinct (map rp_alertID rps)" "\<forall>rp \<in> set rps. exist (alarms s) k (rp_alertID rp)"
  shows "\<exists>s' out. resolve_voted zone now cc rps (res, s) = (res \<or> rps \<noteq> [], s') \<and>
    alarms_ok (alarms s') \<and> chain_of s' k = Some cc \<and> alertChan s' = alertChan s @ out \<and>
    map (\<lambda>m. (m_uniqueId m, m_resolved m, m_message m)) out =
      map (\<lambda>rp. (rp_alertID rp, True, gov_resolve_message zone now cc rp)) rps \<and>
    (\<forall>i. exist (alarms s') k i \<longleftrightarrow> exist (alarms s) k i \<and> i \<notin> rp_alertID ` set rps)"
  using assms
proof (induction rps arbitrary: s res)
  case Nil
  then show ?case by (intro exI [of _ s] exI [of _ "[]"]) simp
next
  case (Cons rp rps)
  define s1 where "s1 = alert now k (gov_resolve_message zone now cc rp) ''warning'' True (Some (rp_alertID rp)) s"
  have c1: "chain_of s1 k = Some cc" using Cons.prems(1) by (simp add: s1_def)
  have o1: "alarms_ok (alarms s1)"
    unfolding s1_def using Cons.prems(3,4) by (intro alert_alarms_ok) (simp_all add: clock_ok_def)
  have e1: "exist (alarms s1) k i \<longleftrightarrow> exist (alarms s) k i \<and> i \<noteq> rp_alertID rp" for i
    by (simp add: s1_def exist_alert [OF Cons.prems(1,3)])
  have a1: "alertChan s1 = alertChan s @ [alert_message s k (gov_resolve_message zone now cc rp) ''warning'' True (rp_alertID rp)]"
    using Cons.prems(5) by (simp add: s1_def alert_alertChan [OF Cons.prems(1)])
  have keep: "\<forall>r \<in> set rps. exist (alarms s1) k (rp_alertID r)"
    using Cons.prems(6,7) by (auto simp: e1) (metis imageI)
  obtain s' out where IH: "resolve_voted zone now cc rps (True, s1) = (True, s')"
      "alarms_ok (alarms s')" "chain_of s' k = Some cc" "alertChan s' = alertChan s1 @ out"
      "map (\<lambda>m. (m_uniqueId m, m_resolved m, m_message m)) out =
        map (\<lambda>rp. (rp_alertID rp, True, gov_resolve_message zone now cc rp)) rps"
      "\<forall>i. exist (alarms s') k i \<longleftrightarrow> exist (alarms s1) k i \<and> i \<notin> rp_alertID ` set rps"
    using Cons.IH [of s1 True] c1 o1 Cons.prems(2,4,5,6) keep by auto
  with Cons.prems(7) show ?case
    by (intro exI [of _ s'] exI [of _ "alert_message s k (gov_resolve_message zone now cc rp) ''warning'' True (rp_alertID rp) # out"])
      (auto simp: Cons.prems(2) s1_def [symmetric] a1 e1 alert_message_simps [OF Cons.prems(1)])
qed

lemma stale_filter:
  "map rp_alertID (filter (\<lambda>rp. rp_proposalID rp \<notin> set (map gp_ProposalId (cc_unvotedOpenGovProposals cc)))
     (List.map_filter parse_gov_id ks)) = filter (gov_stale cc) ks"
  by (induction ks) (auto simp: map_filter_simps gov_stale_def dest: parse_gov_id_alertID split: option.split)

lemma gov_to_resolve_ids:
  assumes "alarms_ok (alarms s)"
  shows "distinct (map rp_alertID (gov_to_resolve cc s)) \<and>
    set (map rp_alertID (gov_to_resolve cc s)) = {i. exist (alarms s) (cc_name cc) i \<and> gov_stale cc i}"
proof (cases "gm_get (AllAlarms (alarms s)) (cc_name cc)")
  case None
  then show ?thesis by (simp add: gov_to_resolve_def exist_def gm2_get_def)
next
  case (Some m)
  then have ok: "gm_ok m" using assms by (auto simp: alarms_ok_def)
  have ids: "map rp_alertID (gov_to_resolve cc s) = filter (gov_stale cc) (gm_keys m)"
    using stale_filter [of cc "gm_keys m"] by (simp add: gov_to_resolve_def Some)
  show ?thesis
    unfolding ids using Some gm.ok_distinct [OF ok] by (auto simp: exist_def gm2_get_def gm.keys_get)
qed

lemma gov_to_resolve_parsed: "rp \<in> set (gov_to_resolve cc s) \<Longrightarrow> parse_gov_id (rp_alertID rp) = Some rp"
  by (auto simp: gov_to_resolve_def List.map_filter_def split: option.splits) (frule parse_gov_id_alertID, simp)

lemma evaluateUnvotedGovernanceProposalAlert_effect:
  assumes "chain_of s k = Some cc" "cc_name cc = k" "alarms_ok (alarms s)" "\<not> IsZero now" "\<not> silenced now cc"
    "proposals_ok cc"
  shows "\<exists>cc' s' opened closed.
    evaluateUnvotedGovernanceProposalAlert zone now cc s = ((opened \<noteq> [], closed \<noteq> []), cc', s') \<and>
    (\<exists>out1 out2. alertChan s' = alertChan s @ out1 @ out2 \<and>
      map (\<lambda>m. (m_uniqueId m, m_resolved m)) out1 = map (\<lambda>i. (i, False)) opened \<and>
      map (\<lambda>m. (m_uniqueId m, m_resolved m)) out2 = map (\<lambda>i. (i, True)) closed \<and>
      (\<forall>m \<in> set out2. \<exists>rp. parse_gov_id (m_uniqueId m) = Some rp \<and> m_message m = gov_resolve_message zone now cc rp)) \<and>
    opened = filter (\<lambda>i. \<not> exist (alarms s) k i) (map (proposal_id cc) (cc_unvotedOpenGovProposals cc)) \<and>
    distinct closed \<and> set closed = {i. exist (alarms s) k i \<and> gov_stale cc i} \<and>
    activeAlarms (alarms s') k =
      {i \<in> activeAlarms (alarms s) k. \<not> gov_stale cc i} \<union> proposal_id cc ` set (cc_unvotedOpenGovProposals cc)" (is ?effect)
    and "alarms_ok (alarms (snd (snd (evaluateUnvotedGovernanceProposalAlert zone now cc s))))" (is ?kept)
proof -
  let ?ps = "cc_unvotedOpenGovProposals cc"
  have dist: "distinct (map (proposal_id cc) ?ps)" using assms(6) by (simp add: proposals_ok_def)
  obtain s1 out1 where r: "raise_unvoted now cc ?ps (False, s) = (\<exists>p \<in> set ?ps. \<not> exist (alarms s) k (proposal_id cc p), s1)"
      "chain_of s1 k = Some cc" "alarms_ok (alarms s1)" "alertChan s1 = alertChan s @ out1"
      "map (\<lambda>m. (m_uniqueId m, m_resolved m)) out1 =
        map (\<lambda>p. (proposal_id cc p, False)) (filter (\<lambda>p. \<not> exist (alarms s) k (proposal_id cc p)) ?ps)"
      "\<forall>i. exist (alarms s1) k i \<longleftrightarrow> exist (alarms s) k i \<or> i \<in> proposal_id cc ` set ?ps"
    using raise_unvoted_result [OF assms(1-5) dist, of False] by auto
  let ?rps = "gov_to_resolve cc s1"
  have ids: "distinct (map rp_alertID ?rps)" "set (map rp_alertID ?rps) = {i. exist (alarms s1) k i \<and> gov_stale cc i}"
    using gov_to_resolve_ids [OF r(3), of cc] assms(2) by simp_all
  have ex1: "\<forall>rp \<in> set ?rps. exist (alarms s1) k (rp_alertID rp)"
    using ids(2) by auto
  obtain s2 out2 where v: "resolve_voted zone now cc ?rps (False, s1) = (?rps \<noteq> [], s2)"
      "alertChan s2 = alertChan s1 @ out2" "alarms_ok (alarms s2)"
      "map (\<lambda>m. (m_uniqueId m, m_resolved m, m_message m)) out2 =
        map (\<lambda>rp. (rp_alertID rp, True, gov_resolve_message zone now cc rp)) ?rps"
      "\<forall>i. exist (alarms s2) k i \<longleftrightarrow> exist (alarms s1) k i \<and> i \<notin> rp_alertID ` set ?rps"
    using resolve_voted_result [OF r(2) assms(2) r(3) assms(4,5) ids(1) ex1, of zone False] by auto
  let ?opened = "filter (\<lambda>i. \<not> exist (alarms s) k i) (map (proposal_id cc) ?ps)" and ?closed = "map rp_alertID ?rps"
  have stale: "{i. exist (alarms s1) k i \<and> gov_stale cc i} = {i. exist (alarms s) k i \<and> gov_stale cc i}"
    using r(6) unvoted_not_stale [OF assms(6)] by auto
  have "\<exists>rp. parse_gov_id (m_uniqueId m) = Some rp \<and> m_message m = gov_resolve_message zone now cc rp" if "m \<in> set out2" for m
  proof -
    have "(m_uniqueId m, m_resolved m, m_message m) \<in>
        set (map (\<lambda>rp. (rp_alertID rp, True, gov_resolve_message zone now cc rp)) ?rps)"
      unfolding v(4) [symmetric] using that by force
    then show ?thesis using gov_to_resolve_parsed by auto
  qed
  moreover have "map (\<lambda>m. (m_uniqueId m, m_resolved m)) out2 = map (\<lambda>i. (i, True)) ?closed"
    using arg_cong [OF v(4), of "map (\<lambda>(a, b, c). (a, b))"] by (simp add: o_def)
  moreover have "map (\<lambda>m. (m_uniqueId m, m_resolved m)) out1 = map (\<lambda>i. (i, False)) ?opened"
    by (simp add: r(5) filter_map o_def)
  moreover have "activeAlarms (alarms s2) k =
      {i \<in> activeAlarms (alarms s) k. \<not> gov_stale cc i} \<union> proposal_id cc ` set ?ps"
    using v(5) r(6) ids(2) unvoted_not_stale [OF assms(6)] by (auto simp: activeAlarms_def)
  moreover have "(\<exists>p \<in> set ?ps. \<not> exist (alarms s) k (proposal_id cc p)) = (?opened \<noteq> [])"
    by (auto simp: filter_empty_conv)
  ultimately show ?effect
    using ids stale r(1,4) v(1,2)
    by (intro exI [of _ "cc\<lparr>cc_activeAlerts := getCount (alarms s2) (cc_name cc)\<rparr>"] exI [of _ s2]
        exI [of _ ?opened] exI [of _ ?closed] conjI exI [of _ out1] exI [of _ out2])
      (simp_all add: evaluateUnvotedGovernanceProposalAlert_def finish_def)
  show ?kept
    using r(1) v(1,3) by (simp add: evaluateUnvotedGovernanceProposalAlert_def finish_def)
qed

text \<open>
  C22: One evaluation brings the active alarms in line with the open proposals. For a chain
  outside a maintenance window whose unvoted proposals have distinct ids: exactly the unvoted
  proposals without an active alarm are announced, in order; exactly the active governance alarms
  whose proposal is not unvoted any more are resolved, each once; an id the resolve loop cannot
  parse stays; no other alarm of the chain changes; and the verdict tells whether there were any.
  A resolution says \<^verbatim>\<open>vote recorded\<close> if it comes before the deadline in the id and
  \<^verbatim>\<open>[MISSED]\<close> otherwise.
\<close>

theorem evaluateUnvotedGovernanceProposalAlert_result:
  assumes "chain_of s k = Some cc" "cc_name cc = k" "alarms_ok (alarms s)" "\<not> IsZero now" "\<not> silenced now cc"
    "proposals_ok cc"
  shows "\<exists>cc' s' opened closed.
    evaluateUnvotedGovernanceProposalAlert zone now cc s = ((opened \<noteq> [], closed \<noteq> []), cc', s') \<and>
    (\<exists>out1 out2. alertChan s' = alertChan s @ out1 @ out2 \<and>
      map (\<lambda>m. (m_uniqueId m, m_resolved m)) out1 = map (\<lambda>i. (i, False)) opened \<and>
      map (\<lambda>m. (m_uniqueId m, m_resolved m)) out2 = map (\<lambda>i. (i, True)) closed \<and>
      (\<forall>m \<in> set out2. \<exists>rp. parse_gov_id (m_uniqueId m) = Some rp \<and> m_message m = gov_resolve_message zone now cc rp)) \<and>
    opened = filter (\<lambda>i. \<not> exist (alarms s) k i) (map (proposal_id cc) (cc_unvotedOpenGovProposals cc)) \<and>
    distinct closed \<and> set closed = {i. exist (alarms s) k i \<and> gov_stale cc i} \<and>
    activeAlarms (alarms s') k =
      {i \<in> activeAlarms (alarms s) k. \<not> gov_stale cc i} \<union> proposal_id cc ` set (cc_unvotedOpenGovProposals cc)"
  by (rule evaluateUnvotedGovernanceProposalAlert_effect(1) [OF assms])

section \<open>Reminders\<close>

fun gov_run :: "int \<Rightarrow> string \<Rightarrow> gotime list \<Rightarrow> sys \<Rightarrow> sys" where
  "gov_run zone k [] s = s"
| "gov_run zone k (now # ts) s =
     (case chain_of s k of
        None \<Rightarrow> s
      | Some cc \<Rightarrow>
          (case evaluateUnvotedGovernanceProposalAlert zone now cc s of
             (r, cc', s') \<Rightarrow> gov_run zone k ts (put_chain k cc' s')))"

lemma raise_unvoted_quiet:
  "\<forall>p \<in> set ps. exist (alarms s) (cc_name cc) (proposal_id cc p) \<Longrightarrow> raise_unvoted now cc ps (al, s) = (al, s)"
  by (induction ps) auto

lemma activeAlerts_irrelevant [simp]:
  "proposal_id (cc\<lparr>cc_activeAlerts := n\<rparr>) = proposal_id cc" "gov_stale (cc\<lparr>cc_activeAlerts := n\<rparr>) = gov_stale cc"
  by (auto simp: fun_eq_iff proposal_id_def gov_stale_def split: option.split)

text \<open>Once every unvoted proposal has an alarm and no alarm is stale, nothing is dispatched any more.\<close>

definition gov_settled :: "ChainConfig \<Rightarrow> sys \<Rightarrow> bool" where
  "gov_settled cc s \<longleftrightarrow> (\<forall>p \<in> set (cc_unvotedOpenGovProposals cc). exist (alarms s) (cc_name cc) (proposal_id cc p)) \<and>
     (\<forall>i. exist (alarms s) (cc_name cc) i \<longrightarrow> \<not> gov_stale cc i)"

lemma settled_quiet:
  assumes "gov_settled cc s" "alarms_ok (alarms s)"
  shows "evaluateUnvotedGovernanceProposalAlert zone now cc s = finish (False, False) cc s"
proof -
  have "gov_to_resolve cc s = []"
  proof -
    have "set (map rp_alertID (gov_to_resolve cc s)) = {}"
      unfolding conjunct2 [OF gov_to_resolve_ids [OF assms(2), of cc]] using assms(1) by (simp add: gov_settled_def)
    then show ?thesis by simp
  qed
  then show ?thesis
    using assms(1) by (simp add: evaluateUnvotedGovernanceProposalAlert_def gov_settled_def raise_unvoted_quiet)
qed

lemma settled_run:
  assumes "chain_of s k = Some cc" "gov_settled cc s" "alarms_ok (alarms s)"
  shows "alertChan (gov_run zone k ts s) = alertChan s"
  using assms
proof (induction ts arbitrary: s cc)
  case (Cons t ts)
  let ?cc' = "cc\<lparr>cc_activeAlerts := getCount (alarms s) (cc_name cc)\<rparr>"
  have "gov_settled ?cc' (put_chain k ?cc' s)"
    using Cons.prems(2) by (simp add: gov_settled_def)
  then have "alertChan (gov_run zone k ts (put_chain k ?cc' s)) = alertChan (put_chain k ?cc' s)"
    using Cons.prems by (intro Cons.IH [of _ ?cc']) simp_all
  then show ?case
    using Cons.prems settled_quiet [OF Cons.prems(2,3)] by (simp add: finish_def)
qed simp

text \<open>
  C24: A proposal is announced once and never again. However long and often the evaluator runs
  while the same proposals stay unvoted, the first run dispatches one message per proposal without an
  active alarm (besides resolutions) and no later run dispatches anything. \<^verbatim>\<open>shouldNotify\<close> would let
  a reminder pass after \<^verbatim>\<open>governance_alerts_reminder_interval\<close> hours, but no message reaches it.
\<close>

theorem governance_reminder_never_dispatched:
  assumes "chain_of s k = Some cc" "cc_name cc = k" "alarms_ok (alarms s)" "\<not> IsZero t1" "\<not> silenced t1 cc"
    "proposals_ok cc"
  shows "alertChan (gov_run zone k (t1 # later) s) = alertChan (gov_run zone k [t1] s) \<and>
    (\<forall>now m dest reminder. m_uniqueId m \<in> proposal_id cc ` set (cc_unvotedOpenGovProposals cc) \<and> \<not> m_resolved m \<and>
       severity_ok m dest \<and> is_sent dest (m_uniqueId m) (alarms s) \<and>
       sent_time (sent_of dest (alarms s)) (m_uniqueId m) < now + dur_mul (dur_mul (- 1) reminder) Hour \<longrightarrow>
       fst (shouldNotify reminder now m dest (alarms s)))"
proof
  obtain r cc1 s1 where e: "evaluateUnvotedGovernanceProposalAlert zone t1 cc s = (r, cc1, s1)"
    using prod_cases3 by blast
  have act: "activeAlarms (alarms s1) k =
      {i \<in> activeAlarms (alarms s) k. \<not> gov_stale cc i} \<union> proposal_id cc ` set (cc_unvotedOpenGovProposals cc)"
    using evaluateUnvotedGovernanceProposalAlert_effect(1) [OF assms, of zone] e by auto
  have shape: "alarms_ok (alarms s1)" "cc1 = cc\<lparr>cc_activeAlerts := getCount (alarms s1) (cc_name cc)\<rparr>"
    using evaluateUnvotedGovernanceProposalAlert_effect(2) [OF assms, of zone] e
    by (auto simp: evaluateUnvotedGovernanceProposalAlert_def finish_def split: prod.splits)
  have "gov_settled cc1 (put_chain k cc1 s1)"
    using act unvoted_not_stale [OF assms(6)] assms(2)
    by (auto simp: shape(2) gov_settled_def activeAlarms_def set_eq_iff)
  then have "alertChan (gov_run zone k later (put_chain k cc1 s1)) = alertChan (put_chain k cc1 s1)"
    using shape(1) by (intro settled_run [of _ _ cc1]) simp_all
  then show "alertChan (gov_run zone k (t1 # later) s) = alertChan (gov_run zone k [t1] s)"
    using assms(1) by (simp add: e)
next
  show "\<forall>now m dest reminder. m_uniqueId m \<in> proposal_id cc ` set (cc_unvotedOpenGovProposals cc) \<and> \<not> m_resolved m \<and>
       severity_ok m dest \<and> is_sent dest (m_uniqueId m) (alarms s) \<and>
       sent_time (sent_of dest (alarms s)) (m_uniqueId m) < now + dur_mul (dur_mul (- 1) reminder) Hour \<longrightarrow>
       fst (shouldNotify reminder now m dest (alarms s))"
    by (auto simp: shouldNotify_def Let_def severity_ok_def is_sent_def proposal_id_def governance_prefix_def gov_id_prefix)
qed

section \<open>The theorems on a concrete installation\<close>

definition sample_proposal :: govProposal where
  "sample_proposal = \<lparr>gp_ProposalId = 7, gp_VotingEndTime = noon + 50 * Hour, gp_Title = ''Upgrade'', gp_Summary = []\<rparr>"

definition gov_sample :: ChainConfig where
  "gov_sample = sample_chain\<lparr>cc_unvotedOpenGovProposals := [sample_proposal]\<rparr>"

lemma gov_sample_simps [simp]:
  "cc_name gov_sample = ''net''" "cc_silencedUntil gov_sample = 0" "cc_unvotedOpenGovProposals gov_sample = [sample_proposal]"
  by (simp_all add: gov_sample_def sample_chain_def)

lemma gov_sample_ok [simp]: "proposals_ok gov_sample"
  by (simp add: proposals_ok_def sample_proposal_def int64_def noon_def Unix_def Hour_def)

lemma itoa_deadline: "itoa 1700180000 = ''1700180000''" "utoa 7 = ''7''"
  by (simp_all add: itoa_eval)

lemma gov_sample_id: "proposal_id gov_sample sample_proposal = ''UnvotedGovernanceProposal_netvaloper1xyz_7_1700180000''"
  by (simp add: proposal_id_def gov_alert_id_def gov_sample_def sample_chain_def sample_proposal_def noon_def Unix_def
      Hour_def itoa_deadline)

theorem parse_gov_alert_id_witness:
  "parse_gov_id ''UnvotedGovernanceProposal_net_valoper1xyz_7_1700180000'' =
     Some \<lparr>rp_alertID = ''UnvotedGovernanceProposal_net_valoper1xyz_7_1700180000'', rp_proposalID = 7,
       rp_deadline = time_Unix 1700180000, rp_hasDeadline = True\<rparr>"
proof -
  have "gov_alert_id ''net_valoper1xyz'' 7 1700180000 = ''UnvotedGovernanceProposal_net_valoper1xyz_7_1700180000''"
    by (simp add: gov_alert_id_def itoa_deadline)
  then show ?thesis
    using parse_gov_alert_id [of 7 1700180000 "''net_valoper1xyz''"] by (simp add: int64_def)
qed

theorem evaluateUnvotedGovernanceProposalAlert_result_witness:
  "\<exists>cc' s'. evaluateUnvotedGovernanceProposalAlert 0 noon gov_sample (sample_sys gov_sample no_alarms) =
      ((True, False), cc', s') \<and>
    map (\<lambda>m. (m_uniqueId m, m_resolved m)) (alertChan s') =
      [(''UnvotedGovernanceProposal_netvaloper1xyz_7_1700180000'', False)]"
proof -
  let ?s = "sample_sys gov_sample no_alarms"
  obtain cc' s' opened closed out1 out2 where
      e: "evaluateUnvotedGovernanceProposalAlert 0 noon gov_sample ?s = ((opened \<noteq> [], closed \<noteq> []), cc', s')"
      "alertChan s' = alertChan ?s @ out1 @ out2"
      "map (\<lambda>m. (m_uniqueId m, m_resolved m)) out1 = map (\<lambda>i. (i, False)) opened"
      "map (\<lambda>m. (m_uniqueId m, m_resolved m)) out2 = map (\<lambda>i. (i, True)) closed"
      "opened = filter (\<lambda>i. \<not> exist (alarms ?s) ''net'' i) (map (proposal_id gov_sample) (cc_unvotedOpenGovProposals gov_sample))"
      "set closed = {i. exist (alarms ?s) ''net'' i \<and> gov_stale gov_sample i}"
    using evaluateUnvotedGovernanceProposalAlert_result [of ?s "''net''" gov_sample noon 0] by auto
  have "opened = [''UnvotedGovernanceProposal_netvaloper1xyz_7_1700180000'']" "closed = []"
    using e(5,6) by (simp_all add: gov_sample_id)
  with e(1-4) show ?thesis by (intro exI [of _ cc'] exI [of _ s']) simp
qed

theorem governance_reminder_never_dispatched_witness:
  "alertChan (gov_run 0 ''net'' [noon, noon + 10 * Hour, noon + 20 * Hour] (sample_sys gov_sample no_alarms)) =
   alertChan (gov_run 0 ''net'' [noon] (sample_sys gov_sample no_alarms))"
  using governance_reminder_never_dispatched [of "sample_sys gov_sample no_alarms" "''net''" gov_sample noon 0
      "[noon + 10 * Hour, noon + 20 * Hour]"]
  by (simp del: gov_run.simps)

end
