(* ===== verification/Messages.thy ===== *)
theory Messages
  imports Governance
begin

text \<open>
  What leaves the program: the messages of \<^verbatim>\<open>td2/alert.go\<close> for Discord, Telegram, Slack, PagerDuty
  and generic webhooks, single and as digests, and the functions that send them. A request is a
  value of type \<open>post\<close> (the structures before JSON encoding); the network is a parameter that
  answers a post with an HTTP status, or with \<open>None\<close> when the request itself fails. Every sender
  returns its error, the posts it made and the alarm cache.
\<close>

section \<open>Texts\<close>

definition siren :: string where "siren = [CHR 0xF0, CHR 0x9F, CHR 0x9A, CHR 0xA8]"
definition purple_heart :: string where "purple_heart = [CHR 0xF0, CHR 0x9F, CHR 0x92, CHR 0x9C]"
definition clipboard :: string where "clipboard = [CHR 0xF0, CHR 0x9F, CHR 0x93, CHR 0x8B]"

definition newline :: string where "newline = [char_of (10 :: nat)]"

definition format_rfc3339 :: "gotime \<Rightarrow> string" where
  "format_rfc3339 t =
     (let secs = Unix t; (y, m, d) = civil_from_days (secs div 86400); r = secs mod 86400
      in pad0 4 y @ ''-'' @ pad0 2 m @ ''-'' @ pad0 2 d @ ''T'' @
         pad0 2 (r div 3600) @ '':'' @ pad0 2 (r mod 3600 div 60) @ '':'' @ pad0 2 (r mod 60) @ ''Z'')"

text \<open>\<^verbatim>\<open>getAlarms\<close>: the dashboard's list of active alarms.\<close>

definition getAlarms :: "sys \<Rightarrow> string \<Rightarrow> string" where
  "getAlarms s chain =
     (if cfg_HideLogs (td s) then []
      else case gm_get (AllAlarms (alarms s)) chain of
             None \<Rightarrow> []
           | Some m \<Rightarrow>
               concat (map (\<lambda>k. siren @ '' '' @
                 (case gm_get m k of None \<Rightarrow> [] | Some c \<Rightarrow> amc_Message c) @ newline) (gm_keys m)))"

record Attachment =
  at_Text :: string
  at_Color :: string
  at_Title :: string
  at_TitleLink :: string

record SlackMessage =
  sm_Text :: string
  sm_Attachments :: "Attachment list"

record DiscordEmbed =
  de_Title :: string
  de_Url :: string
  de_Description :: string
  de_Color :: int

record DiscordMessage =
  dm_Username :: string
  dm_AvatarUrl :: string
  dm_Content :: string
  dm_Embeds :: "DiscordEmbed list"

record WebhookAlert =
  wa_Status :: string
  wa_Labels :: "(string, string) gomap"
  wa_Annotations :: "(string, string) gomap"
  wa_StartsAt :: string
  wa_EndsAt :: string
  wa_Fingerprint :: string
  wa_GeneratorURL :: string

record WebhookPayload =
  wp_Status :: string
  wp_Alerts :: "WebhookAlert list"
  wp_Version :: string
  wp_GroupKey :: string

text \<open>\<^verbatim>\<open>buildSlackMessage\<close> changes the text of the message it is given, so it returns that too.\<close>

definition buildSlackMessage :: "alertMsg \<Rightarrow> SlackMessage \<times> alertMsg" where
  "buildSlackMessage msg =
     (let msg' = (if m_resolved msg then msg\<lparr>m_message := ''OK: '' @ m_message msg\<rparr> else msg);
          prefix = (if m_resolved msg then purple_heart @ '' Resolved: '' else siren @ '' ALERT: '');
          color = (if m_resolved msg then ''good'' else ''danger'')
      in (\<lparr>sm_Text = m_message msg',
           sm_Attachments = [\<lparr>at_Text = [], at_Color = color,
             at_Title = ''TenderDuty '' @ prefix @ '' '' @ m_chain msg @ '' '' @ m_slkMentions msg, at_TitleLink = []\<rparr>]\<rparr>,
          msg'))"

definition buildDiscordMessage :: "alertMsg \<Rightarrow> DiscordMessage" where
  "buildDiscordMessage msg =
     (let prefix = (if m_resolved msg then purple_heart @ '' Resolved: '' else siren @ '' ALERT: '')
      in \<lparr>dm_Username = ''Tenderduty'', dm_AvatarUrl = [], dm_Content = prefix @ m_chain msg,
          dm_Embeds = [\<lparr>de_Title = [], de_Url = [], de_Description = m_message msg, de_Color = 0\<rparr>]\<rparr>)"

definition buildWebhookAlert :: "gotime \<Rightarrow> alertMsg \<Rightarrow> WebhookAlert" where
  "buildWebhookAlert now msg =
     (let stamp = format_rfc3339 now
      in \<lparr>wa_Status = (if m_resolved msg then ''resolved'' else ''firing''),
          wa_Labels = [(''alertname'', m_uniqueId msg), (''chain'', m_chain msg), (''chain_name'', m_chainName msg),
            (''valoper_address'', m_valoperAddress msg), (''valcons_address'', m_valconsAddress msg),
            (''severity'', m_severity msg), (''source'', ''tenderduty'')],
          wa_Annotations = [(''summary'', m_message msg), (''description'', m_message msg)],
          wa_StartsAt = stamp,
          wa_EndsAt = (if m_resolved msg then stamp else ''0001-01-01T00:00:00Z''),
          wa_Fingerprint = m_uniqueId msg, wa_GeneratorURL = []\<rparr>)"

section \<open>Digests\<close>

record digest_state =
  firingByChain :: "(string, string list) gomap"
  resolvedByChain :: "(string, string list) gomap"
  chainOrder :: "string list"
  firingCount :: int
  resolvedCount :: int

definition listed :: "(string, string list) gomap \<Rightarrow> string \<Rightarrow> string list" where
  "listed m c = (case gm_get m c of None \<Rightarrow> [] | Some items \<Rightarrow> items)"

text \<open>The \<^verbatim>\<open>seen\<close> map holds the members of \<^verbatim>\<open>chainOrder\<close>.\<close>

definition digest_add :: "alertMsg \<Rightarrow> digest_state \<Rightarrow> digest_state" where
  "digest_add m st =
     (let st1 = (if m_chain m \<in> set (chainOrder st) then st else st\<lparr>chainOrder := chainOrder st @ [m_chain m]\<rparr>)
      in if m_resolved m
         then st1\<lparr>resolvedByChain := gm_set (m_chain m) (listed (resolvedByChain st1) (m_chain m) @ [m_message m]) (resolvedByChain st1),
                  resolvedCount := resolvedCount st1 + 1\<rparr>
         else st1\<lparr>firingByChain := gm_set (m_chain m) (listed (firingByChain st1) (m_chain m) @ [m_message m]) (firingByChain st1),
                  firingCount := firingCount st1 + 1\<rparr>)"

definition digest_collect :: "alertMsg list \<Rightarrow> digest_state" where
  "digest_collect msgs =
     fold digest_add msgs \<lparr>firingByChain = [], resolvedByChain = [], chainOrder = [], firingCount = 0, resolvedCount = 0\<rparr>"

definition digest_items :: "string list \<Rightarrow> string" where
  "digest_items items = concat (map (\<lambda>msg. ''- '' @ msg @ newline) items)"

definition digest_section :: "digest_state \<Rightarrow> string \<Rightarrow> string" where
  "digest_section st chain =
     (if listed (firingByChain st) chain \<noteq> []
      then newline @ siren @ '' '' @ chain @ '':'' @ newline @ digest_items (listed (firingByChain st) chain) else []) @
     (if listed (resolvedByChain st) chain \<noteq> []
      then newline @ purple_heart @ '' '' @ chain @ '' (resolved):'' @ newline @ digest_items (listed (resolvedByChain st) chain) else [])"

definition digestSummary :: "alertMsg list \<Rightarrow> string" where
  "digestSummary msgs =
     (let st = digest_collect msgs
      in TrimRight (itoa (firingCount st) @ '' new alert(s), '' @ itoa (resolvedCount st) @ '' resolved'' @ newline @
           concat (map (digest_section st) (chainOrder st))) newline)"

definition count_firing :: "alertMsg list \<Rightarrow> int" where
  "count_firing msgs = int (length (filter (\<lambda>m. \<not> m_resolved m) msgs))"

definition count_resolved :: "alertMsg list \<Rightarrow> int" where
  "count_resolved msgs = int (length (filter m_resolved msgs))"

definition buildDiscordDigestMessage :: "alertMsg list \<Rightarrow> DiscordMessage" where
  "buildDiscordDigestMessage msgs =
     \<lparr>dm_Username = ''Tenderduty'', dm_AvatarUrl = [],
      dm_Content = clipboard @ '' Alert digest: '' @ itoa (count_firing msgs) @ '' new, '' @ itoa (count_resolved msgs) @ '' resolved'',
      dm_Embeds = [\<lparr>de_Title = [], de_Url = [], de_Description = digestSummary msgs, de_Color = 0\<rparr>]\<rparr>"

text \<open>The slack digest takes the mentions of the first message; the callers never pass an empty list.\<close>

definition buildSlackDigestMessage :: "alertMsg list \<Rightarrow> SlackMessage option" where
  "buildSlackDigestMessage msgs =
     (case msgs of
        [] \<Rightarrow> None
      | m # _ \<Rightarrow>
          Some \<lparr>sm_Text = digestSummary msgs,
            sm_Attachments = [\<lparr>at_Text = [], at_Color = (if count_firing msgs = 0 then ''good'' else ''danger''),
              at_Title = ''TenderDuty Alert Digest: '' @ itoa (count_firing msgs) @ '' new, '' @
                itoa (count_resolved msgs) @ '' resolved '' @ m_slkMentions m, at_TitleLink = []\<rparr>]\<rparr>)"

definition buildWebhookDigestPayload :: "gotime \<Rightarrow> alertMsg list \<Rightarrow> WebhookPayload" where
  "buildWebhookDigestPayload now msgs =
     \<lparr>wp_Status = (if \<exists>m \<in> set msgs. \<not> m_resolved m then ''firing'' else ''resolved''),
      wp_Alerts = map (buildWebhookAlert now) msgs, wp_Version = ''1'', wp_GroupKey = ''tenderduty-digest''\<rparr>"

section \<open>Sending\<close>

datatype post =
    DiscordPost string DiscordMessage
  | TelegramLogin string
  | TelegramPost string string string
  | SlackPost string SlackMessage
  | PagerdutyEvent string string string string string
  | WebhookPost string WebhookPayload

type_synonym network = "post \<Rightarrow> nat option"

datatype send_error = RequestFailed | BadStatus nat

type_synonym sent = "send_error option \<times> post list \<times> alarmCache"

definition notifySlack :: "int \<Rightarrow> gotime \<Rightarrow> network \<Rightarrow> alertMsg \<Rightarrow> alarmCache \<Rightarrow> sent \<times> alertMsg" where
  "notifySlack reminder now net msg a =
     (if \<not> m_slk msg then ((None, [], a), msg)
      else let (ok, a') = shouldNotify reminder now msg slk a
           in if \<not> ok then ((None, [], a'), msg)
              else let (body, msg') = buildSlackMessage msg; p = SlackPost (m_slkHook msg) body
                   in case net p of
                        None \<Rightarrow> ((Some RequestFailed, [p], a'), msg')
                      | Some st \<Rightarrow> ((if st \<noteq> 200 then Some (BadStatus st) else None, [p], a'), msg'))"

text \<open>A status other than 204 is logged, and the error returned is the nil of the request.\<close>

definition notifyDiscord :: "int \<Rightarrow> gotime \<Rightarrow> network \<Rightarrow> alertMsg \<Rightarrow> alarmCache \<Rightarrow> sent" where
  "notifyDiscord reminder now net msg a =
     (if \<not> m_disc msg then (None, [], a)
      else let (ok, a') = shouldNotify reminder now msg di a
           in if \<not> ok then (None, [], a')
              else let p = DiscordPost (m_discHook msg) (buildDiscordMessage msg)
                   in case net p of None \<Rightarrow> (Some RequestFailed, [p], a') | Some st \<Rightarrow> (None, [p], a'))"

definition tg_send :: "network \<Rightarrow> string \<Rightarrow> string \<Rightarrow> string \<Rightarrow> send_error option \<times> post list" where
  "tg_send net key channel msg =
     (case net (TelegramLogin key) of
        None \<Rightarrow> (Some RequestFailed, [TelegramLogin key])
      | Some _ \<Rightarrow>
          (case net (TelegramPost key channel msg) of
             None \<Rightarrow> (Some RequestFailed, [TelegramLogin key, TelegramPost key channel msg])
           | Some _ \<Rightarrow> (None, [TelegramLogin key, TelegramPost key channel msg])))"

definition tg_text :: "alertMsg \<Rightarrow> string" where
  "tg_text msg =
     (let prefix = (if m_resolved msg then purple_heart @ '' Resolved'' else siren @ '' ALERT'')
      in m_chain msg @ '': '' @ prefix @ '': '' @ m_message msg)"

definition notifyTg :: "int \<Rightarrow> gotime \<Rightarrow> network \<Rightarrow> alertMsg \<Rightarrow> alarmCache \<Rightarrow> sent" where
  "notifyTg reminder now net msg a =
     (if \<not> m_tg msg then (None, [], a)
      else let (ok, a') = shouldNotify reminder now msg tg a
           in if \<not> ok then (None, [], a')
              else let (e, ps) = tg_send net (m_tgKey msg) (m_tgChannel msg) (tg_text msg) in (e, ps, a'))"

definition example_pd_key :: string where
  "example_pd_key = ''aaaaaaaaaaaabbbbbbbbbbbbbcccccccccccc''"

definition notifyPagerduty :: "int \<Rightarrow> gotime \<Rightarrow> network \<Rightarrow> alertMsg \<Rightarrow> alarmCache \<Rightarrow> sent" where
  "notifyPagerduty reminder now net msg a =
     (if \<not> m_pd msg then (None, [], a)
      else let (ok, a') = shouldNotify reminder now msg pd a
           in if \<not> ok then (None, [], a')
              else if m_key msg = example_pd_key then (None, [], a')
              else let p = PagerdutyEvent (m_key msg) (if m_resolved msg then ''resolve'' else ''trigger'')
                             (m_uniqueId msg) (m_message msg) (m_severity msg)
                   in case net p of None \<Rightarrow> (Some RequestFailed, [p], a') | Some _ \<Rightarrow> (None, [p], a'))"

definition webhook_error :: "nat \<Rightarrow> send_error option" where
  "webhook_error st = (if st < 200 \<or> 300 \<le> st then Some (BadStatus st) else None)"

definition notifyWebhook :: "int \<Rightarrow> gotime \<Rightarrow> network \<Rightarrow> alertMsg \<Rightarrow> alarmCache \<Rightarrow> sent" where
  "notifyWebhook reminder now net msg a =
     (if \<not> m_wh msg then (None, [], a)
      else let (ok, a') = shouldNotify reminder now msg wh a
           in if \<not> ok then (None, [], a')
              else if m_resolved msg \<and> boolVal (wh_DisableResolveMessage (ac_Webhook (m_alertConfig msg)))
              then (None, [], a')
              else let alert = buildWebhookAlert now msg;
                       p = WebhookPost (m_whURL msg) \<lparr>wp_Status = wa_Status alert, wp_Alerts = [alert],
                             wp_Version = ''1'', wp_GroupKey = m_chain msg\<rparr>
                   in case net p of None \<Rightarrow> (Some RequestFailed, [p], a') | Some st \<Rightarrow> (webhook_error st, [p], a'))"

definition notifyDiscordDigest :: "network \<Rightarrow> alertMsg list \<Rightarrow> send_error option \<times> post list" where
  "notifyDiscordDigest net msgs =
     (case msgs of
        [] \<Rightarrow> (None, [])
      | m # _ \<Rightarrow>
          let p = DiscordPost (m_discHook m) (buildDiscordDigestMessage msgs)
          in case net p of
               None \<Rightarrow> (Some RequestFailed, [p])
             | Some st \<Rightarrow> (if st \<noteq> 204 then Some (BadStatus st) else None, [p]))"

definition notifyTgDigest :: "network \<Rightarrow> alertMsg list \<Rightarrow> send_error option \<times> post list" where
  "notifyTgDigest net msgs =
     (case msgs of
        [] \<Rightarrow> (None, [])
      | m # _ \<Rightarrow>
          tg_send net (m_tgKey m) (m_tgChannel m)
            (''Digest ('' @ itoa (int (length msgs)) @ '' alerts):'' @ newline @ digestSummary msgs))"

definition notifySlackDigest :: "network \<Rightarrow> alertMsg list \<Rightarrow> send_error option \<times> post list" where
  "notifySlackDigest net msgs =
     (case buildSlackDigestMessage msgs of
        None \<Rightarrow> (None, [])
      | Some body \<Rightarrow>
          let p = SlackPost (m_slkHook (hd msgs)) body
          in case net p of
               None \<Rightarrow> (Some RequestFailed, [p])
             | Some st \<Rightarrow> (if st \<noteq> 200 then Some (BadStatus st) else None, [p]))"

definition notifyWebhookDigest :: "gotime \<Rightarrow> network \<Rightarrow> alertMsg list \<Rightarrow> send_error option \<times> post list" where
  "notifyWebhookDigest now net msgs =
     (case msgs of
        [] \<Rightarrow> (None, [])
      | m # _ \<Rightarrow>
          let p = WebhookPost (m_whURL m) (buildWebhookDigestPayload now msgs)
          in case net p of
               None \<Rightarrow> (Some RequestFailed, [p])
             | Some st \<Rightarrow> (webhook_error st, [p]))"

section \<open>A digest lists every message once\<close>

lemma listed_set [simp]: "listed (gm_set k v m) c = (if c = k then v else listed m c)"
  by (simp add: listed_def)

lemma listed_nothing [simp]: "listed [] c = []"
  by (simp add: listed_def)

lemma digest_collect_snoc: "digest_collect (msgs @ [m]) = digest_add m (digest_collect msgs)"
  by (simp add: digest_collect_def)

lemma digest_collect_result:
  "listed (firingByChain (digest_collect msgs)) c =
     map m_message (filter (\<lambda>m. m_chain m = c \<and> \<not> m_resolved m) msgs) \<and>
   listed (resolvedByChain (digest_collect msgs)) c =
     map m_message (filter (\<lambda>m. m_chain m = c \<and> m_resolved m) msgs) \<and>
   chainOrder (digest_collect msgs) = rev (remdups (rev (map m_chain msgs))) \<and>
   firingCount (digest_collect msgs) = count_firing msgs \<and>
   resolvedCount (digest_collect msgs) = count_resolved msgs"
proof (induction msgs rule: rev_induct)
  case Nil
  show ?case by (simp add: digest_collect_def count_firing_def count_resolved_def)
next
  case (snoc m msgs)
  then show ?case
    by (auto simp: digest_collect_snoc digest_add_def Let_def count_firing_def count_resolved_def)
qed

text \<open>The part of a digest about one chain, from the messages themselves.\<close>

definition chain_section :: "alertMsg list \<Rightarrow> string \<Rightarrow> string" where
  "chain_section msgs c =
     (let firing = map m_message (filter (\<lambda>m. m_chain m = c \<and> \<not> m_resolved m) msgs);
          resolved = map m_message (filter (\<lambda>m. m_chain m = c \<and> m_resolved m) msgs)
      in (if firing = [] then [] else newline @ siren @ '' '' @ c @ '':'' @ newline @ digest_items firing) @
         (if resolved = [] then [] else newline @ purple_heart @ '' '' @ c @ '' (resolved):'' @ newline @ digest_items resolved))"

text \<open>
  A digest lists every message exactly once. The text is the two counts followed by one
  section per chain, the chains in the order of their first message and none twice; a section
  lists the firing messages of its chain before the resolved ones, each kind complete and in the
  order of arrival; and the number of lines listed is the number of messages.
\<close>

lemma digestSummary_complete:
  "let chains = rev (remdups (rev (map m_chain msgs))) in
     digestSummary msgs =
       TrimRight (itoa (count_firing msgs) @ '' new alert(s), '' @ itoa (count_resolved msgs) @ '' resolved'' @ newline @
         concat (map (chain_section msgs) chains)) newline \<and>
     distinct chains \<and> set chains = m_chain ` set msgs \<and>
     (\<Sum>c\<leftarrow>chains. length (filter (\<lambda>m. m_chain m = c \<and> \<not> m_resolved m) msgs) +
        length (filter (\<lambda>m. m_chain m = c \<and> m_resolved m) msgs)) = length msgs"
proof -
  let ?cs = "rev (remdups (rev (map m_chain msgs)))"
  have sec: "digest_section (digest_collect msgs) = chain_section msgs"
    using digest_collect_result [of msgs] by (intro ext) (simp add: digest_section_def chain_section_def Let_def)
  have body: "digestSummary msgs =
       TrimRight (itoa (count_firing msgs) @ '' new alert(s), '' @ itoa (count_resolved msgs) @ '' resolved'' @ newline @
         concat (map (chain_section msgs) ?cs)) newline"
    using digest_collect_result [of msgs] by (simp add: digestSummary_def Let_def sec)
  have split: "length (filter (\<lambda>m. m_chain m = c \<and> \<not> m_resolved m) msgs) +
      length (filter (\<lambda>m. m_chain m = c \<and> m_resolved m) msgs) = length (filter (\<lambda>m. m_chain m = c) msgs)" for c
    by (induction msgs) auto
  have count: "length (filter (\<lambda>m. m_chain m = c) msgs) = count_list (map m_chain msgs) c" for c
    by (induction msgs) auto
  have "(\<Sum>c\<leftarrow>?cs. length (filter (\<lambda>m. m_chain m = c) msgs)) = (\<Sum>c\<in>set ?cs. length (filter (\<lambda>m. m_chain m = c) msgs))"
    by (subst sum_list_distinct_conv_sum_set) simp_all
  also have "\<dots> = length msgs"
    using sum_count_set [of "map m_chain msgs" "set ?cs"] by (simp add: count)
  finally show ?thesis
    using body by (simp add: Let_def split)
qed

end
