(* ===== verification/Dispatch.thy ===== *)
theory Dispatch
  imports Messages
begin

text \<open>
  Delivery of alerts: the goroutine \<^verbatim>\<open>Run\<close> starts for every message of \<^verbatim>\<open>alertChan\<close>
  (\<^verbatim>\<open>td2/run.go\<close>), and the digester of \<^verbatim>\<open>td2/digest.go\<close>, which buffers approved messages per
  destination and sends one combined message per bucket. The two modes are related by what
  \<^verbatim>\<open>shouldNotify\<close> approves: the digester sends the same messages, later and combined.
\<close>

section \<open>The digester\<close>

type_synonym buffers = "(string, alertMsg list) gomap"

record digester =
  dg_interval :: duration
  dg_disc :: buffers
  dg_tg :: buffers
  dg_slk :: buffers
  dg_wh :: buffers

definition newDigester :: "duration \<Rightarrow> digester" where
  "newDigester i = \<lparr>dg_interval = i, dg_disc = [], dg_tg = [], dg_slk = [], dg_wh = []\<rparr>"

definition buffered :: "buffers \<Rightarrow> string \<Rightarrow> alertMsg list" where
  "buffered b k = (case gm_get b k of None \<Rightarrow> [] | Some ms \<Rightarrow> ms)"

text \<open>\<^verbatim>\<open>d.x[k] = append(d.x[k], msg)\<close>.\<close>

definition buffer_add :: "string \<Rightarrow> alertMsg \<Rightarrow> buffers \<Rightarrow> buffers" where
  "buffer_add k msg b = gm_set k (buffered b k @ [msg]) b"

definition tg_bucket :: "alertMsg \<Rightarrow> string" where
  "tg_bucket msg = m_tgKey msg @ ''|'' @ m_tgChannel msg"

text \<open>\<^verbatim>\<open>msg.x && shouldNotify(msg, x)\<close>.\<close>

definition enabled :: "alertMsg \<Rightarrow> notifyDest \<Rightarrow> bool" where
  "enabled msg d = (case d of pd \<Rightarrow> m_pd msg | di \<Rightarrow> m_disc msg | tg \<Rightarrow> m_tg msg | slk \<Rightarrow> m_slk msg | wh \<Rightarrow> m_wh msg)"

definition approve :: "int \<Rightarrow> gotime \<Rightarrow> alertMsg \<Rightarrow> notifyDest \<Rightarrow> alarmCache \<Rightarrow> bool \<times> alarmCache" where
  "approve reminder now msg d a = (if enabled msg d then shouldNotify reminder now msg d a else (False, a))"

definition enqueue :: "int \<Rightarrow> gotime \<Rightarrow> alertMsg \<Rightarrow> digester \<times> alarmCache \<Rightarrow> digester \<times> alarmCache" where
  "enqueue reminder now msg da =
     (let (dg, a) = da;
          (ok1, a1) = approve reminder now msg di a;
          dg1 = (if ok1 then dg\<lparr>dg_disc := buffer_add (m_discHook msg) msg (dg_disc dg)\<rparr> else dg);
          (ok2, a2) = approve reminder now msg tg a1;
          dg2 = (if ok2 then dg1\<lparr>dg_tg := buffer_add (tg_bucket msg) msg (dg_tg dg1)\<rparr> else dg1);
          (ok3, a3) = approve reminder now msg slk a2;
          dg3 = (if ok3 then dg2\<lparr>dg_slk := buffer_add (m_slkHook msg) msg (dg_slk dg2)\<rparr> else dg2);
          (ok4, a4) = approve reminder now msg wh a3;
          dg4 = (if ok4 \<and> \<not> (m_resolved msg \<and> boolVal (wh_DisableResolveMessage (ac_Webhook (m_alertConfig msg))))
                 then dg3\<lparr>dg_wh := buffer_add (m_whURL msg) msg (dg_wh dg3)\<rparr> else dg3)
      in (dg4, a4))"

definition flush :: "gotime \<Rightarrow> network \<Rightarrow> digester \<Rightarrow> post list \<times> digester" where
  "flush now net dg =
     (concat (map (\<lambda>(k, msgs). snd (notifyDiscordDigest net msgs)) (dg_disc dg)) @
      concat (map (\<lambda>(k, msgs). snd (notifyTgDigest net msgs)) (dg_tg dg)) @
      concat (map (\<lambda>(k, msgs). snd (notifySlackDigest net msgs)) (dg_slk dg)) @
      concat (map (\<lambda>(k, msgs). snd (notifyWebhookDigest now net msgs)) (dg_wh dg)),
      dg\<lparr>dg_disc := [], dg_tg := [], dg_slk := [], dg_wh := []\<rparr>)"

section \<open>The dispatcher\<close>

text \<open>One message without a digester, in the order of the goroutine in \<^verbatim>\<open>Run\<close>.\<close>

definition deliver :: "int \<Rightarrow> gotime \<Rightarrow> network \<Rightarrow> alertMsg \<Rightarrow> alarmCache \<Rightarrow> post list \<times> alarmCache" where
  "deliver reminder now net msg a =
     (let (e1, p1, a1) = notifyPagerduty reminder now net msg a;
          (e2, p2, a2) = notifyDiscord reminder now net msg a1;
          (e3, p3, a3) = notifyTg reminder now net msg a2;
          ((e4, p4, a4), msg') = notifySlack reminder now net msg a3;
          (e5, p5, a5) = notifyWebhook reminder now net msg' a4
      in (p1 @ p2 @ p3 @ p4 @ p5, a5))"

definition deliver_digest ::
  "int \<Rightarrow> gotime \<Rightarrow> network \<Rightarrow> alertMsg \<Rightarrow> digester \<times> alarmCache \<Rightarrow> post list \<times> digester \<times> alarmCache" where
  "deliver_digest reminder now net msg da =
     (let (dg, a) = da; (e, p, a1) = notifyPagerduty reminder now net msg a
      in (p, enqueue reminder now msg (dg, a1)))"

fun deliver_run :: "int \<Rightarrow> network \<Rightarrow> (gotime \<times> alertMsg) list \<Rightarrow> alarmCache \<Rightarrow> post list \<times> alarmCache" where
  "deliver_run reminder net [] a = ([], a)"
| "deliver_run reminder net ((now, msg) # calls) a =
     (let (p, a1) = deliver reminder now net msg a; (ps, a2) = deliver_run reminder net calls a1 in (p @ ps, a2))"

fun digest_run ::
  "int \<Rightarrow> network \<Rightarrow> (gotime \<times> alertMsg) list \<Rightarrow> digester \<times> alarmCache \<Rightarrow> post list \<times> digester \<times> alarmCache" where
  "digest_run reminder net [] da = ([], da)"
| "digest_run reminder net ((now, msg) # calls) da =
     (let (p, da1) = deliver_digest reminder now net msg da; (ps, da2) = digest_run reminder net calls da1 in (p @ ps, da2))"

section \<open>What is approved is what is sent\<close>

text \<open>Everything the gate is asked about a sequence of messages, in order.\<close>

definition questions :: "(gotime \<times> alertMsg) list \<Rightarrow> (gotime \<times> notifyDest \<times> alertMsg) list" where
  "questions calls = concat (map (\<lambda>(now, msg).
     map (\<lambda>d. (now, d, msg)) (filter (enabled msg) [pd, di, tg, slk, wh])) calls)"

definition approved :: "int \<Rightarrow> (gotime \<times> alertMsg) list \<Rightarrow> alarmCache \<Rightarrow> (notifyDest \<times> alertMsg) list" where
  "approved reminder calls a = fst (gate_run (shouldNotify reminder) (questions calls) a)"

definition approved_for :: "notifyDest \<Rightarrow> (notifyDest \<times> alertMsg) list \<Rightarrow> alertMsg list" where
  "approved_for d out = map snd (filter (\<lambda>(d', m). d' = d) out)"

fun posts_to_discord :: "string \<Rightarrow> post \<Rightarrow> bool" where
  "posts_to_discord h (DiscordPost h' _) = (h' = h)"
| "posts_to_discord h _ = False"

fun posts_to_slack :: "string \<Rightarrow> post \<Rightarrow> bool" where
  "posts_to_slack h (SlackPost h' _) = (h' = h)"
| "posts_to_slack h _ = False"

fun posts_to_webhook :: "(string \<Rightarrow> bool) \<Rightarrow> post \<Rightarrow> bool" where
  "posts_to_webhook P (WebhookPost u _) = P u"
| "posts_to_webhook P _ = False"

fun posts_to_pagerduty :: "post \<Rightarrow> bool" where
  "posts_to_pagerduty (PagerdutyEvent _ _ _ _ _) = True"
| "posts_to_pagerduty _ = False"

text \<open>The alert ids and statuses a webhook post carries.\<close>

fun webhook_alerts :: "post \<Rightarrow> (string \<times> string) list" where
  "webhook_alerts (WebhookPost _ p) = map (\<lambda>w. (wa_Fingerprint w, wa_Status w)) (wp_Alerts p)"
| "webhook_alerts _ = []"

definition wants_resolve :: "alertMsg \<Rightarrow> bool" where
  "wants_resolve msg \<longleftrightarrow> \<not> (m_resolved msg \<and> boolVal (wh_DisableResolveMessage (ac_Webhook (m_alertConfig msg))))"

lemma notifyPagerduty_approve:
  "notifyPagerduty r now net msg a = (e, p, a') \<Longrightarrow>
   a' = snd (approve r now msg pd a) \<and> list_all posts_to_pagerduty p"
  by (auto simp: notifyPagerduty_def approve_def enabled_def Let_def split: if_splits prod.splits option.splits)

lemma notifyDiscord_approve:
  "notifyDiscord r now net msg a = (e, p, a') \<Longrightarrow>
   a' = snd (approve r now msg di a) \<and>
   p = (if fst (approve r now msg di a) then [DiscordPost (m_discHook msg) (buildDiscordMessage msg)] else [])"
  by (auto simp: notifyDiscord_def approve_def enabled_def Let_def split: if_splits prod.splits option.splits)

lemma notifyTg_approve:
  "notifyTg r now net msg a = (e, p, a') \<Longrightarrow>
   a' = snd (approve r now msg tg a) \<and>
   p = (if fst (approve r now msg tg a)
        then snd (tg_send net (m_tgKey msg) (m_tgChannel msg) (tg_text msg)) else [])"
  by (auto simp: notifyTg_def approve_def enabled_def Let_def split: if_splits prod.splits)

lemma notifySlack_approve:
  "notifySlack r now net msg a = ((e, p, a'), msg') \<Longrightarrow>
   a' = snd (approve r now msg slk a) \<and>
   p = (if fst (approve r now msg slk a) then [SlackPost (m_slkHook msg) (fst (buildSlackMessage msg))] else []) \<and>
   (\<exists>x. msg' = msg\<lparr>m_message := x\<rparr> \<and> (x = m_message msg \<or> m_resolved msg))"
  by (auto simp: notifySlack_def approve_def enabled_def buildSlackMessage_def Let_def split: if_splits prod.splits option.splits)
    (rule exI [of _ "m_message msg"], simp)+

lemma shouldNotify_message:
  "m_resolved msg \<Longrightarrow> shouldNotify r now (msg\<lparr>m_message := x\<rparr>) d a = shouldNotify r now msg d a"
  by (cases d) (simp_all add: shouldNotify_def Let_def severity_threshold_def)

lemma notifyWebhook_approve:
  "notifyWebhook r now net msg a = (e, p, a') \<Longrightarrow>
   a' = snd (approve r now msg wh a) \<and> list_all (\<lambda>q. \<exists>u y. q = WebhookPost u y) p \<and>
   map webhook_alerts (filter (posts_to_webhook P) p) =
     (if fst (approve r now msg wh a) \<and> wants_resolve msg \<and> P (m_whURL msg)
      then [[(m_uniqueId msg, if m_resolved msg then ''resolved'' else ''firing'')]] else [])"
  by (auto simp: notifyWebhook_def approve_def enabled_def wants_resolve_def buildWebhookAlert_def Let_def
      split: if_splits prod.splits option.splits)

lemma gate_run_append:
  "gate_run g (xs @ ys) a =
     (let (o1, a1) = gate_run g xs a; (o2, a2) = gate_run g ys a1 in (o1 @ o2, a2))"
  by (induction g xs a rule: gate_run.induct) (auto simp: Let_def split: prod.splits)

lemma gate_run_ask:
  "gate_run (shouldNotify r) (map (\<lambda>d. (now, d, msg)) (filter (enabled msg) (d # ds))) a =
     (let (ok, a') = approve r now msg d a;
          (out, a'') = gate_run (shouldNotify r) (map (\<lambda>d. (now, d, msg)) (filter (enabled msg) ds)) a'
      in (if ok then (d, msg) # out else out, a''))"
  by (auto simp: approve_def Let_def split: prod.splits)

text \<open>The five answers for one message, and the cache after each.\<close>

definition answers :: "int \<Rightarrow> gotime \<Rightarrow> alertMsg \<Rightarrow> alarmCache \<Rightarrow> bool list \<times> alarmCache" where
  "answers r now msg a =
     (let (b1, a1) = approve r now msg pd a; (b2, a2) = approve r now msg di a1; (b3, a3) = approve r now msg tg a2;
          (b4, a4) = approve r now msg slk a3; (b5, a5) = approve r now msg wh a4
      in ([b1, b2, b3, b4, b5], a5))"

lemma questions_one:
  "gate_run (shouldNotify r) (questions [(now, msg)]) a =
     (let (bs, a') = answers r now msg a
      in (map (\<lambda>(d, b). (d, msg)) (filter snd (zip [pd, di, tg, slk, wh] bs)), a'))"
proof -
  have "questions [(now, msg)] = map (\<lambda>d. (now, d, msg)) (filter (enabled msg) [pd, di, tg, slk, wh])"
    by (simp add: questions_def)
  then show ?thesis
    by (simp only: gate_run_ask) (simp add: answers_def Let_def split_def)
qed

lemma deliver_answers:
  assumes "deliver r now net msg a = (ps, a')" "answers r now msg a = ([b1, b2, b3, b4, b5], a'')"
  shows "a' = a''"
    and "filter (posts_to_discord h) ps =
      (if b2 \<and> m_discHook msg = h then [DiscordPost h (buildDiscordMessage msg)] else [])"
    and "filter (posts_to_slack h) ps =
      (if b4 \<and> m_slkHook msg = h then [SlackPost h (fst (buildSlackMessage msg))] else [])"
    and "map webhook_alerts (filter (posts_to_webhook P) ps) =
      (if b5 \<and> wants_resolve msg \<and> P (m_whURL msg)
       then [[(m_uniqueId msg, if m_resolved msg then ''resolved'' else ''firing'')]] else [])"
proof -
  obtain e1 p1 a1 where n1: "notifyPagerduty r now net msg a = (e1, p1, a1)" by (cases "notifyPagerduty r now net msg a")
  obtain e2 p2 a2 where n2: "notifyDiscord r now net msg a1 = (e2, p2, a2)" by (cases "notifyDiscord r now net msg a1")
  obtain e3 p3 a3 where n3: "notifyTg r now net msg a2 = (e3, p3, a3)" by (cases "notifyTg r now net msg a2")
  obtain e4 p4 a4 m' where n4: "notifySlack r now net msg a3 = ((e4, p4, a4), m')"
    by (cases "notifySlack r now net msg a3") (metis prod_cases3)
  obtain e5 p5 a5 where n5: "notifyWebhook r now net m' a4 = (e5, p5, a5)" by (cases "notifyWebhook r now net m' a4")
  have ps: "ps = p1 @ p2 @ p3 @ p4 @ p5" "a' = a5"
    using assms(1) by (simp_all add: deliver_def n1 n2 n3 n4 n5)
  note c1 = notifyPagerduty_approve [OF n1] and c2 = notifyDiscord_approve [OF n2] and c3 = notifyTg_approve [OF n3]
    and c4 = notifySlack_approve [OF n4] and c5 = notifyWebhook_approve [OF n5, of P]
  have m': "approve r now m' wh a4 = approve r now msg wh a4" "wants_resolve m' = wants_resolve msg"
      "m_whURL m' = m_whURL msg" "m_uniqueId m' = m_uniqueId msg" "m_resolved m' = m_resolved msg"
    using c4 by (auto simp: approve_def enabled_def wants_resolve_def shouldNotify_message)
  have b: "b2 = fst (approve r now msg di a1)" "b3 = fst (approve r now msg tg a2)" "b4 = fst (approve r now msg slk a3)"
      "b5 = fst (approve r now msg wh a4)" "a'' = a5"
    using assms(2) c1 c2 c3 c4 c5 m' by (auto simp: answers_def Let_def split: prod.splits)
  have none: "filter (posts_to_discord h) p1 = []" "filter (posts_to_slack h) p1 = []" "filter (posts_to_webhook P) p1 = []"
      "filter (posts_to_discord h) p5 = []" "filter (posts_to_slack h) p5 = []"
      "filter (posts_to_discord h) p3 = []" "filter (posts_to_slack h) p3 = []" "filter (posts_to_webhook P) p3 = []"
    using c1 c5 c3
    by (auto simp: filter_empty_conv list_all_iff tg_send_def elim!: posts_to_pagerduty.elims split: option.splits if_splits)
  show "a' = a''" using ps b by simp
  show "filter (posts_to_discord h) ps =
      (if b2 \<and> m_discHook msg = h then [DiscordPost h (buildDiscordMessage msg)] else [])"
    using c2 c4 b none by (simp add: ps)
  show "filter (posts_to_slack h) ps =
      (if b4 \<and> m_slkHook msg = h then [SlackPost h (fst (buildSlackMessage msg))] else [])"
    using c2 c4 b none by (simp add: ps)
  show "map webhook_alerts (filter (posts_to_webhook P) ps) =
      (if b5 \<and> wants_resolve msg \<and> P (m_whURL msg)
       then [[(m_uniqueId msg, if m_resolved msg then ''resolved'' else ''firing'')]] else [])"
    using c2 c4 c5 b none m' by (simp add: ps)
qed

lemma buffered_add [simp]: "buffered (buffer_add k m b) h = buffered b h @ (if h = k then [m] else [])"
  by (simp add: buffered_def buffer_add_def)

lemma deliver_digest_answers:
  assumes "deliver_digest r now net msg (dg, a) = (ps, dg', a')" "answers r now msg a = ([b1, b2, b3, b4, b5], a'')"
  shows "a' = a''"
    and "buffered (dg_disc dg') h = buffered (dg_disc dg) h @ (if b2 \<and> m_discHook msg = h then [msg] else [])"
    and "buffered (dg_tg dg') h = buffered (dg_tg dg) h @ (if b3 \<and> tg_bucket msg = h then [msg] else [])"
    and "buffered (dg_slk dg') h = buffered (dg_slk dg) h @ (if b4 \<and> m_slkHook msg = h then [msg] else [])"
    and "buffered (dg_wh dg') h = buffered (dg_wh dg) h @ (if b5 \<and> wants_resolve msg \<and> m_whURL msg = h then [msg] else [])"
proof -
  obtain e1 p1 a1 where n1: "notifyPagerduty r now net msg a = (e1, p1, a1)" by (cases "notifyPagerduty r now net msg a")
  have a1: "a1 = snd (approve r now msg pd a)" using notifyPagerduty_approve [OF n1] by simp
  have e: "enqueue r now msg (dg, a1) = (dg', a')" using assms(1) by (simp add: deliver_digest_def n1)
  show "a' = a''" "buffered (dg_disc dg') h = buffered (dg_disc dg) h @ (if b2 \<and> m_discHook msg = h then [msg] else [])"
    "buffered (dg_tg dg') h = buffered (dg_tg dg) h @ (if b3 \<and> tg_bucket msg = h then [msg] else [])"
    "buffered (dg_slk dg') h = buffered (dg_slk dg) h @ (if b4 \<and> m_slkHook msg = h then [msg] else [])"
    "buffered (dg_wh dg') h = buffered (dg_wh dg) h @ (if b5 \<and> wants_resolve msg \<and> m_whURL msg = h then [msg] else [])"
    using e assms(2) a1
    by (auto simp: enqueue_def answers_def wants_resolve_def Let_def split: prod.splits if_splits)
qed

section \<open>Immediate and digest delivery agree\<close>

lemma questions_Cons: "questions (c # cs) = questions [c] @ questions cs"
  by (simp add: questions_def)

lemma approved_Cons:
  assumes "answers r now msg a = (bs, a')"
  shows "approved r ((now, msg) # calls) a =
      map (\<lambda>(d, b). (d, msg)) (filter snd (zip [pd, di, tg, slk, wh] bs)) @ approved r calls a'"
    and "snd (gate_run (shouldNotify r) (questions ((now, msg) # calls)) a) =
      snd (gate_run (shouldNotify r) (questions calls) a')"
  unfolding approved_def questions_Cons [of "(now, msg)" calls] gate_run_append questions_one assms
  by (simp_all add: Let_def split_def)

lemma approved_for_simps [simp]:
  "approved_for d [] = []"
  "approved_for d ((d', m) # out) = (if d' = d then m # approved_for d out else approved_for d out)"
  "approved_for d (xs @ ys) = approved_for d xs @ approved_for d ys"
  by (simp_all add: approved_for_def)

lemma answers_five: "\<exists>b1 b2 b3 b4 b5 a'. answers r now msg a = ([b1, b2, b3, b4, b5], a')"
  by (simp add: answers_def Let_def split_def)

lemma deliver_run_approved:
  assumes "deliver_run r net calls a = (ps, a')"
  shows "a' = snd (gate_run (shouldNotify r) (questions calls) a) \<and>
    filter (posts_to_discord h) ps =
      map (\<lambda>m. DiscordPost h (buildDiscordMessage m)) (filter (\<lambda>m. m_discHook m = h) (approved_for di (approved r calls a))) \<and>
    filter (posts_to_slack h) ps =
      map (\<lambda>m. SlackPost h (fst (buildSlackMessage m))) (filter (\<lambda>m. m_slkHook m = h) (approved_for slk (approved r calls a))) \<and>
    map webhook_alerts (filter (posts_to_webhook P) ps) =
      map (\<lambda>m. [(m_uniqueId m, if m_resolved m then ''resolved'' else ''firing'')])
        (filter (\<lambda>m. wants_resolve m \<and> P (m_whURL m)) (approved_for wh (approved r calls a)))"
  using assms
proof (induction calls arbitrary: a ps)
  case Nil
  then show ?case by (simp add: questions_def approved_def)
next
  case (Cons c calls)
  obtain now msg where c: "c = (now, msg)" by (cases c)
  obtain b1 b2 b3 b4 b5 a1 where ans: "answers r now msg a = ([b1, b2, b3, b4, b5], a1)" using answers_five by blast
  obtain p ad where d: "deliver r now net msg a = (p, ad)" by (cases "deliver r now net msg a")
  note step = deliver_answers [OF d ans]
  obtain ps' where rest: "deliver_run r net calls a1 = (ps', a')" "ps = p @ ps'"
    using Cons.prems by (auto simp: c d step(1) split: prod.splits)
  note IH = Cons.IH [OF rest(1)]
  show ?case
    unfolding c approved_Cons [OF ans] rest(2)
    using IH step(2-4) by auto
qed

lemma digest_run_approved:
  assumes "digest_run r net calls (dg, a) = (ps, dg', a')"
  shows "a' = snd (gate_run (shouldNotify r) (questions calls) a) \<and>
    buffered (dg_disc dg') h = buffered (dg_disc dg) h @ filter (\<lambda>m. m_discHook m = h) (approved_for di (approved r calls a)) \<and>
    buffered (dg_tg dg') h = buffered (dg_tg dg) h @ filter (\<lambda>m. tg_bucket m = h) (approved_for tg (approved r calls a)) \<and>
    buffered (dg_slk dg') h = buffered (dg_slk dg) h @ filter (\<lambda>m. m_slkHook m = h) (approved_for slk (approved r calls a)) \<and>
    buffered (dg_wh dg') h = buffered (dg_wh dg) h @
      filter (\<lambda>m. wants_resolve m \<and> m_whURL m = h) (approved_for wh (approved r calls a))"
  using assms
proof (induction calls arbitrary: dg a ps)
  case Nil
  then show ?case by (simp add: questions_def approved_def)
next
  case (Cons c calls)
  obtain now msg where c: "c = (now, msg)" by (cases c)
  obtain b1 b2 b3 b4 b5 a1 where ans: "answers r now msg a = ([b1, b2, b3, b4, b5], a1)" using answers_five by blast
  obtain p dg1 ad where d: "deliver_digest r now net msg (dg, a) = (p, dg1, ad)" by (cases "deliver_digest r now net msg (dg, a)")
  note step = deliver_digest_answers [OF d ans]
  obtain ps' where rest: "digest_run r net calls (dg1, a1) = (ps', dg', a')"
    using Cons.prems by (auto simp: c d step(1) split: prod.splits)
  note IH = Cons.IH [OF rest]
  show ?case
    unfolding c approved_Cons [OF ans]
    using IH step(2-5) by auto
qed


section \<open>Flushing\<close>

definition buckets_ok :: "(alertMsg \<Rightarrow> string) \<Rightarrow> buffers \<Rightarrow> bool" where
  "buckets_ok key b \<longleftrightarrow> gm_ok b \<and> (\<forall>k ms. gm_get b k = Some ms \<longrightarrow> ms \<noteq> [] \<and> (\<forall>m \<in> set ms. key m = k))"

definition digester_ok :: "digester \<Rightarrow> bool" where
  "digester_ok dg \<longleftrightarrow> buckets_ok m_discHook (dg_disc dg) \<and> buckets_ok tg_bucket (dg_tg dg) \<and>
     buckets_ok m_slkHook (dg_slk dg) \<and> buckets_ok m_whURL (dg_wh dg)"

lemma buckets_ok_nothing [simp]: "buckets_ok key []"
  by (simp add: buckets_ok_def)

lemma buckets_ok_add: "buckets_ok key b \<Longrightarrow> key m = k \<Longrightarrow> buckets_ok key (buffer_add k m b)"
  by (cases "gm_get b k") (auto simp: buckets_ok_def buffer_add_def buffered_def)

lemma digester_ok_steps:
  assumes "digester_ok dg"
  shows "digester_ok (if c then dg\<lparr>dg_disc := buffer_add (m_discHook m) m (dg_disc dg)\<rparr> else dg)"
    and "digester_ok (if c then dg\<lparr>dg_tg := buffer_add (tg_bucket m) m (dg_tg dg)\<rparr> else dg)"
    and "digester_ok (if c then dg\<lparr>dg_slk := buffer_add (m_slkHook m) m (dg_slk dg)\<rparr> else dg)"
    and "digester_ok (if c then dg\<lparr>dg_wh := buffer_add (m_whURL m) m (dg_wh dg)\<rparr> else dg)"
  using assms by (simp_all add: digester_ok_def buckets_ok_add)

lemma digester_ok_run:
  "digest_run r net calls (dg, a) = (ps, dg', a') \<Longrightarrow> digester_ok dg \<Longrightarrow> digester_ok dg'"
proof (induction calls arbitrary: dg a ps)
  case Nil
  then show ?case by simp
next
  case (Cons c calls)
  obtain now msg where c: "c = (now, msg)" by (cases c)
  obtain p dg1 a1 where d: "deliver_digest r now net msg (dg, a) = (p, dg1, a1)" by (cases "deliver_digest r now net msg (dg, a)")
  have "digester_ok dg1"
    using d Cons.prems(2)
    by (auto simp only: deliver_digest_def enqueue_def Let_def split_def prod.case prod.inject fst_conv snd_conv
        intro!: digester_ok_steps)
  with Cons show ?case by (auto simp: c d split: prod.splits)
qed

lemma filter_one_bucket:
  assumes "buckets_ok key b"
    and "\<And>k ms. ms \<noteq> [] \<Longrightarrow> \<forall>m \<in> set ms. key m = k \<Longrightarrow> filter P (f ms) = (if k = h then [g ms] else [])"
  shows "filter P (concat (map (\<lambda>(k, ms). f ms) b)) = (if buffered b h = [] then [] else [g (buffered b h)])"
proof -
  have "distinct (map fst b)" "\<forall>(k, ms) \<in> set b. ms \<noteq> [] \<and> (\<forall>m \<in> set ms. key m = k)"
    using assms(1) unfolding buckets_ok_def gm_ok_def gm_get_def by (blast, fastforce)
  then show ?thesis
  proof (induction b)
    case Nil
    show ?case by (simp add: buffered_def gm_get_def)
  next
    case (Cons e b)
    obtain k ms where e: "e = (k, ms)" by (cases e)
    have IH: "filter P (concat (map (\<lambda>(k, ms). f ms) b)) = (if buffered b h = [] then [] else [g (buffered b h)])"
      using Cons by simp
    have one: "filter P (f ms) = (if k = h then [g ms] else [])"
      using Cons.prems by (intro assms(2)) (auto simp: e)
    have "k = h \<Longrightarrow> buffered b h = []"
      using Cons.prems(1) by (auto simp: e buffered_def gm_get_def dest!: map_of_SomeD split: option.splits)
        (metis fst_conv image_eqI)
    moreover have "buffered (e # b) h = (if k = h then ms else buffered b h)"
      by (simp add: e buffered_def gm_get_def)
    moreover have "ms \<noteq> []" using Cons.prems by (auto simp: e)
    ultimately show ?case using IH one by (auto simp: e)
  qed
qed

lemma filter_no_bucket:
  "\<forall>(k, ms) \<in> set b. filter P (f ms) = [] \<Longrightarrow> filter P (concat (map (\<lambda>(k, ms). f ms) b)) = []"
  by (induction b) auto

lemma digest_posts [simp]:
  "filter (posts_to_discord h) (snd (notifyTgDigest net ms)) = []"
  "filter (posts_to_slack h) (snd (notifyTgDigest net ms)) = []"
  "filter (posts_to_webhook P) (snd (notifyTgDigest net ms)) = []"
  "filter (posts_to_slack h) (snd (notifyDiscordDigest net ms)) = []"
  "filter (posts_to_webhook P) (snd (notifyDiscordDigest net ms)) = []"
  "filter (posts_to_discord h) (snd (notifySlackDigest net ms)) = []"
  "filter (posts_to_webhook P) (snd (notifySlackDigest net ms)) = []"
  "filter (posts_to_discord h) (snd (notifyWebhookDigest now net ms)) = []"
  "filter (posts_to_slack h) (snd (notifyWebhookDigest now net ms)) = []"
  by (auto simp: notifyTgDigest_def tg_send_def notifyDiscordDigest_def notifySlackDigest_def notifyWebhookDigest_def Let_def
      split: list.split option.split)

text \<open>
  A flush sends every bucket once and empties it. Whatever sequence of messages filled the
  digester, a flush makes exactly one Discord post for every hook with pending messages, one
  Slack post and one webhook post likewise, each built from all pending messages of that
  destination, no other post to these services, and leaves nothing pending.
\<close>

lemma flush_sends_each_bucket_once:
  "let (qs, dg, a') = digest_run reminder net calls (newDigester interval, a);
       (ps, dg') = flush now net dg
   in filter (posts_to_discord h) ps =
        (if buffered (dg_disc dg) h = [] then [] else [DiscordPost h (buildDiscordDigestMessage (buffered (dg_disc dg) h))]) \<and>
      filter (posts_to_slack h) ps =
        (if buffered (dg_slk dg) h = [] then [] else [SlackPost h (the (buildSlackDigestMessage (buffered (dg_slk dg) h)))]) \<and>
      filter (posts_to_webhook (\<lambda>u. u = h)) ps =
        (if buffered (dg_wh dg) h = [] then [] else [WebhookPost h (buildWebhookDigestPayload now (buffered (dg_wh dg) h))]) \<and>
      dg' = newDigester (dg_interval dg)"
proof -
  obtain qs dg a' where d: "digest_run reminder net calls (newDigester interval, a) = (qs, dg, a')"
    by (cases "digest_run reminder net calls (newDigester interval, a)")
  have "digester_ok (newDigester interval)" by (simp add: digester_ok_def newDigester_def)
  with d have ok: "digester_ok dg" by (rule digester_ok_run)
  let ?cd = "concat (map (\<lambda>(k, msgs). snd (notifyDiscordDigest net msgs)) (dg_disc dg))"
  let ?cs = "concat (map (\<lambda>(k, msgs). snd (notifySlackDigest net msgs)) (dg_slk dg))"
  let ?cw = "concat (map (\<lambda>(k, msgs). snd (notifyWebhookDigest now net msgs)) (dg_wh dg))"
  let ?ct = "concat (map (\<lambda>(k, msgs). snd (notifyTgDigest net msgs)) (dg_tg dg))"
  have "filter (posts_to_discord h) ?cd =
      (if buffered (dg_disc dg) h = [] then [] else [DiscordPost h (buildDiscordDigestMessage (buffered (dg_disc dg) h))])"
    using ok by (intro filter_one_bucket [of m_discHook])
      (auto simp: digester_ok_def notifyDiscordDigest_def Let_def split: list.split option.split)
  moreover have "filter (posts_to_slack h) ?cs =
      (if buffered (dg_slk dg) h = [] then [] else [SlackPost h (the (buildSlackDigestMessage (buffered (dg_slk dg) h)))])"
    using ok by (intro filter_one_bucket [of m_slkHook])
      (auto simp: digester_ok_def notifySlackDigest_def buildSlackDigestMessage_def Let_def split: list.split option.split)
  moreover have "filter (posts_to_webhook (\<lambda>u. u = h)) ?cw =
      (if buffered (dg_wh dg) h = [] then [] else [WebhookPost h (buildWebhookDigestPayload now (buffered (dg_wh dg) h))])"
    using ok by (intro filter_one_bucket [of m_whURL])
      (auto simp: digester_ok_def notifyWebhookDigest_def Let_def split: list.split option.split)
  moreover have "filter (posts_to_slack h) ?cd = []" "filter (posts_to_webhook (\<lambda>u. u = h)) ?cd = []"
      "filter (posts_to_discord h) ?cs = []" "filter (posts_to_webhook (\<lambda>u. u = h)) ?cs = []"
      "filter (posts_to_discord h) ?cw = []" "filter (posts_to_slack h) ?cw = []"
    by (rule filter_no_bucket, simp)+
  moreover have "filter (posts_to_discord h) ?ct = []" "filter (posts_to_slack h) ?ct = []"
      "filter (posts_to_webhook (\<lambda>u. u = h)) ?ct = []"
    by (rule filter_no_bucket, simp)+
  ultimately show ?thesis
    unfolding d flush_def Let_def prod.case filter_append by (cases dg) (simp add: newDigester_def)
qed

section \<open>End to end\<close>

lemma questions_calls: "(t, d, m) \<in> set (questions calls) \<Longrightarrow> (t, m) \<in> set calls"
  by (auto simp: questions_def simp del: filter.simps list.map)

lemma gate_run_asked: "(d, m) \<in> set (fst (gate_run g qs a)) \<Longrightarrow> \<exists>t. (t, d, m) \<in> set qs"
proof (induction qs arbitrary: a)
  case (Cons q qs)
  obtain t d' m' where q: "q = (t, d', m')" by (cases q)
  obtain ok a' where "g t m' d' a = (ok, a')" by fastforce
  from fst_gate_run [of g, OF this, of qs] Cons show ?case
    by (auto simp: q simp del: gate_run.simps split: if_splits)
qed simp

lemma alternates_map_filter:
  "map m_resolved (filter (\<lambda>m. m_uniqueId m = i) (approved_for d out)) =
   map (m_resolved \<circ> snd) (filter (\<lambda>(d', m). d' = d \<and> m_uniqueId m = i) out)"
  by (induction out) (auto simp: approved_for_def)

text \<open>
  C2: A webhook receiver sees every alert fire and resolve in turn. For messages with resolve
  notifications enabled, immediate delivery makes one post per approved alert, and the posts
  about one alert id, over all URLs, carry the statuses firing, resolved, firing and so on,
  starting with firing if the alert was not on record as sent; whatever the network answers.
\<close>

theorem webhook_statuses_alternate:
  assumes "\<not> HasPrefix i governance_prefix" "\<forall>(now, msg) \<in> set calls. \<not> IsZero now \<and> wants_resolve msg"
  shows "let (ps, a') = deliver_run reminder net calls a in
    alternates (is_sent wh i a)
      (map (\<lambda>(f, st). st = ''resolved'')
        (filter (\<lambda>(f, st). f = i) (concat (map webhook_alerts (filter (posts_to_webhook (\<lambda>u. True)) ps)))))"
proof -
  obtain ps a' where d: "deliver_run reminder net calls a = (ps, a')" by (cases "deliver_run reminder net calls a")
  let ?ms = "approved_for wh (approved reminder calls a)"
  have clock: "\<forall>(t, d', m) \<in> set (questions calls). clock_ok t"
    using assms(2) by (auto simp: clock_ok_def dest!: questions_calls)
  have "\<forall>m \<in> set ?ms. wants_resolve m"
    using assms(2) by (auto simp: approved_for_def approved_def dest!: gate_run_asked questions_calls)
  then have "filter (\<lambda>m. wants_resolve m \<and> True) ?ms = ?ms" by simp
  then have posts: "map webhook_alerts (filter (posts_to_webhook (\<lambda>u. True)) ps) =
      map (\<lambda>m. [(m_uniqueId m, if m_resolved m then ''resolved'' else ''firing'')]) ?ms"
    using deliver_run_approved [OF d, of "[]" "\<lambda>u. True"] by simp
  have flat: "map (\<lambda>(f, st). st = ''resolved'') (filter (\<lambda>(f, st). f = i)
      (concat (map (\<lambda>m. [(m_uniqueId m, if m_resolved m then ''resolved'' else ''firing'')]) ms))) =
      map m_resolved (filter (\<lambda>m. m_uniqueId m = i) ms)" for ms
    by (induction ms) auto
  have "alternates (is_sent wh i a) (map m_resolved (filter (\<lambda>m. m_uniqueId m = i) ?ms))"
    using ng.accepted_alternate [of i "questions calls" wh a reminder] assms(1) clock
    by (simp add: alternates_map_filter ng.flags_def approved_def plain_id_def)
  then show ?thesis
    unfolding d Let_def prod.case posts flat .
qed

section \<open>One destination at a time\<close>

lemma approve_frame: "d' \<noteq> d \<Longrightarrow> is_sent d' i (snd (approve r now m d a)) = is_sent d' i a"
  using shouldNotify_frame [of d' i d m r now a] by (simp add: approve_def)

lemma approve_decision:
  assumes "plain_id (m_uniqueId m)" "clock_ok now" "d \<noteq> pd"
  shows "fst (approve r now m d a) \<longleftrightarrow> enabled m d \<and> severity_ok m d \<and> is_sent d (m_uniqueId m) a = m_resolved m"
    and "is_sent d (m_uniqueId m) (snd (approve r now m d a)) =
      (if fst (approve r now m d a) then \<not> m_resolved m else is_sent d (m_uniqueId m) a)"
  using assms shouldNotify_decision [of m r now d a] shouldNotify_sent_after [of m now d r a]
  by (auto simp: approve_def)

lemma answers_di:
  assumes "plain_id (m_uniqueId m)" "clock_ok now" "answers r now m a = ([b1, b2, b3, b4, b5], a')"
  shows "b2 \<longleftrightarrow> m_disc m \<and> severity_ok m di \<and> is_sent di (m_uniqueId m) a = m_resolved m"
    and "is_sent di (m_uniqueId m) a' = (if b2 then \<not> m_resolved m else is_sent di (m_uniqueId m) a)"
proof -
  let ?i = "m_uniqueId m"
  obtain x1 a1 where 1: "approve r now m pd a = (x1, a1)" by (cases "approve r now m pd a")
  obtain x2 a2 where 2: "approve r now m di a1 = (x2, a2)" by (cases "approve r now m di a1")
  obtain x3 a3 where 3: "approve r now m tg a2 = (x3, a3)" by (cases "approve r now m tg a2")
  obtain x4 a4 where 4: "approve r now m slk a3 = (x4, a4)" by (cases "approve r now m slk a3")
  obtain x5 a5 where 5: "approve r now m wh a4 = (x5, a5)" by (cases "approve r now m wh a4")
  have b: "b2 = x2" "a' = a5" using assms(3) by (simp_all add: answers_def 1 2 3 4 5)
  have "is_sent di ?i a1 = is_sent di ?i a" "is_sent di ?i a5 = is_sent di ?i a2"
    using approve_frame [of di pd ?i r now m a] approve_frame [of di tg ?i r now m a2]
      approve_frame [of di slk ?i r now m a3] approve_frame [of di wh ?i r now m a4] by (simp_all add: 1 3 4 5)
  then show "b2 \<longleftrightarrow> m_disc m \<and> severity_ok m di \<and> is_sent di ?i a = m_resolved m"
    and "is_sent di ?i a' = (if b2 then \<not> m_resolved m else is_sent di ?i a)"
    using approve_decision [OF assms(1,2), of di r a1] by (simp_all add: b 2 enabled_def)
qed

lemma deliver_discord:
  assumes "plain_id (m_uniqueId m)" "clock_ok now" "deliver r now net m a = (ps, a')"
  shows "let yes = (m_disc m \<and> severity_ok m di \<and> is_sent di (m_uniqueId m) a = m_resolved m)
    in filter (posts_to_discord h) ps =
         (if yes \<and> m_discHook m = h then [DiscordPost h (buildDiscordMessage m)] else []) \<and>
       is_sent di (m_uniqueId m) a' = (if yes then \<not> m_resolved m else is_sent di (m_uniqueId m) a)"
proof -
  obtain b1 b2 b3 b4 b5 a1 where ans: "answers r now m a = ([b1, b2, b3, b4, b5], a1)" using answers_five by blast
  show ?thesis
    using answers_di [OF assms(1,2) ans] deliver_answers(1,2) [OF assms(3) ans] by (simp add: Let_def)
qed

lemma not_sent_again:
  assumes "\<forall>(now, m) \<in> set calls. clock_ok now \<and> m_uniqueId m = i \<and> \<not> m_resolved m" "plain_id i" "is_sent di i a"
  shows "filter (posts_to_discord h) (fst (deliver_run r net calls a)) = []"
  using assms
proof (induction calls arbitrary: a)
  case (Cons c calls)
  obtain now m where c: "c = (now, m)" by (cases c)
  obtain ps a1 where d: "deliver r now net m a = (ps, a1)" by (cases "deliver r now net m a")
  have "filter (posts_to_discord h) ps = []" "is_sent di i a1"
    using deliver_discord [OF _ _ d, of h] Cons.prems by (auto simp: c Let_def)
  with Cons show ?case by (simp add: c d Let_def split_def)
qed simp

text \<open>
  A failed post is not repeated. With a network on which every request fails, all firing
  messages of one alert, delivered one after the other, lead to at most one attempt at a Discord
  hook: \<^verbatim>\<open>shouldNotify\<close> records the alert as sent before the request is made and nothing takes
  that back.
\<close>

lemma failed_delivery_not_retried:
  assumes "\<not> HasPrefix i governance_prefix"
    "\<forall>(now, m) \<in> set calls. \<not> IsZero now \<and> m_uniqueId m = i \<and> \<not> m_resolved m"
  shows "length (filter (posts_to_discord h) (fst (deliver_run reminder (\<lambda>post. None) calls a))) \<le> 1"
  using assms(2)
proof (induction calls arbitrary: a)
  case (Cons c calls)
  obtain now m where c: "c = (now, m)" by (cases c)
  obtain ps a1 where d: "deliver reminder now (\<lambda>post. None) m a = (ps, a1)"
    by (cases "deliver reminder now (\<lambda>post. None) m a")
  have plain: "plain_id i" using assms(1) by (simp add: plain_id_def)
  have calls: "\<forall>(now, m) \<in> set calls. clock_ok now \<and> m_uniqueId m = i \<and> \<not> m_resolved m"
    using Cons.prems by (auto simp: clock_ok_def)
  have step: "filter (posts_to_discord h) ps = [] \<or>
      length (filter (posts_to_discord h) ps) = 1 \<and> is_sent di i a1"
    using deliver_discord [OF _ _ d, of h] Cons.prems plain by (auto simp: c clock_ok_def Let_def)
  have "fst (deliver_run reminder (\<lambda>post. None) (c # calls) a) = ps @ fst (deliver_run reminder (\<lambda>post. None) calls a1)"
    by (simp add: c d Let_def split_def)
  with step Cons.IH [of a1] Cons.prems not_sent_again [OF calls plain, of a1 h reminder "\<lambda>post. None"]
  show ?case by auto
qed simp

text \<open>
  Delivery order matters, and the program does not fix it: \<^verbatim>\<open>Run\<close> starts one goroutine per
  message. If the goroutine of a resolution runs before the one of the firing message it
  resolves, the resolution is dropped, the firing message is posted, and the alert stays on
  record as sent, so that further firing messages of the alert are dropped too.
\<close>

lemma overtaking_resolution_leaves_alert_open:
  assumes "\<not> HasPrefix i governance_prefix" "\<not> IsZero t1" "\<not> IsZero t2" "\<not> is_sent di i a"
    and "m_uniqueId fire = i" "\<not> m_resolved fire" "m_disc fire" "severity_ok fire di"
    and "m_uniqueId resolve = i" "m_resolved resolve"
  shows "let (ps, a') = deliver_run reminder net [(t1, resolve), (t2, fire)] a
    in filter (posts_to_discord (m_discHook fire)) ps = [DiscordPost (m_discHook fire) (buildDiscordMessage fire)] \<and>
       is_sent di i a' \<and>
       (\<forall>t3 again. m_uniqueId again = i \<and> \<not> m_resolved again \<longrightarrow> \<not> fst (shouldNotify reminder t3 again di a'))"
proof -
  obtain p1 a1 where d1: "deliver reminder t1 net resolve a = (p1, a1)" by (cases "deliver reminder t1 net resolve a")
  obtain p2 a2 where d2: "deliver reminder t2 net fire a1 = (p2, a2)" by (cases "deliver reminder t2 net fire a1")
  have ok: "plain_id i" "clock_ok t1" "clock_ok t2" using assms(1-3) by (simp_all add: plain_id_def clock_ok_def)
  have 1: "filter (posts_to_discord (m_discHook fire)) p1 = []" "\<not> is_sent di i a1"
    using deliver_discord [OF _ _ d1, of "m_discHook fire"] ok assms by (simp_all add: Let_def)
  have 2: "filter (posts_to_discord (m_discHook fire)) p2 = [DiscordPost (m_discHook fire) (buildDiscordMessage fire)]"
      "is_sent di i a2"
    using deliver_discord [OF _ _ d2, of "m_discHook fire"] ok assms 1(2) by (simp_all add: Let_def)
  have "\<not> fst (shouldNotify reminder t3 again di a2)" if "m_uniqueId again = i" "\<not> m_resolved again" for t3 again
    using that ok(1) 2(2) by (simp add: shouldNotify_decision)
  then show ?thesis using 1 2 by (simp add: d1 d2)
qed

section \<open>The theorems on concrete messages\<close>

definition sample_msg :: "string \<Rightarrow> bool \<Rightarrow> alertMsg" where
  "sample_msg i r = alert_message (sample_sys sample_chain no_alarms) ''net'' ''down'' ''critical'' r i"

lemma sample_msg_simps [simp]:
  "m_uniqueId (sample_msg i r) = i" "m_resolved (sample_msg i r) = r" "m_disc (sample_msg i r)"
  "wants_resolve (sample_msg i r)" "severity_ok (sample_msg i r) di"
proof -
  have c: "chain_of (sample_sys sample_chain no_alarms) ''net'' = Some sample_chain" by simp
  show "m_uniqueId (sample_msg i r) = i" "m_resolved (sample_msg i r) = r"
    unfolding sample_msg_def using alert_message_simps [OF c] by simp_all
  show "wants_resolve (sample_msg i r)"
    unfolding sample_msg_def wants_resolve_def using alert_message_simps(5) [OF c]
    by (simp add: sample_chain_def sample_alerts_def)
  show "severity_ok (sample_msg i r) di"
    unfolding sample_msg_def severity_ok_def using alert_message_simps(3) [OF c] by (simp add: critical_always_allowed)
  show "m_disc (sample_msg i r)"
    by (simp add: sample_msg_def alert_message_def buildAlertMsg_def sample_sys_def sample_config_def sample_chain_def
        sample_alerts_def gm_get_def Let_def)
qed

theorem webhook_statuses_alternate_witness:
  "let (ps, a') = deliver_run 6 (\<lambda>post. Some 200) [(noon, sample_msg ''A'' False), (noon, sample_msg ''A'' True)] no_alarms
   in alternates False (map (\<lambda>(f, st). st = ''resolved'')
        (filter (\<lambda>(f, st). f = ''A'') (concat (map webhook_alerts (filter (posts_to_webhook (\<lambda>u. True)) ps)))))"
proof -
  have "\<forall>(now, msg) \<in> set [(noon, sample_msg ''A'' False), (noon, sample_msg ''A'' True)]. \<not> IsZero now \<and> wants_resolve msg"
    by simp
  from webhook_statuses_alternate [OF _ this, of "''A''" 6 "\<lambda>post. Some 200" no_alarms] show ?thesis
    by (simp add: HasPrefix_def governance_prefix_def del: deliver_run.simps)
qed

lemma failed_delivery_not_retried_witness:
  "length (filter (posts_to_discord ''https://d'') (fst (deliver_run 6 (\<lambda>post. None)
     [(noon, sample_msg ''A'' False), (noon + Hour, sample_msg ''A'' False)] no_alarms))) \<le> 1"
proof -
  have "\<not> IsZero (noon + Hour)" by (simp add: noon_def time_defs)
  then have "\<forall>(now, m) \<in> set [(noon, sample_msg ''A'' False), (noon + Hour, sample_msg ''A'' False)].
      \<not> IsZero now \<and> m_uniqueId m = ''A'' \<and> \<not> m_resolved m" by simp
  then show ?thesis
    by (intro failed_delivery_not_retried [of "''A''"]) (simp_all add: HasPrefix_def governance_prefix_def)
qed

lemma overtaking_resolution_leaves_alert_open_witness:
  "is_sent di ''A'' (snd (deliver_run 6 (\<lambda>post. Some 204) [(noon, sample_msg ''A'' True), (noon, sample_msg ''A'' False)] no_alarms))"
  using overtaking_resolution_leaves_alert_open [of "''A''" noon noon no_alarms "sample_msg ''A'' False" "sample_msg ''A'' True" 6
      "\<lambda>post. Some 204"]
  by (simp add: HasPrefix_def governance_prefix_def split_def Let_def del: deliver_run.simps)

end
