(* ===== verification/Escalation.thy ===== *)
theory Escalation
  imports Dispatch
begin

text \<open>
  The escalation sweep of \<^verbatim>\<open>td2/escalation.go\<close>: a critical alarm that has been active for the
  threshold is sent once more under the id \<^verbatim>\<open><id>_escalated\<close>. The ticker is not modelled; a sweep is
  one call of \<open>checkEscalations\<close>. The whole minutes of the threshold are its integer quotient.
\<close>

definition escalation_prefix :: string where
  "escalation_prefix = [CHR 0xF0, CHR 0x9F, CHR 0x94, CHR 0xBA] @ '' ESCALATION: still unresolved after ''"

definition em_dash :: string where
  "em_dash = [CHR 0xE2, CHR 0x80, CHR 0x94]"

record escalationCandidate =
  ec_chain :: string
  ec_alertID :: string
  ec_message :: string

definition overdue :: "gotime \<Rightarrow> duration \<Rightarrow> alertMsgCache \<Rightarrow> bool" where
  "overdue now threshold e \<longleftrightarrow>
     amc_Severity e = ''critical'' \<and> \<not> amc_Escalated e \<and> threshold \<le> time_Sub now (amc_SentTime e)"

definition escalation_due :: "gotime \<Rightarrow> duration \<Rightarrow> alarmCache \<Rightarrow> escalationCandidate list" where
  "escalation_due now threshold a =
     concat (map (\<lambda>(chain, byID).
       map (\<lambda>(i, e). \<lparr>ec_chain = chain, ec_alertID = i, ec_message = amc_Message e\<rparr>)
         (filter (\<lambda>(i, e). overdue now threshold e) byID)) (AllAlarms a))"

definition escalated_id :: "string \<Rightarrow> string" where
  "escalated_id i = i @ ''_escalated''"

definition escalate :: "gotime \<Rightarrow> duration \<Rightarrow> escalationCandidate \<Rightarrow> sys \<Rightarrow> sys" where
  "escalate now threshold cand s =
     (case chain_of s (ec_chain cand) of
        None \<Rightarrow> s
      | Some cc \<Rightarrow>
          if fst (silenceStatus now cc) then s
          else case buildAlertMsg (td s) (ec_chain cand)
                 (escalation_prefix @ itoa (threshold div Minute) @ ''+ min '' @ em_dash @ '' '' @ ec_message cand)
                 ''critical'' False (escalated_id (ec_alertID cand)) of
            None \<Rightarrow> s
          | Some (msg0, _) \<Rightarrow>
              let msg = msg0\<lparr>m_pd := False\<rparr>
              in case gm2_get (AllAlarms (alarms s)) (ec_chain cand) (ec_alertID cand) of
                   None \<Rightarrow> s
                 | Some entry \<Rightarrow>
                     if amc_Escalated entry then s
                     else
                       let s1 = s\<lparr>alarms := (alarms s)\<lparr>AllAlarms :=
                             gm2_set (ec_chain cand) (ec_alertID cand) (entry\<lparr>amc_Escalated := True\<rparr>) (AllAlarms (alarms s))\<rparr>\<rparr>;
                           s2 = recordAlertHistory now cc (m_message msg) (m_severity msg) (m_resolved msg) s1
                       in s2\<lparr>alertChan := alertChan s2 @ [msg]\<rparr>)"

definition checkEscalations :: "gotime \<Rightarrow> duration \<Rightarrow> sys \<Rightarrow> sys" where
  "checkEscalations now threshold s = fold (escalate now threshold) (escalation_due now threshold (alarms s)) s"

section \<open>Who is due\<close>

definition alarm_maps_ok :: "alarmCache \<Rightarrow> bool" where
  "alarm_maps_ok a \<longleftrightarrow> gm_ok (AllAlarms a) \<and> alarms_ok a"

lemma escalation_due_iff:
  assumes "alarm_maps_ok a"
  shows "cand \<in> set (escalation_due now threshold a) \<longleftrightarrow>
    (\<exists>e. gm2_get (AllAlarms a) (ec_chain cand) (ec_alertID cand) = Some e \<and> overdue now threshold e \<and>
       ec_message cand = amc_Message e)"
proof -
  have mem: "(c, byID) \<in> set (AllAlarms a) \<longleftrightarrow> gm_get (AllAlarms a) c = Some byID" for c byID
    using assms by (simp add: alarm_maps_ok_def gm_ok_def gm_get_def)
  have inner: "(i, e) \<in> set byID \<longleftrightarrow> gm_get byID i = Some e" if "gm_get (AllAlarms a) c = Some byID" for c byID i e
  proof -
    have "gm_ok byID" using assms that by (auto simp: alarm_maps_ok_def alarms_ok_def)
    then show ?thesis by (simp add: gm_ok_def gm_get_def)
  qed
  have "cand \<in> set (escalation_due now threshold a) \<longleftrightarrow>
      (\<exists>c byID i e. (c, byID) \<in> set (AllAlarms a) \<and> (i, e) \<in> set byID \<and> overdue now threshold e \<and>
        cand = \<lparr>ec_chain = c, ec_alertID = i, ec_message = amc_Message e\<rparr>)"
    by (fastforce simp: escalation_due_def)
  also have "\<dots> \<longleftrightarrow> (\<exists>byID e. gm_get (AllAlarms a) (ec_chain cand) = Some byID \<and> gm_get byID (ec_alertID cand) = Some e \<and>
        overdue now threshold e \<and> ec_message cand = amc_Message e)"
    using mem inner by (cases cand) fastforce
  also have "\<dots> \<longleftrightarrow> (\<exists>e. gm2_get (AllAlarms a) (ec_chain cand) (ec_alertID cand) = Some e \<and> overdue now threshold e \<and>
       ec_message cand = amc_Message e)"
    by (auto simp: gm2_get_def split: option.splits)
  finally show ?thesis .
qed

abbreviation candidate_key :: "escalationCandidate \<Rightarrow> string \<times> string" where
  "candidate_key c \<equiv> (ec_chain c, ec_alertID c)"

lemma keys_of_inner:
  "distinct (map fst byID) \<Longrightarrow>
   distinct (map candidate_key (map (\<lambda>(i, e). \<lparr>ec_chain = c, ec_alertID = i, ec_message = amc_Message e\<rparr>) (filter P byID)))"
  by (induction byID) (auto simp: rev_image_eqI)

lemma disjoint_keys:
  "\<forall>x \<in> B. f x \<noteq> c \<Longrightarrow> \<forall>x \<in> A. f x = c \<Longrightarrow> (\<lambda>x. (f x, g x)) ` A \<inter> (\<lambda>x. (f x, g x)) ` B = {}"
  by auto

lemma escalation_due_distinct:
  assumes "alarm_maps_ok a"
  shows "distinct (map candidate_key (escalation_due now threshold a))"
proof -
  let ?f = "\<lambda>(chain, byID). map (\<lambda>(i, e). \<lparr>ec_chain = chain, ec_alertID = i, ec_message = amc_Message e\<rparr>)
         (filter (\<lambda>(i, e). overdue now threshold e) byID)"
  have "distinct (map candidate_key (concat (map ?f m)))"
    if "distinct (map fst m)" "\<forall>(c, byID) \<in> set m. distinct (map fst byID)" for m :: "(string, sent_map) gomap"
    using that
  proof (induction m)
    case (Cons cb m)
    obtain c byID where cb: "cb = (c, byID)" by (cases cb)
    have "\<forall>x \<in> set (concat (map ?f m)). ec_chain x \<noteq> c"
      using Cons.prems(1) by (force simp: cb)
    moreover have "\<forall>x \<in> set (?f (c, byID)). ec_chain x = c" by auto
    ultimately have "set (map candidate_key (?f (c, byID))) \<inter> set (map candidate_key (concat (map ?f m))) = {}"
      unfolding set_map by (intro disjoint_keys)
    moreover have "distinct (map candidate_key (concat (map ?f m)))"
      using Cons by simp
    moreover have "concat (map ?f (cb # m)) = ?f (c, byID) @ concat (map ?f m)" by (simp only: cb list.map concat.simps)
    ultimately show ?case
      using keys_of_inner [of byID c "\<lambda>(i, e). overdue now threshold e"] Cons.prems
      by (simp only: map_append distinct_append) (simp add: cb)
  qed simp
  moreover have "distinct (map fst (AllAlarms a))" "\<forall>(c, byID) \<in> set (AllAlarms a). distinct (map fst byID)"
    using assms by (auto simp: alarm_maps_ok_def alarms_ok_def gm_ok_def gm_get_def)
  ultimately show ?thesis by (simp add: escalation_due_def)
qed

section \<open>What a sweep does\<close>

text \<open>Whether a candidate can be escalated now: its chain is configured and not silenced.\<close>

definition reachable_chain :: "gotime \<Rightarrow> sys \<Rightarrow> string \<Rightarrow> bool" where
  "reachable_chain now s c \<longleftrightarrow> (case chain_of s c of None \<Rightarrow> False | Some cc \<Rightarrow> \<not> silenced now cc)"

lemma escalate_skip: "\<not> reachable_chain now s (ec_chain cand) \<Longrightarrow> escalate now threshold cand s = s"
  by (auto simp: escalate_def reachable_chain_def split: option.splits)

lemma escalate_send:
  assumes "reachable_chain now s (ec_chain cand)"
    "gm2_get (AllAlarms (alarms s)) (ec_chain cand) (ec_alertID cand) = Some e" "\<not> amc_Escalated e"
  shows "\<exists>m. alertChan (escalate now threshold cand s) = alertChan s @ [m] \<and>
      m_uniqueId m = escalated_id (ec_alertID cand) \<and> \<not> m_pd m \<and> \<not> m_resolved m \<and> m_severity m = ''critical'' \<and>
      alarms (escalate now threshold cand s) = (alarms s)\<lparr>AllAlarms :=
        gm2_set (ec_chain cand) (ec_alertID cand) (e\<lparr>amc_Escalated := True\<rparr>) (AllAlarms (alarms s))\<rparr> \<and>
      td (escalate now threshold cand s) = td s"
proof -
  obtain cc where c: "chain_of s (ec_chain cand) = Some cc" "\<not> silenced now cc"
    using assms(1) by (auto simp: reachable_chain_def split: option.splits)
  let ?text = "escalation_prefix @ itoa (threshold div Minute) @ ''+ min '' @ em_dash @ '' '' @ ec_message cand"
  obtain m where "buildAlertMsg (td s) (ec_chain cand) ?text ''critical'' False (escalated_id (ec_alertID cand)) = Some (m, cc)"
      "m_uniqueId m = escalated_id (ec_alertID cand)" "m_severity m = ''critical''" "\<not> m_resolved m"
    using c(1) buildAlertMsg_Some [of "td s" "ec_chain cand" cc] unfolding chain_of_def by blast
  then show ?thesis
    using c assms(2,3) by (simp add: escalate_def Let_def)
qed

lemma reachable_chain_cong: "td s' = td s \<Longrightarrow> reachable_chain now s' c = reachable_chain now s c"
  by (simp add: reachable_chain_def chain_of_def)

lemma sweep_result:
  assumes "\<forall>c \<in> set cands. \<exists>e. gm2_get (AllAlarms (alarms s)) (ec_chain c) (ec_alertID c) = Some e \<and> \<not> amc_Escalated e"
    and "distinct (map candidate_key cands)"
  shows "\<exists>out. alertChan (fold (escalate now threshold) cands s) = alertChan s @ out \<and>
    map m_uniqueId out = map (escalated_id \<circ> ec_alertID) (filter (\<lambda>c. reachable_chain now s (ec_chain c)) cands) \<and>
    (\<forall>m \<in> set out. \<not> m_pd m \<and> \<not> m_resolved m \<and> m_severity m = ''critical'') \<and>
    (\<forall>c i. gm2_get (AllAlarms (alarms (fold (escalate now threshold) cands s))) c i =
       (if reachable_chain now s c \<and> (c, i) \<in> candidate_key ` set cands
        then map_option (\<lambda>e. e\<lparr>amc_Escalated := True\<rparr>) (gm2_get (AllAlarms (alarms s)) c i)
        else gm2_get (AllAlarms (alarms s)) c i)) \<and>
    td (fold (escalate now threshold) cands s) = td s \<and>
    (\<forall>d. sent_of d (alarms (fold (escalate now threshold) cands s)) = sent_of d (alarms s))"
  using assms
proof (induction cands arbitrary: s)
  case Nil
  show ?case by (intro exI [of _ "[]"]) simp
next
  case (Cons cand cands)
  obtain e where e: "gm2_get (AllAlarms (alarms s)) (ec_chain cand) (ec_alertID cand) = Some e" "\<not> amc_Escalated e"
    using Cons.prems(1) by auto
  have fresh: "candidate_key cand \<notin> candidate_key ` set cands" using Cons.prems(2) by simp
  have other: "\<forall>c \<in> set cands. candidate_key c \<noteq> candidate_key cand"
  proof (intro ballI notI)
    fix c assume c: "c \<in> set cands" "candidate_key c = candidate_key cand"
    from c(1) have "candidate_key c \<in> candidate_key ` set cands" by (rule imageI)
    with fresh show False unfolding c(2) by contradiction
  qed
  show ?case
  proof (cases "reachable_chain now s (ec_chain cand)")
    case False
    with Cons.IH [of s] Cons.prems show ?thesis by (fastforce simp: escalate_skip)
  next
    case True
    let ?s1 = "escalate now threshold cand s"
    obtain m where m: "alertChan ?s1 = alertChan s @ [m]" "m_uniqueId m = escalated_id (ec_alertID cand)" "\<not> m_pd m"
        "\<not> m_resolved m" "m_severity m = ''critical''"
        "alarms ?s1 = (alarms s)\<lparr>AllAlarms :=
          gm2_set (ec_chain cand) (ec_alertID cand) (e\<lparr>amc_Escalated := True\<rparr>) (AllAlarms (alarms s))\<rparr>" "td ?s1 = td s"
      using escalate_send [OF True e] by blast
    have "\<forall>c \<in> set cands. \<exists>e. gm2_get (AllAlarms (alarms ?s1)) (ec_chain c) (ec_alertID c) = Some e \<and> \<not> amc_Escalated e"
      using Cons.prems(1) other by (auto simp: m(6))
    then obtain out where out: "alertChan (fold (escalate now threshold) cands ?s1) = alertChan ?s1 @ out"
        "map m_uniqueId out = map (escalated_id \<circ> ec_alertID) (filter (\<lambda>c. reachable_chain now ?s1 (ec_chain c)) cands)"
        "\<forall>m \<in> set out. \<not> m_pd m \<and> \<not> m_resolved m \<and> m_severity m = ''critical''"
        "\<forall>c i. gm2_get (AllAlarms (alarms (fold (escalate now threshold) cands ?s1))) c i =
           (if reachable_chain now ?s1 c \<and> (c, i) \<in> candidate_key ` set cands
            then map_option (\<lambda>e. e\<lparr>amc_Escalated := True\<rparr>) (gm2_get (AllAlarms (alarms ?s1)) c i)
            else gm2_get (AllAlarms (alarms ?s1)) c i)"
        "td (fold (escalate now threshold) cands ?s1) = td ?s1"
        "\<forall>d. sent_of d (alarms (fold (escalate now threshold) cands ?s1)) = sent_of d (alarms ?s1)"
      using Cons.IH [of ?s1] Cons.prems(2) by auto
    have r: "reachable_chain now ?s1 c = reachable_chain now s c" for c using m(7) by (rule reachable_chain_cong)
    have "gm2_get (AllAlarms (alarms (fold (escalate now threshold) cands ?s1))) c i =
        (if reachable_chain now s c \<and> (c, i) \<in> candidate_key ` set (cand # cands)
         then map_option (\<lambda>e. e\<lparr>amc_Escalated := True\<rparr>) (gm2_get (AllAlarms (alarms s)) c i)
         else gm2_get (AllAlarms (alarms s)) c i)" for c i
      using out(4) True e fresh by (auto simp: r m(6))
    then show ?thesis
      using out m True by (intro exI [of _ "m # out"]) (simp add: r)
  qed
qed

text \<open>
  C25: An alarm is escalated once. A sweep dispatches one escalation, never to PagerDuty, for
  exactly the alarms that are critical, old enough, not escalated yet and on a configured chain
  outside a maintenance window; no alarm appears or disappears; and an alarm escalated now is
  not due at any later sweep, whatever its threshold, while an overdue alarm of a silenced
  chain stays due.
\<close>

theorem checkEscalations_once:
  assumes "alarm_maps_ok (alarms s)"
  shows "\<exists>cands out. let s1 = checkEscalations now threshold s in
    alertChan s1 = alertChan s @ out \<and> distinct cands \<and>
    (\<forall>c i. (c, i) \<in> set cands \<longleftrightarrow> reachable_chain now s c \<and>
       (\<exists>e. gm2_get (AllAlarms (alarms s)) c i = Some e \<and> overdue now threshold e)) \<and>
    map m_uniqueId out = map (\<lambda>(c, i). escalated_id i) cands \<and>
    (\<forall>m \<in> set out. \<not> m_pd m \<and> \<not> m_resolved m \<and> m_severity m = ''critical'') \<and>
    (\<forall>c i. exist (alarms s1) c i = exist (alarms s) c i) \<and>
    (\<forall>c i e later threshold2. (c, i) \<in> set cands \<and> gm2_get (AllAlarms (alarms s1)) c i = Some e \<longrightarrow>
       \<not> overdue later threshold2 e) \<and>
    (\<forall>c i. \<not> reachable_chain now s c \<longrightarrow>
       gm2_get (AllAlarms (alarms s1)) c i = gm2_get (AllAlarms (alarms s)) c i)"
proof -
  let ?due = "escalation_due now threshold (alarms s)"
  let ?sent = "filter (\<lambda>c. reachable_chain now s (ec_chain c)) ?due"
  have get: "\<forall>c \<in> set ?due. \<exists>e. gm2_get (AllAlarms (alarms s)) (ec_chain c) (ec_alertID c) = Some e \<and> \<not> amc_Escalated e"
    using escalation_due_iff [OF assms] by (auto simp: overdue_def)
  obtain out where out: "alertChan (checkEscalations now threshold s) = alertChan s @ out"
      "map m_uniqueId out = map (escalated_id \<circ> ec_alertID) ?sent"
      "\<forall>m \<in> set out. \<not> m_pd m \<and> \<not> m_resolved m \<and> m_severity m = ''critical''"
      "\<forall>c i. gm2_get (AllAlarms (alarms (checkEscalations now threshold s))) c i =
         (if reachable_chain now s c \<and> (c, i) \<in> candidate_key ` set ?due
          then map_option (\<lambda>e. e\<lparr>amc_Escalated := True\<rparr>) (gm2_get (AllAlarms (alarms s)) c i)
          else gm2_get (AllAlarms (alarms s)) c i)"
    using sweep_result [OF get escalation_due_distinct [OF assms]] unfolding checkEscalations_def by blast
  have due: "(c, i) \<in> candidate_key ` set ?due \<longleftrightarrow>
      (\<exists>e. gm2_get (AllAlarms (alarms s)) c i = Some e \<and> overdue now threshold e)" for c i
  proof
    assume "\<exists>e. gm2_get (AllAlarms (alarms s)) c i = Some e \<and> overdue now threshold e"
    then obtain e where "gm2_get (AllAlarms (alarms s)) c i = Some e" "overdue now threshold e" by blast
    then have "\<lparr>ec_chain = c, ec_alertID = i, ec_message = amc_Message e\<rparr> \<in> set ?due"
      by (simp add: escalation_due_iff [OF assms])
    then show "(c, i) \<in> candidate_key ` set ?due" by (rule rev_image_eqI) simp
  qed (auto simp: escalation_due_iff [OF assms])
  let ?cands = "map candidate_key ?sent"
  have 1: "distinct ?cands"
    using escalation_due_distinct [OF assms] by (rule distinct_map_filter)
  have 2: "\<forall>c i. (c, i) \<in> set ?cands \<longleftrightarrow> reachable_chain now s c \<and>
      (\<exists>e. gm2_get (AllAlarms (alarms s)) c i = Some e \<and> overdue now threshold e)"
    unfolding due [symmetric] by auto
  have 3: "map m_uniqueId out = map (\<lambda>(c, i). escalated_id i) ?cands"
    by (simp add: out(2) o_def)
  have 4: "\<forall>c i. exist (alarms (checkEscalations now threshold s)) c i = exist (alarms s) c i"
    using out(4) by (simp add: exist_def)
  have 5: "\<forall>c i e later threshold2. (c, i) \<in> set ?cands \<and>
      gm2_get (AllAlarms (alarms (checkEscalations now threshold s))) c i = Some e \<longrightarrow> \<not> overdue later threshold2 e"
    using out(4) by (auto simp: overdue_def split: if_splits)
  have 6: "\<forall>c i. \<not> reachable_chain now s c \<longrightarrow>
      gm2_get (AllAlarms (alarms (checkEscalations now threshold s))) c i = gm2_get (AllAlarms (alarms s)) c i"
    using out(4) by simp
  show ?thesis
    unfolding Let_def by (intro exI [of _ ?cands] exI [of _ out] conjI out(1,3) 1 2 3 4 5 6)
qed

section \<open>The second incident\<close>

lemma alarm_maps_ok_alert:
  assumes "alarm_maps_ok (alarms s)" "clock_ok now"
  shows "alarm_maps_ok (alarms (alert now k msg sev r i s))"
proof -
  have "gm_ok (AllAlarms (alarms (alert now k msg sev r i s)))"
    using assms(1)
    by (auto simp: alert_def alarm_maps_ok_def gm2_touch_def gm2_del_def gm2_set_def Let_def split: option.splits prod.splits)
  with assms alert_alarms_ok show ?thesis by (simp add: alarm_maps_ok_def)
qed

lemma alert_records:
  "chain_of s k = Some cc \<Longrightarrow> \<not> silenced now cc \<Longrightarrow>
   gm2_get (AllAlarms (alarms (alert now k msg sev False (Some i) s))) k i = Some (alert_entry now msg sev)"
  by (simp add: alert_def buildAlertMsg_def chain_of_def Let_def)


section \<open>The theorems on a concrete installation\<close>

lemma alarm_maps_ok_no_alarms [simp]: "alarm_maps_ok no_alarms"
  by (simp add: alarm_maps_ok_def no_alarms_def) (simp add: alarms_ok_def)

theorem checkEscalations_once_witness:
  "\<exists>out. alertChan (checkEscalations (noon + Hour) (5 * Minute)
        (alert noon ''net'' ''down'' ''critical'' False (Some ''A'') (sample_sys sample_chain no_alarms))) =
      alertChan (alert noon ''net'' ''down'' ''critical'' False (Some ''A'') (sample_sys sample_chain no_alarms)) @ out \<and>
    ''A_escalated'' \<in> set (map m_uniqueId out)"
proof -
  let ?init = "sample_sys sample_chain no_alarms"
  let ?s = "alert noon ''net'' ''down'' ''critical'' False (Some ''A'') ?init"
  have c: "chain_of ?init ''net'' = Some sample_chain" "cc_silencedUntil sample_chain = 0"
    by (simp_all add: sample_chain_def)
  have e: "gm2_get (AllAlarms (alarms ?s)) ''net'' ''A'' = Some (alert_entry noon ''down'' ''critical'')"
    by (rule alert_records [OF c(1)]) (simp add: c(2) silenced_iff)
  have ok: "alarm_maps_ok (alarms ?s)" by (intro alarm_maps_ok_alert) (simp_all add: clock_ok_def)
  obtain cands out where o: "alertChan (checkEscalations (noon + Hour) (5 * Minute) ?s) = alertChan ?s @ out"
      "\<forall>c i. (c, i) \<in> set cands \<longleftrightarrow> reachable_chain (noon + Hour) ?s c \<and>
         (\<exists>e. gm2_get (AllAlarms (alarms ?s)) c i = Some e \<and> overdue (noon + Hour) (5 * Minute) e)"
      "map m_uniqueId out = map (\<lambda>(c, i). escalated_id i) cands"
    using checkEscalations_once [OF ok, of "noon + Hour" "5 * Minute"] unfolding Let_def by blast
  have "reachable_chain (noon + Hour) ?s ''net''" using c by (simp add: reachable_chain_def)
  moreover have "overdue (noon + Hour) (5 * Minute) (alert_entry noon ''down'' ''critical'')"
    by (simp add: overdue_def alert_entry_def time_defs)
  ultimately have "(''net'', ''A'') \<in> set cands" using o(2) e by blast
  then have "escalated_id ''A'' \<in> set (map m_uniqueId out)" unfolding o(3) by force
  with o(1) show ?thesis by (auto simp: escalated_id_def)
qed


end
