(* ===== verification/BlockWatch.thy ===== *)
theory BlockWatch
  imports Escalation
begin

text \<open>
  The websocket listener of \<^verbatim>\<open>td2/ws.go\<close>: choosing an endpoint, turning block, vote and evidence
  events into status updates, and the loop that classifies every block and keeps the signing
  statistics, the dashboard status and the Prometheus gauges (\<^verbatim>\<open>toDashStatus\<close> and \<^verbatim>\<open>mkUpdate\<close> of
  \<^verbatim>\<open>td2/types.go\<close>). JSON decoding is outside: an event arrives as the record it decodes to.
\<close>

section \<open>Status updates\<close>

abbreviation (input) "Statusmissed \<equiv> (0 :: int)"
abbreviation (input) "StatusPrevote \<equiv> (1 :: int)"
abbreviation (input) "StatusPrecommit \<equiv> (2 :: int)"
abbreviation (input) "StatusSigned \<equiv> (3 :: int)"
abbreviation (input) "StatusProposed \<equiv> (4 :: int)"
abbreviation (input) "StatusProposedEmpty \<equiv> (5 :: int)"

record StatusUpdate =
  su_Height :: int
  su_Status :: int
  su_Final :: bool
  su_Empty :: bool

text \<open>\<^verbatim>\<open>stringInt64.val\<close> drops the error: a number out of range reads as the nearest end.\<close>

definition stringInt64_val :: "string \<Rightarrow> int" where
  "stringInt64_val si = fst (ParseInt si)"

record rawBlock =
  rb_Height :: string
  rb_ProposerAddress :: string
  rb_Signatures :: "string list"
  rb_Txs :: "string list"

definition rawBlock_find :: "rawBlock \<Rightarrow> string \<Rightarrow> bool" where
  "rawBlock_find rb val = list_ex (\<lambda>v. v = val) (rb_Signatures rb)"

definition handleBlock :: "string \<Rightarrow> rawBlock \<Rightarrow> StatusUpdate" where
  "handleBlock address b =
     (let empty = (length (rb_Txs b) = 0);
          status = (if rb_ProposerAddress b = address then (if empty then StatusProposedEmpty else StatusProposed)
                    else if rawBlock_find b address then StatusSigned else Statusmissed)
      in \<lparr>su_Height = stringInt64_val (rb_Height b), su_Status = status, su_Final = True, su_Empty = empty\<rparr>)"

text \<open>The name of a vote's type as the protobuf enumeration prints it.\<close>

record rawVote =
  rv_Type :: string
  rv_Height :: string
  rv_ValidatorAddress :: string

definition handleVote :: "string \<Rightarrow> rawVote \<Rightarrow> StatusUpdate option" where
  "handleVote address vote =
     (if rv_ValidatorAddress vote \<noteq> address \<or> rv_Type vote = [] then None
      else Some \<lparr>su_Height = stringInt64_val (rv_Height vote),
                 su_Status = (if rv_Type vote = ''SIGNED_MSG_TYPE_PREVOTE'' then StatusPrevote
                              else if rv_Type vote = ''SIGNED_MSG_TYPE_PRECOMMIT'' then StatusPrecommit
                              else if rv_Type vote = ''SIGNED_MSG_TYPE_PROPOSAL'' then StatusProposed
                              else Statusmissed),
                 su_Final = False, su_Empty = False\<rparr>)"

section \<open>Dashboard and metrics\<close>

definition mkUpdate :: "ChainConfig \<Rightarrow> metricType \<Rightarrow> f64 \<Rightarrow> string \<Rightarrow> promUpdate option" where
  "mkUpdate cc t v node =
     do { vi \<leftarrow> cc_valInfo cc;
          Some \<lparr>pu_metric = t, pu_counter = v, pu_name = cc_name cc, pu_chainId = cc_ChainId cc,
                pu_moniker = vi_Moniker vi, pu_endpoint = node\<rparr> }"

definition toDashStatus :: "gotime \<Rightarrow> ChainConfig \<Rightarrow> int \<Rightarrow> string \<Rightarrow> int \<Rightarrow> int \<Rightarrow> ChainStatus option" where
  "toDashStatus now cc height lastError healthyNodes activeAlerts =
     do { vi \<leftarrow> cc_valInfo cc;
          Some \<lparr>cs_MsgType = ''status'', cs_Name = cc_name cc, cs_ChainId = cc_ChainId cc,
            cs_Moniker = vi_Moniker vi, cs_Bonded = vi_Bonded vi, cs_Jailed = vi_Jailed vi,
            cs_Tombstoned = vi_Tombstoned vi, cs_Missed = vi_Missed vi, cs_Window = vi_Window vi,
            cs_MinSignedPerWindow = cc_minSignedPerWindow cc, cs_Nodes = int (length (cc_Nodes cc)),
            cs_HealthyNodes = healthyNodes, cs_ActiveAlerts = activeAlerts, cs_Height = height,
            cs_LastError = lastError, cs_Silenced = fst (silenceStatus now cc),
            cs_SilencedUntil = snd (silenceStatus now cc),
            cs_UnvotedOpenGovProposals = int (length (cc_unvotedOpenGovProposals cc)),
            cs_TotalBondedTokens = cc_totalBondedTokens cc, cs_TotalSupply = cc_totalSupply cc,
            cs_CommunityTax = cc_communityTax cc, cs_InflationRate = cc_inflationRate cc,
            cs_BaseAPR = cc_baseAPR cc, cs_VotingPowerPercent = vi_VotingPowerPercent vi,
            cs_DelegatedTokens = vi_DelegatedTokens vi, cs_CommissionRate = vi_CommissionRate vi,
            cs_ValidatorAPR = vi_ValidatorAPR vi, cs_SelfDelegationRewards = vi_SelfDelegationRewards vi,
            cs_Commission = vi_Commission vi, cs_CryptoPrice = cc_cryptoPrice cc,
            cs_DenomMetadata = cc_denomMetadata cc, cs_Projected30DRewards = vi_Projected30DRewards vi,
            cs_Blocks = cc_blocksResults cc\<rparr> }"

text \<open>\<^verbatim>\<open>d.Seconds()\<close>: whole seconds and the rest, each converted, then added.\<close>

definition dur_Seconds :: "duration \<Rightarrow> f64" where
  "dur_Seconds d =
     (let sec = sgn d * (\<bar>d\<bar> div 10 ^ 9); nsec = sgn d * (\<bar>d\<bar> mod 10 ^ 9)
      in f64_add (f64_of_int sec) (f64_div (f64_of_int nsec) (Fin (10 ^ 9))))"

fun send_stats :: "ChainConfig \<Rightarrow> (metricType \<times> f64) list \<Rightarrow> sys \<Rightarrow> sys option" where
  "send_stats cc [] s = Some s"
| "send_stats cc ((t, v) # us) s =
     do { u \<leftarrow> mkUpdate cc t v [];
          send_stats cc us (s\<lparr>statsChan := statsChan s @ [u]\<rparr>) }"

section \<open>The classification loop\<close>

definition incr :: "f64 \<Rightarrow> f64" where
  "incr x = f64_add x (Fin 1)"

text \<open>The \<^verbatim>\<open>switch\<close> on the state of a finalized block.\<close>

definition count_block :: "int \<Rightarrow> ChainConfig \<Rightarrow> ChainConfig" where
  "count_block signState cc =
     (let excludePreactions = boolVal (ac_ConsecutiveMissExcludePreactions (cc_Alerts cc));
          preaction = (if \<not> excludePreactions then incr (cc_statConsecutiveMiss cc) else Fin 0)
      in if signState = Statusmissed then
           cc\<lparr>cc_statTotalMiss := incr (cc_statTotalMiss cc), cc_statConsecutiveMiss := incr (cc_statConsecutiveMiss cc)\<rparr>
         else if signState = StatusPrecommit then
           cc\<lparr>cc_statPrecommitMiss := incr (cc_statPrecommitMiss cc), cc_statTotalMiss := incr (cc_statTotalMiss cc),
              cc_statConsecutiveMiss := preaction\<rparr>
         else if signState = StatusPrevote then
           cc\<lparr>cc_statPrevoteMiss := incr (cc_statPrevoteMiss cc), cc_statTotalMiss := incr (cc_statTotalMiss cc),
              cc_statConsecutiveMiss := preaction\<rparr>
         else if signState = StatusSigned then
           cc\<lparr>cc_statTotalSigns := incr (cc_statTotalSigns cc), cc_statConsecutiveMiss := Fin 0\<rparr>
         else if signState = StatusProposed then
           cc\<lparr>cc_statTotalProps := incr (cc_statTotalProps cc), cc_statTotalSigns := incr (cc_statTotalSigns cc),
              cc_statConsecutiveMiss := Fin 0, cc_statConsecutiveEmpty := Fin 0\<rparr>
         else if signState = StatusProposedEmpty then
           cc\<lparr>cc_statTotalPropsEmpty := incr (cc_statTotalPropsEmpty cc), cc_statTotalProps := incr (cc_statTotalProps cc),
              cc_statTotalSigns := incr (cc_statTotalSigns cc), cc_statConsecutiveMiss := Fin 0,
              cc_statConsecutiveEmpty := incr (cc_statConsecutiveEmpty cc)\<rparr>
         else cc)"

definition missTypes :: "string list" where
  "missTypes = [''block'', ''precommit'', ''prevote'']"

definition cross_mark :: string where
  "cross_mark = [CHR 0xE2, CHR 0x9D, CHR 0x8C]"

definition block_gauges :: "ChainConfig \<Rightarrow> int \<Rightarrow> (metricType \<times> f64) list" where
  "block_gauges cc healthyNodes =
     [(metricSigned, cc_statTotalSigns cc), (metricProposed, cc_statTotalProps cc), (metricMissed, cc_statTotalMiss cc),
      (metricPrevote, cc_statPrevoteMiss cc), (metricPrecommit, cc_statPrecommitMiss cc),
      (metricConsecutive, cc_statConsecutiveMiss cc), (metricEmptyBlocks, cc_statTotalPropsEmpty cc),
      (metricConsecutiveEmpty, cc_statConsecutiveEmpty cc),
      (metricUnealthyNodes, f64_of_int (int (length (cc_Nodes cc)) - healthyNodes))]"

definition node_info :: "bool \<Rightarrow> NodeConfig list \<Rightarrow> string" where
  "node_info hideLogs nodes =
     concat (map (\<lambda>n. if nd_down n \<and> \<not> hideLogs then newline @ '' - '' @ nd_lastMsg n else []) nodes)"

text \<open>\<open>stamp\<close> is the text of \<^verbatim>\<open>time.Now().UTC()\<close>; reading \<^verbatim>\<open>missTypes\<close> below zero panics.\<close>

definition warn_missed ::
  "string \<Rightarrow> int \<Rightarrow> int \<Rightarrow> ValInfo \<Rightarrow> ChainConfig \<Rightarrow> string \<Rightarrow> (ChainConfig \<times> string) option" where
  "warn_missed stamp height signState vi cc info =
     (if signState < 3 \<and> vi_Bonded vi then
        if signState < 0 then None
        else let warn = cross_mark @ '' warning      '' @ vi_Moniker vi @ '' missed '' @ missTypes ! nat signState @
                   '' '' @ itoa height @ '' on '' @ cc_ChainId cc;
                 info' = info @ warn @ newline
             in Some (cc\<lparr>cc_lastError := stamp @ '' '' @ info'\<rparr>, info')
      else Some (cc, info))"

text \<open>
  A finalized block. Shifting an empty \<^verbatim>\<open>blocksResults\<close> panics.
\<close>

definition finish_block ::
  "gotime \<Rightarrow> string \<Rightarrow> int \<Rightarrow> int \<Rightarrow> ChainConfig \<Rightarrow> sys \<Rightarrow> (ChainConfig \<times> sys) option" where
  "finish_block now stamp height signState cc s =
     do { vi \<leftarrow> cc_valInfo cc;
          let cc1 = cc\<lparr>cc_lastBlockNum := height\<rparr>;
          s1 \<leftarrow> (if cfg_Prom (td s)
                 then send_stats cc1 [(metricLastBlockSeconds, dur_Seconds (time_Sub now (cc_lastBlockTime cc1)))] s
                 else Some s);
          let info = getAlarms s1 (cc_name cc1);
          blocks \<leftarrow> (if cc_blocksResults cc1 = [] then None else Some (signState # butlast (cc_blocksResults cc1)));
          let cc2 = cc1\<lparr>cc_lastBlockTime := now, cc_blocksResults := blocks\<rparr>;
          (cc3, info1) \<leftarrow> warn_missed stamp height signState vi cc2 info;
          let cc4 = count_block signState cc3;
          let healthyNodes = int (length (filter (\<lambda>n. \<not> nd_down n) (cc_Nodes cc4)));
          let info2 = info1 @ node_info (cfg_HideLogs (td s1)) (cc_Nodes cc4);
          let info3 = info2 @ (if vi_Tombstoned vi then ''- validator is tombstoned'' @ newline
                               else if vi_Jailed vi then ''- validator is jailed'' @ newline else []);
          let cc5 = cc4\<lparr>cc_activeAlerts := getCount (alarms s1) (cc_name cc4)\<rparr>;
          s2 \<leftarrow> (if cfg_EnableDash (td s1)
                 then do { d \<leftarrow> toDashStatus now cc5 height info3 healthyNodes (cc_activeAlerts cc5);
                           Some (s1\<lparr>updateChan := updateChan s1 @ [d]\<rparr>) }
                 else Some s1);
          s3 \<leftarrow> (if cfg_Prom (td s2) then send_stats cc5 (block_gauges cc5 healthyNodes) s2 else Some s2);
          Some (cc5, s3) }"

text \<open>One status update: the running \<^verbatim>\<open>signState\<close>, the chain and the program.\<close>

definition on_status ::
  "gotime \<Rightarrow> string \<Rightarrow> StatusUpdate \<Rightarrow> int \<times> ChainConfig \<times> sys \<Rightarrow> (int \<times> ChainConfig \<times> sys) option" where
  "on_status now stamp upd st =
     (let (signState, cc, s) = st
      in do { signState1 \<leftarrow>
                (if signState < su_Status upd
                 then do { vi \<leftarrow> cc_valInfo cc; Some (if vi_Bonded vi then su_Status upd else signState) }
                 else Some signState);
              if su_Final upd
              then do { (cc', s') \<leftarrow> finish_block now stamp (su_Height upd) signState1 cc s; Some (- 1, cc', s') }
              else Some (signState1, cc, s) })"

fun status_run ::
  "(gotime \<times> string \<times> StatusUpdate) list \<Rightarrow> int \<times> ChainConfig \<times> sys \<Rightarrow> (int \<times> ChainConfig \<times> sys) option" where
  "status_run [] st = Some st"
| "status_run ((now, stamp, upd) # us) st = do { st' \<leftarrow> on_status now stamp upd st; status_run us st' }"

section \<open>What the statistics mean\<close>

text \<open>The outcome of each finalized block: the highest status seen since the block before it.\<close>

fun outcomes :: "int \<Rightarrow> StatusUpdate list \<Rightarrow> int list" where
  "outcomes st [] = []"
| "outcomes st (u # us) =
     (if su_Final u then max st (su_Status u) # outcomes (- 1) us else outcomes (max st (su_Status u)) us)"

definition counters :: "ChainConfig \<Rightarrow> f64 list" where
  "counters cc = [cc_statTotalSigns cc, cc_statTotalProps cc, cc_statTotalMiss cc, cc_statPrevoteMiss cc,
     cc_statPrecommitMiss cc, cc_statTotalPropsEmpty cc, cc_statConsecutiveMiss cc, cc_statConsecutiveEmpty cc]"

definition count_if :: "('a \<Rightarrow> bool) \<Rightarrow> 'a list \<Rightarrow> int" where
  "count_if P xs = int (length (filter P xs))"

text \<open>
  The eight counters as functions of the outcomes so far: how many blocks were signed, proposed,
  missed, missed after a prevote, missed after a precommit and proposed empty; the length of the
  current run of misses; and of the current run of empty blocks among the proposed ones.
\<close>

definition tally :: "bool \<Rightarrow> int list \<Rightarrow> int list" where
  "tally excl os =
     [count_if (\<lambda>x. 3 \<le> x) os, count_if (\<lambda>x. 4 \<le> x) os, count_if (\<lambda>x. x < 3) os, count_if (\<lambda>x. x = 1) os,
      count_if (\<lambda>x. x = 2) os, count_if (\<lambda>x. x = 5) os,
      int (length (takeWhile (\<lambda>x. if excl then x = 0 else x < 3) (rev os))),
      int (length (takeWhile (\<lambda>x. x = 5) (filter (\<lambda>x. 4 \<le> x) (rev os))))]"

lemma incr_count: "int n + 1 < 2 ^ 53 \<Longrightarrow> incr (f64_of_int (int n)) = f64_of_int (1 + int n)"
  using f64_count [of "int n"] by (simp add: incr_def add.commute)

lemma f64_of_int_0: "f64_of_int 0 = Fin 0"
  by (simp add: f64_of_int_small)

lemma count_block_tally:
  assumes "counters cc = map f64_of_int (tally excl os)" "excl = boolVal (ac_ConsecutiveMissExcludePreactions (cc_Alerts cc))"
    "int (length os) + 1 < 2 ^ 53" "0 \<le> x" "x \<le> 5"
  shows "counters (count_block x cc) = map f64_of_int (tally excl (os @ [x]))"
proof -
  have len: "length (filter P os) \<le> length os" "length (takeWhile P (rev os)) \<le> length os"
    "length (takeWhile P (filter Q (rev os))) \<le> length os" for P Q
    using length_takeWhile_le [of P "rev os"] length_takeWhile_le [of P "filter Q (rev os)"]
      length_filter_le [of Q "rev os"] by simp_all
  have b: "int n + 1 < 2 ^ 53" if "n \<le> length os" for n using that assms(3) by simp
  note inc = incr_count [OF b [OF len(1)]] incr_count [OF b [OF len(2)]] incr_count [OF b [OF len(3)]]
  have "x = 0 \<or> x = 1 \<or> x = 2 \<or> x = 3 \<or> x = 4 \<or> x = 5" using assms(4,5) by auto
  then show ?thesis
    using assms(1,2)
    by (elim disjE; cases excl)
      (simp_all add: counters_def tally_def count_block_def count_if_def Let_def inc f64_of_int_0)
qed

lemma send_stats_total:
  assumes "cc_valInfo cc = Some vi"
  shows "\<exists>s'. send_stats cc us s = Some s' \<and> td s' = td s \<and> alarms s' = alarms s"
proof (induction us arbitrary: s)
  case (Cons u us)
  obtain t v where "u = (t, v)" by (cases u)
  then show ?case using Cons [of "s\<lparr>statsChan := statsChan s @ _\<rparr>"] assms by (simp add: mkUpdate_def)
qed simp

lemma count_block_frame [simp]:
  "cc_valInfo (count_block x cc) = cc_valInfo cc" "cc_Alerts (count_block x cc) = cc_Alerts cc"
  "cc_blocksResults (count_block x cc) = cc_blocksResults cc" "cc_name (count_block x cc) = cc_name cc"
  "cc_ValAddress (count_block x cc) = cc_ValAddress cc" "cc_Provider (count_block x cc) = cc_Provider cc"
  by (simp_all add: count_block_def Let_def)

lemma counters_update [simp]:
  "counters (cc\<lparr>cc_lastBlockNum := h\<rparr>) = counters cc" "counters (cc\<lparr>cc_lastBlockTime := t\<rparr>) = counters cc"
  "counters (cc\<lparr>cc_blocksResults := b\<rparr>) = counters cc" "counters (cc\<lparr>cc_lastError := e\<rparr>) = counters cc"
  "counters (cc\<lparr>cc_activeAlerts := a\<rparr>) = counters cc"
  by (simp_all add: counters_def)

lemma count_block_commute [simp]:
  "counters (count_block x (cc\<lparr>cc_lastBlockNum := h\<rparr>)) = counters (count_block x cc)"
  "counters (count_block x (cc\<lparr>cc_lastBlockTime := t\<rparr>)) = counters (count_block x cc)"
  "counters (count_block x (cc\<lparr>cc_blocksResults := b\<rparr>)) = counters (count_block x cc)"
  "counters (count_block x (cc\<lparr>cc_lastError := e\<rparr>)) = counters (count_block x cc)"
  by (simp_all add: count_block_def counters_def Let_def)

lemma maybe_stats:
  "cc_valInfo cc = Some vi \<Longrightarrow> \<exists>s'. (if b then send_stats cc us s else Some s) = Some s'"
  using send_stats_total [of cc vi us s] by auto

lemma maybe_dash:
  "cc_valInfo cc = Some vi \<Longrightarrow>
   \<exists>s'. (if b then do { d \<leftarrow> toDashStatus now cc h i n a; Some (s\<lparr>updateChan := updateChan s @ [d]\<rparr>) } else Some s) = Some s'"
  by (simp add: toDashStatus_def)

lemma warn_missed_total: "0 \<le> st \<or> \<not> vi_Bonded vi \<Longrightarrow> \<exists>cc' info'. warn_missed stamp h st vi cc info = Some (cc', info')"
  by (auto simp: warn_missed_def Let_def)

lemma finish_block_total:
  assumes vi: "cc_valInfo cc = Some vi" and ne: "cc_blocksResults cc \<noteq> []" and st: "0 \<le> st \<or> \<not> vi_Bonded vi"
  shows "\<exists>cc' s'. finish_block now stamp h st cc s = Some (cc', s') \<and>
    counters cc' = counters (count_block st cc) \<and> cc_blocksResults cc' = st # butlast (cc_blocksResults cc) \<and>
    cc_valInfo cc' = cc_valInfo cc \<and> cc_Alerts cc' = cc_Alerts cc \<and> cc_name cc' = cc_name cc \<and>
    cc_ValAddress cc' = cc_ValAddress cc \<and> cc_Provider cc' = cc_Provider cc"
proof -
  define c1 where "c1 = cc\<lparr>cc_lastBlockNum := h\<rparr>"
  define c2 where "c2 = c1\<lparr>cc_lastBlockTime := now, cc_blocksResults := st # butlast (cc_blocksResults c1)\<rparr>"
  have v: "cc_valInfo c1 = Some vi" "cc_valInfo c2 = Some vi" "cc_blocksResults c1 \<noteq> []"
    using vi ne by (simp_all add: c1_def c2_def)
  obtain s1 where s1: "(if cfg_Prom (td s)
      then send_stats c1 [(metricLastBlockSeconds, dur_Seconds (time_Sub now (cc_lastBlockTime c1)))] s else Some s) = Some s1"
    using maybe_stats [OF v(1)] by blast
  obtain c3 info1 where w: "warn_missed stamp h st vi c2 (getAlarms s1 (cc_name c1)) = Some (c3, info1)"
    using warn_missed_total [OF st] by blast
  have c3: "cc_valInfo c3 = Some vi" "counters (count_block st c3) = counters (count_block st cc)"
      "cc_blocksResults c3 = st # butlast (cc_blocksResults cc)" "cc_Alerts c3 = cc_Alerts cc" "cc_name c3 = cc_name cc"
      "cc_ValAddress c3 = cc_ValAddress cc" "cc_Provider c3 = cc_Provider cc"
    using w vi by (auto simp: warn_missed_def c2_def c1_def Let_def split: if_splits)
  define c4 where "c4 = count_block st c3"
  define c5 where "c5 = c4\<lparr>cc_activeAlerts := getCount (alarms s1) (cc_name c4)\<rparr>"
  define healthy where "healthy = int (length (filter (\<lambda>n. \<not> nd_down n) (cc_Nodes c4)))"
  define info3 where "info3 = (info1 @ node_info (cfg_HideLogs (td s1)) (cc_Nodes c4)) @
    (if vi_Tombstoned vi then ''- validator is tombstoned'' @ newline
     else if vi_Jailed vi then ''- validator is jailed'' @ newline else [])"
  have v5: "cc_valInfo c5 = Some vi" using c3(1) by (simp add: c5_def c4_def)
  obtain s2 where s2: "(if cfg_EnableDash (td s1)
      then do { d \<leftarrow> toDashStatus now c5 h info3 healthy (cc_activeAlerts c5);
                Some (s1\<lparr>updateChan := updateChan s1 @ [d]\<rparr>) } else Some s1) = Some s2"
    using maybe_dash [OF v5] by blast
  obtain s3 where s3: "(if cfg_Prom (td s2) then send_stats c5 (block_gauges c5 healthy) s2 else Some s2) = Some s3"
    using maybe_stats [OF v5] by blast
  have blocks: "(if cc_blocksResults c1 = [] then None else Some (st # butlast (cc_blocksResults c1))) =
      Some (st # butlast (cc_blocksResults c1))"
    using v by simp
  have "finish_block now stamp h st cc s = Some (c5, s3)"
    unfolding finish_block_def Let_def vi bind.bind_lunit c1_def [symmetric] s1 blocks c2_def [symmetric] w
      prod.case c4_def [symmetric] c5_def [symmetric] healthy_def [symmetric] info3_def [symmetric] s2 s3 ..
  moreover have "counters c5 = counters (count_block st cc)" "cc_blocksResults c5 = st # butlast (cc_blocksResults cc)"
      "cc_valInfo c5 = cc_valInfo cc" "cc_Alerts c5 = cc_Alerts cc" "cc_name c5 = cc_name cc"
      "cc_ValAddress c5 = cc_ValAddress cc" "cc_Provider c5 = cc_Provider cc"
    using c3 vi by (simp_all add: c5_def c4_def)
  ultimately show ?thesis by blast
qed

lemma status_run_tally:
  assumes "cc_valInfo cc = Some vi" "vi_Bonded vi" "cc_blocksResults cc \<noteq> []"
    "- 1 \<le> st" "st \<le> 5" "\<forall>(now, stamp, u) \<in> set us. 0 \<le> su_Status u \<and> su_Status u \<le> 5"
    "excl = boolVal (ac_ConsecutiveMissExcludePreactions (cc_Alerts cc))"
    "counters cc = map f64_of_int (tally excl os)" "int (length os + length us) < 2 ^ 53"
  shows "\<exists>st' cc' s'. status_run us (st, cc, s) = Some (st', cc', s') \<and>
    counters cc' = map f64_of_int (tally excl (os @ outcomes st (map (\<lambda>(now, stamp, u). u) us))) \<and>
    cc_blocksResults cc' = take (length (cc_blocksResults cc))
      (rev (outcomes st (map (\<lambda>(now, stamp, u). u) us)) @ cc_blocksResults cc)"
  using assms
proof (induction us arbitrary: st cc s os)
  case Nil
  then show ?case by simp
next
  case (Cons e us)
  obtain now stamp u where e: "e = (now, stamp, u)" by (cases e)
  have u: "0 \<le> su_Status u" "su_Status u \<le> 5" using Cons.prems(6) by (auto simp: e)
  have m: "(if st < su_Status u then Some (if vi_Bonded vi then su_Status u else st) else Some st) = Some (max st (su_Status u))"
    using Cons.prems(2) by (simp add: max_def)
  show ?case
  proof (cases "su_Final u")
    case False
    then have "on_status now stamp u (st, cc, s) = Some (max st (su_Status u), cc, s)"
      using Cons.prems(1,2) by (simp add: on_status_def max_def)
    with False Cons.IH [of cc "max st (su_Status u)" os s] Cons.prems u show ?thesis
      by (simp add: e)
  next
    case True
    let ?x = "max st (su_Status u)" and ?os = "outcomes (- 1) (map (\<lambda>(now, stamp, u). u) us)"
    obtain cc1 s1 where f: "finish_block now stamp (su_Height u) ?x cc s = Some (cc1, s1)"
        "counters cc1 = counters (count_block ?x cc)" "cc_blocksResults cc1 = ?x # butlast (cc_blocksResults cc)"
        "cc_valInfo cc1 = cc_valInfo cc" "cc_Alerts cc1 = cc_Alerts cc"
      using finish_block_total [OF Cons.prems(1,3), of ?x now stamp "su_Height u" s] u by fastforce
    have "on_status now stamp u (st, cc, s) = Some (- 1, cc1, s1)"
      using Cons.prems(1,2) True f(1) by (auto simp: on_status_def max_def)
    moreover have "counters cc1 = map f64_of_int (tally excl (os @ [?x]))"
      unfolding f(2) using Cons.prems(5,7-9) u by (intro count_block_tally) simp_all
    ultimately obtain st' cc' s' where r: "status_run (e # us) (st, cc, s) = Some (st', cc', s')"
        "counters cc' = map f64_of_int (tally excl ((os @ [?x]) @ ?os))"
        "cc_blocksResults cc' = take (length (cc_blocksResults cc1)) (rev ?os @ cc_blocksResults cc1)"
      using Cons.IH [of cc1 "- 1" "os @ [?x]" s1] Cons.prems f by (auto simp: e)
    have len: "length (cc_blocksResults cc1) = length (cc_blocksResults cc)"
      using Cons.prems(3) f(3) by (simp flip: length_greater_0_conv)
    have "take (length (cc_blocksResults cc)) (rev ?os @ ?x # butlast (cc_blocksResults cc)) =
        take (length (cc_blocksResults cc)) ((rev ?os @ [?x]) @ cc_blocksResults cc)"
      by (cases "length (cc_blocksResults cc) - length ?os") (auto simp: butlast_conv_take min_def)
    then show ?thesis using r True len f(3)
      by (intro exI [of _ st'] exI [of _ cc'] exI [of _ s']) (simp add: e)
  qed
qed

text \<open>
  C5: The statistics count the blocks. For a bonded validator and every interleaving of fewer
  than \<open>2^53\<close> vote and block updates, the loop never panics; each finalized block counts with the
  highest status seen since the block before; the eight counters are exactly the numbers of
  signed, proposed, missed, missed-after-prevote, missed-after-precommit and empty blocks and the
  lengths of the current runs of misses and of empty proposals; every block is either signed or
  missed; and the dashboard's list is the outcomes newest first, cut to its fixed length.
\<close>

theorem block_statistics_exact:
  assumes "cc_valInfo cc = Some vi" "vi_Bonded vi" "cc_blocksResults cc \<noteq> []"
    "\<forall>(now, stamp, u) \<in> set us. 0 \<le> su_Status u \<and> su_Status u \<le> 5"
    "counters cc = replicate 8 (Fin 0)" "int (length us) < 2 ^ 53"
  shows "let os = outcomes (- 1) (map (\<lambda>(now, stamp, u). u) us);
             excl = boolVal (ac_ConsecutiveMissExcludePreactions (cc_Alerts cc))
    in \<exists>st' cc' s'. status_run us (- 1, cc, s) = Some (st', cc', s') \<and>
       counters cc' = map f64_of_int (tally excl os) \<and>
       tally excl os ! 0 + tally excl os ! 2 = int (length os) \<and>
       length os = length (filter (\<lambda>(now, stamp, u). su_Final u) us) \<and>
       cc_blocksResults cc' = take (length (cc_blocksResults cc)) (rev os @ cc_blocksResults cc)"
proof -
  let ?excl = "boolVal (ac_ConsecutiveMissExcludePreactions (cc_Alerts cc))"
  let ?os = "outcomes (- 1) (map (\<lambda>(now, stamp, u). u) us)"
  have "counters cc = map f64_of_int (tally ?excl [])"
    by (simp add: assms(5) tally_def count_if_def f64_of_int_0 numeral_eq_Suc)
  from status_run_tally [OF assms(1-3) _ _ assms(4) refl this, of "- 1" s] assms(6)
  obtain st' cc' s' where r: "status_run us (- 1, cc, s) = Some (st', cc', s')"
      "counters cc' = map f64_of_int (tally ?excl ?os)"
      "cc_blocksResults cc' = take (length (cc_blocksResults cc)) (rev ?os @ cc_blocksResults cc)"
    by auto
  have "count_if (\<lambda>x. 3 \<le> x) xs + count_if (\<lambda>x. x < 3) xs = int (length xs)" for xs :: "int list"
    by (induction xs) (auto simp: count_if_def)
  then have "tally ?excl ?os ! 0 + tally ?excl ?os ! 2 = int (length ?os)"
    by (simp add: tally_def)
  moreover have "length (outcomes st (map (\<lambda>(now, stamp, u). u) us)) = length (filter (\<lambda>(now, stamp, u). su_Final u) us)" for st
    by (induction us arbitrary: st) auto
  ultimately show ?thesis using r by (simp add: Let_def)
qed

section \<open>Double-sign evidence\<close>

record rawEvidenceVote =
  ev_Height :: string
  ev_Round :: int
  ev_ValidatorAddress :: string

record rawDuplicateVoteEvidence =
  dve_VoteA :: rawEvidenceVote
  dve_VoteB :: rawEvidenceVote

text \<open>
  The envelope of an evidence event, with the decoder of the inner value as a parameter: it fails
  on text that does not decode to a duplicate vote.
\<close>

record rawEvidence =
  re_Type :: string
  re_Value :: string

definition parseDuplicateVoteEvidence ::
  "(string \<Rightarrow> rawEvidence option) \<Rightarrow> (string \<Rightarrow> rawDuplicateVoteEvidence option) \<Rightarrow> string \<Rightarrow>
   rawDuplicateVoteEvidence option" where
  "parseDuplicateVoteEvidence decode decode_value reply =
     (case decode reply of
        None \<Rightarrow> None
      | Some ev \<Rightarrow> if re_Type ev \<noteq> ''tendermint/DuplicateVoteEvidence'' then None else decode_value (re_Value ev))"

definition double_sign_id :: "string \<Rightarrow> int \<Rightarrow> string" where
  "double_sign_id valAddress height = ''DoubleSignEvidence_'' @ valAddress @ ''_'' @ itoa height"

definition handleEvidence ::
  "gotime \<Rightarrow> string \<Rightarrow> string \<Rightarrow> string \<Rightarrow> string \<Rightarrow> bool \<Rightarrow> rawDuplicateVoteEvidence option \<Rightarrow> sys \<Rightarrow> sys" where
  "handleEvidence now chainName chainId valAddress address alertEnabled ev s =
     (case ev of
        None \<Rightarrow> s
      | Some dve \<Rightarrow>
          if ev_ValidatorAddress (dve_VoteA dve) \<noteq> address \<and> ev_ValidatorAddress (dve_VoteB dve) \<noteq> address then s
          else
            let height = stringInt64_val (ev_Height (dve_VoteA dve)); alertID = double_sign_id valAddress height
            in if alertEnabled \<and> \<not> exist (alarms s) chainName alertID then
                 alert now chainName
                   (siren @ '' DOUBLE SIGN EVIDENCE: validator '' @ valAddress @ '' signed conflicting votes at height '' @
                    itoa height @ '' (round '' @ itoa (ev_Round (dve_VoteA dve)) @ '') on '' @ chainId @ '' '' @ em_dash @
                    '' this validator has very likely been slashed and tombstoned'')
                   ''critical'' False (Some alertID) s
               else s)"

text \<open>
  C27: Evidence against the validator raises one alert per height. An evidence event that names
  the validator's key in either vote dispatches one critical message for its height unless that
  alarm is active; the same evidence again, or evidence that names other validators only, or
  any evidence with the alert switched off, changes nothing.
\<close>

theorem handleEvidence_once_per_height:
  assumes "chain_of s chainName = Some cc" "\<not> silenced now cc" "alarms_ok (alarms s)" "\<not> IsZero now"
    and "height = stringInt64_val (ev_Height (dve_VoteA dve))"
  shows "let own = (ev_ValidatorAddress (dve_VoteA dve) = address \<or> ev_ValidatorAddress (dve_VoteB dve) = address);
             i = double_sign_id valAddress height;
             fresh = (own \<and> alerting \<and> \<not> exist (alarms s) chainName i);
             s1 = handleEvidence now chainName chainId valAddress address alerting (Some dve) s
    in (\<exists>out. alertChan s1 = alertChan s @ out \<and>
          map (\<lambda>m. (m_uniqueId m, m_severity m, m_resolved m)) out = (if fresh then [(i, ''critical'', False)] else [])) \<and>
       (\<not> fresh \<longrightarrow> s1 = s) \<and>
       handleEvidence later chainName chainId valAddress address alerting (Some dve) s1 = s1"
proof -
  define i where "i = double_sign_id valAddress height"
  define msg where "msg = siren @ '' DOUBLE SIGN EVIDENCE: validator '' @ valAddress @ '' signed conflicting votes at height '' @
                    itoa height @ '' (round '' @ itoa (ev_Round (dve_VoteA dve)) @ '') on '' @ chainId @ '' '' @ em_dash @
                    '' this validator has very likely been slashed and tombstoned''"
  define fresh :: "sys \<Rightarrow> bool" where "fresh s \<longleftrightarrow> (ev_ValidatorAddress (dve_VoteA dve) = address \<or> ev_ValidatorAddress (dve_VoteB dve) = address) \<and>
      alerting \<and> \<not> exist (alarms s) chainName i" for s
  have h: "handleEvidence t chainName chainId valAddress address alerting (Some dve) s =
      (if fresh s then alert t chainName msg ''critical'' False (Some i) s else s)" for t s
    unfolding handleEvidence_def fresh_def msg_def i_def Let_def option.case assms(5) by simp
  let ?s1 = "alert now chainName msg ''critical'' False (Some i) s"
  have "\<not> fresh ?s1" using assms(2) by (simp add: fresh_def exist_alert [OF assms(1,3)])
  moreover have "alertChan ?s1 = alertChan s @ [alert_message s chainName msg ''critical'' False i]"
    using assms(2) by (simp add: alert_alertChan [OF assms(1)])
  ultimately show ?thesis
    unfolding Let_def i_def [symmetric] h fresh_def [symmetric]
    using alert_message_simps [OF assms(1), of msg "''critical''" False i]
    by (cases "fresh s") simp_all
qed

section \<open>Choosing a websocket endpoint\<close>

fun add_unseen :: "string list \<Rightarrow> string list \<Rightarrow> string list" where
  "add_unseen acc [] = acc"
| "add_unseen acc (u # us) = add_unseen (if u \<in> set acc then acc else acc @ [u]) us"

definition ws_candidates :: "ChainConfig \<Rightarrow> string list" where
  "ws_candidates cc =
     (let healthy = add_unseen [] (map nd_Url (filter (\<lambda>n. \<not> nd_down n) (cc_Nodes cc)));
          remote = (case cc_client cc of None \<Rightarrow> healthy | Some r \<Rightarrow> add_unseen healthy [r])
      in add_unseen remote (map nd_Url (filter nd_down (cc_Nodes cc))))"

text \<open>\<^verbatim>\<open>NewClient\<close> up to dialling: the URL that is dialled, or \<open>None\<close> for an unknown scheme.\<close>

definition normalize_ws_path :: "string \<Rightarrow> string" where
  "normalize_ws_path u =
     (let u1 = TrimRight u ''/'' in if HasSuffix u1 ''/websocket'' then u1 else u1 @ ''/websocket'')"

definition ws_scheme :: "string \<Rightarrow> string option" where
  "ws_scheme scheme =
     (if scheme \<in> {''http'', ''tcp'', ''ws'', ''unix''} then Some ''ws''
      else if scheme \<in> {''https'', ''wss''} then Some ''wss'' else None)"

text \<open>The loop over the candidates; \<open>dial\<close> tells whether a connection succeeds.\<close>

definition connect_ws :: "(string \<Rightarrow> bool) \<Rightarrow> ChainConfig \<Rightarrow> ChainConfig" where
  "connect_ws dial cc =
     (case List.find dial (ws_candidates cc) of
        None \<Rightarrow> (if cc_wsclient cc = None then cc\<lparr>cc_noWsNodes := True\<rparr> else cc\<lparr>cc_noWsNodes := False\<rparr>)
      | Some u \<Rightarrow> cc\<lparr>cc_wsclient := Some u, cc_noWsNodes := False\<rparr>)"

lemma add_unseen_props:
  "distinct acc \<Longrightarrow> distinct (add_unseen acc us) \<and> set (add_unseen acc us) = set acc \<union> set us \<and>
   (\<exists>more. add_unseen acc us = acc @ more \<and> set more \<subseteq> set us)"
proof (induction acc us rule: add_unseen.induct)
  case (2 acc u us)
  show ?case
  proof (cases "u \<in> set acc")
    case True
    with 2 show ?thesis by auto
  next
    case False
    with 2 show ?thesis by auto
  qed
qed simp

text \<open>
  A websocket goes to a healthy node if one can be reached. Every configured node and the RPC
  endpoint in use are candidates, each once; the first candidate that accepts is used; so when
  some healthy node accepts, the chosen URL is that of a healthy node. A chain with a reachable
  candidate is never marked as having no websocket node; a chain without one is marked only if
  it never had a connection, since the old client is kept and passes the nil test.
\<close>

lemma connect_ws_prefers_healthy:
  "distinct (ws_candidates cc) \<and>
   set (ws_candidates cc) = nd_Url ` set (cc_Nodes cc) \<union> set_option (cc_client cc) \<and>
   ((\<exists>n \<in> set (cc_Nodes cc). \<not> nd_down n \<and> dial (nd_Url n)) \<longrightarrow>
      (\<exists>n \<in> set (cc_Nodes cc). \<not> nd_down n \<and> dial (nd_Url n) \<and> cc_wsclient (connect_ws dial cc) = Some (nd_Url n))) \<and>
   ((\<exists>u \<in> set (ws_candidates cc). dial u) \<longrightarrow> \<not> cc_noWsNodes (connect_ws dial cc)) \<and>
   ((\<forall>u \<in> set (ws_candidates cc). \<not> dial u) \<longrightarrow> cc_noWsNodes (connect_ws dial cc) = (cc_wsclient cc = None))"
proof -
  let ?up = "map nd_Url (filter (\<lambda>n. \<not> nd_down n) (cc_Nodes cc))"
  let ?down = "map nd_Url (filter nd_down (cc_Nodes cc))"
  let ?h = "add_unseen [] ?up"
  let ?r = "case cc_client cc of None \<Rightarrow> ?h | Some r \<Rightarrow> add_unseen ?h [r]"
  have h: "distinct ?h" "set ?h = set ?up" using add_unseen_props [of "[]" ?up] by simp_all
  have r: "distinct ?r" "set ?r = set ?up \<union> set_option (cc_client cc)" "\<exists>m. ?r = ?h @ m"
    using add_unseen_props [OF h(1), of "[the (cc_client cc)]"] h
    by (cases "cc_client cc"; auto simp del: add_unseen.simps)+
  have c: "distinct (ws_candidates cc)" "set (ws_candidates cc) = set ?r \<union> set ?down" "\<exists>m. ws_candidates cc = ?h @ m"
    using add_unseen_props [OF r(1), of ?down] r(3) by (auto simp: ws_candidates_def Let_def)
  have find: "List.find dial (xs @ ys) = (case List.find dial xs of None \<Rightarrow> List.find dial ys | Some u \<Rightarrow> Some u)" for xs ys
    by (induction xs) auto
  have "\<exists>n \<in> set (cc_Nodes cc). \<not> nd_down n \<and> dial (nd_Url n) \<and> cc_wsclient (connect_ws dial cc) = Some (nd_Url n)"
    if up: "n \<in> set (cc_Nodes cc)" "\<not> nd_down n" "dial (nd_Url n)" for n
  proof -
    have "nd_Url n \<in> set ?h" using h(2) up(1,2) by auto
    then obtain u where u: "List.find dial ?h = Some u"
      using up(3) by (metis find_None_iff not_None_eq)
    then have "u \<in> set ?h" "dial u" by (auto simp: find_Some_iff)
    moreover have "List.find dial (ws_candidates cc) = Some u" using c(3) u by (auto simp: find)
    ultimately show ?thesis using h(2) by (auto simp: connect_ws_def)
  qed
  moreover have "\<not> cc_noWsNodes (connect_ws dial cc)" if "\<exists>u \<in> set (ws_candidates cc). dial u"
    using that by (auto simp: connect_ws_def find_None_iff split: option.split)
  moreover have "cc_noWsNodes (connect_ws dial cc) = (cc_wsclient cc = None)" if "\<forall>u \<in> set (ws_candidates cc). \<not> dial u"
  proof -
    have "List.find dial (ws_candidates cc) = None" using that by (simp add: find_None_iff)
    then show ?thesis by (simp add: connect_ws_def)
  qed
  ultimately show ?thesis using c r(2) by auto
qed

section \<open>The theorems on concrete events\<close>

definition vote_then_block :: "(gotime \<times> string \<times> StatusUpdate) list" where
  "vote_then_block =
     [(noon, [], \<lparr>su_Height = 1, su_Status = 2, su_Final = False, su_Empty = False\<rparr>),
      (noon, [], \<lparr>su_Height = 1, su_Status = 0, su_Final = True, su_Empty = True\<rparr>),
      (noon, [], \<lparr>su_Height = 2, su_Status = 3, su_Final = True, su_Empty = True\<rparr>)]"

theorem block_statistics_exact_witness:
  "\<exists>st' cc' s'. status_run vote_then_block (- 1, sample_chain, sample_sys sample_chain no_alarms) = Some (st', cc', s') \<and>
     cc_blocksResults cc' = [3, 2, - 1, - 1] \<and> cc_statPrecommitMiss cc' = f64_of_int 1"
proof -
  let ?os = "outcomes (- 1) (map (\<lambda>(now, stamp, u). u) vote_then_block)"
  let ?excl = "boolVal (ac_ConsecutiveMissExcludePreactions (cc_Alerts sample_chain))"
  have os: "?os = [2, 3]" by (simp add: vote_then_block_def)
  have blocks: "cc_blocksResults sample_chain = [- 1, - 1, - 1, - 1]" by (simp add: sample_chain_def)
  then have "cc_blocksResults sample_chain \<noteq> []" by simp
  moreover have "vi_Bonded sample_valinfo" "cc_valInfo sample_chain = Some sample_valinfo"
      "counters sample_chain = replicate 8 (Fin 0)"
    by (simp_all add: sample_valinfo_def sample_chain_def counters_def numeral_eq_Suc)
  moreover have "\<forall>(now, stamp, u) \<in> set vote_then_block. 0 \<le> su_Status u \<and> su_Status u \<le> 5"
      "int (length vote_then_block) < 2 ^ 53"
    by (simp_all add: vote_then_block_def)
  ultimately obtain st' cc' s' where "status_run vote_then_block (- 1, sample_chain, sample_sys sample_chain no_alarms) = Some (st', cc', s')"
      "counters cc' = map f64_of_int (tally ?excl ?os)" "cc_blocksResults cc' = take (length (cc_blocksResults sample_chain)) (rev ?os @ cc_blocksResults sample_chain)"
    using block_statistics_exact [of sample_chain sample_valinfo vote_then_block "sample_sys sample_chain no_alarms"]
    unfolding Let_def by blast
  then show ?thesis
    unfolding os blocks by (intro exI [of _ st'] exI [of _ cc'] exI [of _ s']) (simp add: counters_def tally_def count_if_def)
qed

theorem handleEvidence_once_per_height_witness:
  "map m_uniqueId (alertChan (handleEvidence noon ''net'' ''net-1'' ''netvaloper1xyz'' ''AB'' True
     (Some \<lparr>dve_VoteA = \<lparr>ev_Height = ''7'', ev_Round = 0, ev_ValidatorAddress = ''AB''\<rparr>,
            dve_VoteB = \<lparr>ev_Height = ''7'', ev_Round = 0, ev_ValidatorAddress = ''AB''\<rparr>\<rparr>)
     (sample_sys sample_chain no_alarms))) = [''DoubleSignEvidence_netvaloper1xyz_7'']"
proof -
  let ?v = "\<lparr>ev_Height = ''7'', ev_Round = 0, ev_ValidatorAddress = ''AB''\<rparr>"
  let ?s = "sample_sys sample_chain no_alarms"
  have "chain_of ?s ''net'' = Some sample_chain" "\<not> silenced noon sample_chain" "alarms_ok (alarms ?s)"
      "7 = stringInt64_val (ev_Height (dve_VoteA \<lparr>dve_VoteA = ?v, dve_VoteB = ?v\<rparr>))"
    using ParseInt_itoa [of 7]
    by (simp, simp add: silenced_iff sample_chain_def, simp, simp add: stringInt64_val_def itoa_eval int64_def)
  note t = handleEvidence_once_per_height [OF this(1-3) noon_ok(1) this(4), of "''AB''" "''netvaloper1xyz''" True "''net-1''" noon]
  have "\<exists>out. alertChan (handleEvidence noon ''net'' ''net-1'' ''netvaloper1xyz'' ''AB'' True
      (Some \<lparr>dve_VoteA = ?v, dve_VoteB = ?v\<rparr>) ?s) = alertChan ?s @ out \<and>
      map (\<lambda>m. (m_uniqueId m, m_severity m, m_resolved m)) out = [(double_sign_id ''netvaloper1xyz'' 7, ''critical'', False)]"
    using t [unfolded Let_def, THEN conjunct1] by simp
  moreover have "double_sign_id ''netvaloper1xyz'' 7 = ''DoubleSignEvidence_netvaloper1xyz_7''"
    by (simp add: double_sign_id_def itoa_eval)
  ultimately show ?thesis by (auto simp: map_eq_Cons_conv)
qed

lemma connect_ws_prefers_healthy_witness:
  "cc_wsclient (connect_ws (\<lambda>u. u = ''tcp://n1'') sample_chain) = Some ''tcp://n1''"
proof -
  have "set (cc_Nodes sample_chain) = {sample_node}" "\<not> nd_down sample_node" "nd_Url sample_node = ''tcp://n1''"
    by (simp_all add: sample_chain_def sample_node_def)
  then show ?thesis
    using connect_ws_prefers_healthy [of sample_chain "\<lambda>u. u = ''tcp://n1''"] by auto
qed

end
