(* ===== verification/CacheStore.thy ===== *)
theory CacheStore
  imports ModelTypes
begin

text \<open>
  The in-memory cache of \<^verbatim>\<open>td2/utils/cache.go\<close>. An item that is past its expiration is dropped
  by the next \<^verbatim>\<open>Get\<close> or \<^verbatim>\<open>Cleanup\<close>; a zero expiration never passes. \<^verbatim>\<open>Get\<close> also changes the
  cache, so it returns it.

  What the fetching code relies on is stated as the locale \<open>expiring_cache\<close>: a stored value can
  be read until its time is up, whatever is looked up or stored under other keys in between.
\<close>

section \<open>Operations\<close>

record 'v CacheItem =
  ci_Value :: 'v
  ci_Expiration :: gotime

type_synonym 'v TenderdutyCache = "(string, 'v CacheItem) gomap"

definition cache_Set :: "gotime \<Rightarrow> string \<Rightarrow> 'v \<Rightarrow> duration \<Rightarrow> 'v TenderdutyCache \<Rightarrow> 'v TenderdutyCache" where
  "cache_Set now key v ttl c =
     gm_set key \<lparr>ci_Value = v, ci_Expiration = (if 0 < ttl then now + ttl else zero_time)\<rparr> c"

definition item_expired :: "gotime \<Rightarrow> 'v CacheItem \<Rightarrow> bool" where
  "item_expired now it \<longleftrightarrow> \<not> IsZero (ci_Expiration it) \<and> ci_Expiration it < now"

definition cache_Get :: "gotime \<Rightarrow> string \<Rightarrow> 'v TenderdutyCache \<Rightarrow> 'v option \<times> 'v TenderdutyCache" where
  "cache_Get now key c =
     (case gm_get c key of
        None \<Rightarrow> (None, c)
      | Some it \<Rightarrow> if item_expired now it then (None, gm_del key c) else (Some (ci_Value it), c))"

definition cache_Delete :: "string \<Rightarrow> 'v TenderdutyCache \<Rightarrow> 'v TenderdutyCache" where
  "cache_Delete key c = gm_del key c"

fun cache_Cleanup :: "gotime \<Rightarrow> 'v TenderdutyCache \<Rightarrow> 'v TenderdutyCache" where
  "cache_Cleanup now [] = []"
| "cache_Cleanup now ((k, it) # c) =
     (if item_expired now it then cache_Cleanup now c else (k, it) # cache_Cleanup now c)"

fun cache_Size :: "gotime \<Rightarrow> 'v TenderdutyCache \<Rightarrow> int" where
  "cache_Size now [] = 0"
| "cache_Size now ((k, it) # c) =
     (if IsZero (ci_Expiration it) \<or> now < ci_Expiration it then 1 else 0) + cache_Size now c"

section \<open>The contract of the cache\<close>

locale expiring_cache =
  fixes get :: "gotime \<Rightarrow> string \<Rightarrow> 'c \<Rightarrow> 'v option \<times> 'c"
    and put :: "gotime \<Rightarrow> string \<Rightarrow> 'v \<Rightarrow> duration \<Rightarrow> 'c \<Rightarrow> 'c"
  assumes get_put_alive: "0 < ttl \<Longrightarrow> u \<le> now + ttl \<Longrightarrow> fst (get u k (put now k v ttl c)) = Some v"
    and get_put_other: "k \<noteq> k' \<Longrightarrow> fst (get u k (put now k' v ttl c)) = fst (get u k c)"
    and get_keeps: "u \<le> u' \<Longrightarrow> fst (get u' k (snd (get u k' c))) = fst (get u' k c)"
    and get_earlier: "u \<le> u' \<Longrightarrow> fst (get u' k c) = Some v \<Longrightarrow> fst (get u k c) = Some v"
begin

text \<open>A value that can still be read at time \<open>e\<close> can be read at any time before, and stays readable.\<close>

lemma held_get: "fst (get e k c) = Some v \<Longrightarrow> u \<le> e \<Longrightarrow> fst (get u k c) = Some v"
  using get_earlier by blast

lemma held_after_get: "fst (get e k c) = Some v \<Longrightarrow> u \<le> e \<Longrightarrow> fst (get e k (snd (get u k' c))) = Some v"
  by (simp add: get_keeps)

lemma held_after_put: "fst (get e k c) = Some v \<Longrightarrow> k \<noteq> k' \<Longrightarrow> fst (get e k (put u k' w ttl c)) = Some v"
  by (simp add: get_put_other)

lemma held_put: "0 < ttl \<Longrightarrow> fst (get (now + ttl) k (put now k v ttl c)) = Some v"
  by (simp add: get_put_alive)

end

lemma cache_Get_fst:
  "fst (cache_Get now k c) =
     (case gm_get c k of None \<Rightarrow> None | Some it \<Rightarrow> if item_expired now it then None else Some (ci_Value it))"
  by (simp add: cache_Get_def split: option.split)

interpretation tc: expiring_cache cache_Get cache_Set
proof unfold_locales
  show "fst (cache_Get u k (cache_Set now k v ttl c)) = Some v" if "0 < ttl" "u \<le> now + ttl"
    for ttl u now k and v :: 'a and c
    using that by (simp add: cache_Get_fst cache_Set_def item_expired_def)
  show "fst (cache_Get u k (cache_Set now k' v ttl c)) = fst (cache_Get u k c)" if "k \<noteq> k'"
    for k k' u now and v :: 'a and ttl c
    using that by (simp add: cache_Get_fst cache_Set_def)
  show "fst (cache_Get u' k (snd (cache_Get u k' c))) = fst (cache_Get u' k c)" if "u \<le> u'"
    for u u' k k' and c :: "'a TenderdutyCache"
  proof (cases "k = k' \<and> (\<exists>it. gm_get c k = Some it \<and> item_expired u it)")
    case True
    then obtain it where it: "gm_get c k' = Some it" "item_expired u it" and k: "k = k'" by auto
    from it(2) that have "item_expired u' it" by (simp add: item_expired_def)
    with it k show ?thesis by (simp add: cache_Get_fst) (simp add: cache_Get_def)
  next
    case False
    then show ?thesis
      by (auto simp: cache_Get_fst) (auto simp: cache_Get_def split: option.splits)
  qed
  show "fst (cache_Get u k c) = Some v" if "u \<le> u'" "fst (cache_Get u' k c) = Some v"
    for u u' k and c :: "'a TenderdutyCache" and v
    using that by (auto simp: cache_Get_fst item_expired_def split: option.splits if_splits)
qed

section \<open>Cleaning up\<close>

lemma cache_Cleanup_keys: "k \<in> set (gm_keys (cache_Cleanup now c)) \<Longrightarrow> k \<in> set (gm_keys c)"
  by (induction now c rule: cache_Cleanup.induct) (auto simp: gm_keys_def split: if_splits)

lemma cache_Cleanup_ok: "gm_ok c \<Longrightarrow> gm_ok (cache_Cleanup now c)"
  using cache_Cleanup_keys
  by (induction now c rule: cache_Cleanup.induct) (auto simp: gm_ok_def gm_keys_def)

lemma gm_get_Cons: "gm_get ((k, v) # m) k' = (if k = k' then Some v else gm_get m k')"
  by (simp add: gm_get_def)

lemma gm_get_absent: "k \<notin> fst ` set m \<Longrightarrow> gm_get m k = None"
  by (simp add: gm_get_def map_of_eq_None_iff)

lemma gm_get_Cleanup:
  "gm_ok c \<Longrightarrow> gm_get (cache_Cleanup now c) k =
     (case gm_get c k of None \<Rightarrow> None | Some it \<Rightarrow> if item_expired now it then None else Some it)"
proof (induction now c rule: cache_Cleanup.induct)
  case (2 now k' it c)
  then have "k' \<notin> fst ` set c" "gm_ok c" by (auto simp: gm_ok_def)
  then have abs: "gm_get c k' = None" by (simp add: gm_get_absent)
  with 2 \<open>gm_ok c\<close> show ?case
    by (auto simp: gm_get_Cons)
qed simp

lemma cache_Size_bounds: "0 \<le> cache_Size now c \<and> cache_Size now c \<le> gm_len c"
  by (induction now c rule: cache_Size.induct) (auto simp: gm_len_def)

lemma cache_Size_Cleanup: "cache_Size now (cache_Cleanup now c) = cache_Size now c"
  by (induction now c rule: cache_Cleanup.induct) (auto simp: item_expired_def)

text \<open>
  \<^verbatim>\<open>Cleanup\<close> is invisible. Dropping the expired items at any time changes no answer a later
  \<^verbatim>\<open>Get\<close> gives and no later \<^verbatim>\<open>Size\<close> of the same instant, and it leaves at most the items \<^verbatim>\<open>Get\<close>
  still returns: every key that remains can be read.
\<close>

lemma cache_Cleanup_invisible:
  assumes "gm_ok c" "now \<le> later"
  shows "fst (cache_Get later k (cache_Cleanup now c)) = fst (cache_Get later k c) \<and>
    cache_Size now (cache_Cleanup now c) = cache_Size now c \<and>
    (k \<in> set (gm_keys (cache_Cleanup now c)) \<longleftrightarrow> fst (cache_Get now k c) \<noteq> None)"
proof (intro conjI)
  show "fst (cache_Get later k (cache_Cleanup now c)) = fst (cache_Get later k c)"
    using assms by (auto simp: cache_Get_fst gm_get_Cleanup item_expired_def split: option.split)
  show "cache_Size now (cache_Cleanup now c) = cache_Size now c"
    by (rule cache_Size_Cleanup)
  show "k \<in> set (gm_keys (cache_Cleanup now c)) \<longleftrightarrow> fst (cache_Get now k c) \<noteq> None"
    unfolding gm.keys_get cache_Get_fst gm_get_Cleanup [OF assms(1)] by (simp split: option.split)
qed

lemma cache_Cleanup_invisible_witness:
  "let c = cache_Set 0 ''a'' True 5 (cache_Set 0 ''b'' False 50 [])
   in cache_Size 10 (cache_Cleanup 10 c) = 1 \<and>
      fst (cache_Get 20 ''b'' (cache_Cleanup 10 c)) = fst (cache_Get 20 ''b'' c)"
proof -
  let ?c = "cache_Set 0 ''a'' True 5 (cache_Set 0 ''b'' False 50 [])"
  have ok: "gm_ok ?c" by (simp add: cache_Set_def)
  have "cache_Size 10 ?c = 1" by code_simp
  then show ?thesis
    using cache_Cleanup_invisible [OF ok, of 10 20 "''b''"] by (simp add: Let_def)
qed

end
