(* ===== verification/ChainRegistry.thy ===== *)
theory ChainRegistry
  imports CacheStore Samples
begin

text \<open>
  The chain registry of \<^verbatim>\<open>td2/chain-details.go\<close>: the table of cosmos.directory paths and its
  refresh, the proxy URLs the RPC fallbacks use, the cached fetch of a chain's directory entry, and
  the bank metadata derived from it.

  The answer of an HTTP request is a parameter: no answer, or a status with a body that was read and
  decoded (or not). The table \<^verbatim>\<open>cosmosPaths\<close> and the cache \<^verbatim>\<open>td.tenderdutyCache\<close> are passed in
  and returned.
\<close>

section \<open>Prefixes and paths\<close>

definition altValopers :: "(string, string) gomap" where
  "altValopers = [(''ival'', ''ica'')]"

text \<open>A missing entry of a map of strings reads as the empty string.\<close>

definition gm_string :: "('k, string) gomap \<Rightarrow> 'k \<Rightarrow> string" where
  "gm_string m k = (case gm_get m k of None \<Rightarrow> [] | Some v \<Rightarrow> v)"

definition getAltPrefix :: "string \<Rightarrow> string \<times> bool" where
  "getAltPrefix oper =
     (let p = gm_string altValopers (hd (Split oper ''1'')) in (p, p \<noteq> []))"

definition cosmosPaths :: "(string, string) gomap" where
  "cosmosPaths =
    [(''Antora'', ''idep''), (''Oraichain'', ''oraichain''), (''agoric-3'', ''agoric''),
     (''akashnet-2'', ''akash''), (''arkh'', ''arkh''), (''axelar-dojo-1'', ''axelar''),
     (''bitcanna-1'', ''bitcanna''), (''bitsong-2b'', ''bitsong''), (''bostrom'', ''bostrom''),
     (''carbon-1'', ''carbon''), (''cerberus-chain-1'', ''cerberus''), (''cheqd-mainnet-1'', ''cheqd''),
     (''chihuahua-1'', ''chihuahua''), (''colosseum-1'', ''firmachain''), (''columbus-5'', ''terra''),
     (''comdex-1'', ''comdex''), (''core-1'', ''persistence''), (''cosmoshub-4'', ''cosmoshub''),
     (''crescent-1'', ''crescent''), (''cronosmainnet_25-1'', ''cronos''),
     (''crypto-org-chain-mainnet-1'', ''cryptoorgchain''), (''cudos-1'', ''cudos''),
     (''darchub'', ''konstellation''), (''desmos-mainnet'', ''desmos''), (''dig-1'', ''dig''),
     (''echelon_3000-3'', ''echelon''), (''emoney-3'', ''emoney''), (''evmos_9001-2'', ''evmos''),
     (''fetchhub-4'', ''fetchhub''), (''galaxy-1'', ''galaxy''), (''genesis_29-2'', ''genesisl1''),
     (''gravity-bridge-3'', ''gravitybridge''), (''impacthub-3'', ''impacthub''),
     (''injective-1'', ''injective''), (''iov-mainnet-ibc'', ''starname''), (''irishub-1'', ''irisnet''),
     (''juno-1'', ''juno''), (''kava_2222-10'', ''kava''), (''kichain-2'', ''kichain''),
     (''laozi-mainnet'', ''bandchain''), (''likecoin-mainnet-2'', ''likecoin''),
     (''logos_7002-1'', ''logos''), (''lum-network-1'', ''lumnetwork''), (''mainnet-3'', ''decentr''),
     (''mantle-1'', ''assetmantle''), (''meme-1'', ''meme''), (''microtick-1'', ''microtick''),
     (''morocco-1'', ''chronicnetwork''), (''mythos_7001-1'', ''mythos''),
     (''nomic-stakenet-2'', ''nomic''), (''octa'', ''octa''), (''odin-mainnet-freya'', ''odin''),
     (''osmosis-1'', ''osmosis''), (''panacea-3'', ''panacea''), (''phoenix-1'', ''terra2''),
     (''pio-mainnet-1'', ''provenance''), (''regen-1'', ''regen''), (''secret-4'', ''secretnetwork''),
     (''sentinelhub-2'', ''sentinel''), (''shentu-2.2'', ''shentu''), (''sifchain-1'', ''sifchain''),
     (''sommelier-3'', ''sommelier''), (''stargaze-1'', ''stargaze''),
     (''thorchain-mainnet-v1'', ''thorchain''), (''titan-1'', ''rizon''), (''umee-1'', ''umee''),
     (''vidulum-1'', ''vidulum'')]"

definition registryJson :: string where "registryJson = ''https://chains.cosmos.directory/''"
definition publicRpcUrl :: string where "publicRpcUrl = ''https://rpc.cosmos.directory:443/''"

record registryChain =
  rg_Path :: string
  rg_ChainId :: string

text \<open>What an HTTP GET came to: a transport error, or a status with the body, decoded or not.\<close>

datatype 'a reply = NoReply string | Reply (status_code: int) (status_text: string) (body: "string + 'a")

definition refreshRegistry ::
  "registryChain list reply \<Rightarrow> (string, string) gomap \<Rightarrow> string option \<times> (string, string) gomap" where
  "refreshRegistry res paths =
     (case res of
        NoReply err \<Rightarrow> (Some err, paths)
      | Reply _ _ (Inl err) \<Rightarrow> (Some err, paths)
      | Reply _ _ (Inr rows) \<Rightarrow>
          if rows = [] then (Some ''response had no chains'', paths)
          else (None, fold (\<lambda>c. gm_set (rg_ChainId c) (rg_Path c)) rows paths))"

definition getRegistryUrl :: "string \<Rightarrow> (string, string) gomap \<Rightarrow> string \<times> bool" where
  "getRegistryUrl chainid paths =
     (publicRpcUrl @ gm_string paths chainid, gm_string paths chainid \<noteq> [])"

definition getRegistryUrlByChainName :: "string \<Rightarrow> string" where
  "getRegistryUrlByChainName chainName = publicRpcUrl @ chainName"

section \<open>The directory entry of a chain\<close>

text \<open>What the program keeps in its cache; a type assertion on a cached value is a case analysis.\<close>

datatype cached =
    CachedChainData CosmosDirectoryChainData
  | CachedPrices "(string, CryptoPrice) gomap"
  | CachedBankMetadata "(string, Metadata) gomap"

definition chainDataCacheKey :: string where "chainDataCacheKey = ''cosmos_directory_chain_data_''"
definition chainDataCacheTTL :: duration where "chainDataCacheTTL = 30 * Minute"

definition fetchCosmosDirectoryChainData ::
  "gotime \<Rightarrow> string \<Rightarrow> CosmosDirectoryChainData reply \<Rightarrow> cached TenderdutyCache \<Rightarrow>
   (string + CosmosDirectoryChainData) \<times> cached TenderdutyCache" where
  "fetchCosmosDirectoryChainData now chainName resp cache =
     (let cacheKey = chainDataCacheKey @ chainName
      in case cache_Get now cacheKey cache of
           (Some (CachedChainData data), c) \<Rightarrow> (Inr data, c)
         | (_, c) \<Rightarrow>
             (case resp of
                NoReply err \<Rightarrow> (Inl err, c)
              | Reply code status b \<Rightarrow>
                  if code \<noteq> 200 then
                    (Inl (''cosmos.directory returned status: '' @ status @ '' for chain: '' @ chainName), c)
                  else case b of
                    Inl err \<Rightarrow> (Inl err, c)
                  | Inr chainData \<Rightarrow>
                      if cd_ChainID chainData = [] then
                        (Inl (''cosmos.directory returned empty chain data for: '' @ chainName), c)
                      else (Inr chainData,
                            cache_Set now cacheKey (CachedChainData chainData) chainDataCacheTTL c)))"

definition getEffectiveChainName :: "ChainConfig \<Rightarrow> string" where
  "getEffectiveChainName cc = (if cc_ChainName cc \<noteq> [] then cc_ChainName cc else ToLower (cc_name cc))"

definition loadCosmosDirectoryData ::
  "gotime \<Rightarrow> CosmosDirectoryChainData reply \<Rightarrow> ChainConfig \<Rightarrow> cached TenderdutyCache \<Rightarrow>
   string option \<times> ChainConfig \<times> cached TenderdutyCache" where
  "loadCosmosDirectoryData now resp cc cache =
     (case fetchCosmosDirectoryChainData now (getEffectiveChainName cc) resp cache of
        (Inl err, c) \<Rightarrow> (Some err, cc, c)
      | (Inr data, c) \<Rightarrow>
          if cd_ChainID data \<noteq> cc_ChainId cc then
            (Some (''configured chain ID ('' @ cc_ChainId cc @
                   '') does not match the chain ID from CosmosDirectory ('' @ cd_ChainID data @
                   ''), you can ignore this error if the validator is running in testnet''), cc, c)
          else (None, cc\<lparr>cc_cosmosDirectoryData := Some data\<rparr>, c))"

definition hasCosmosDirectoryData :: "ChainConfig \<Rightarrow> bool" where
  "hasCosmosDirectoryData cc = (cc_cosmosDirectoryData cc \<noteq> None)"

definition getCosmosDirectoryRPCUrl :: "ChainConfig \<Rightarrow> string" where
  "getCosmosDirectoryRPCUrl cc = getRegistryUrlByChainName (getEffectiveChainName cc)"

section \<open>Bank metadata from the directory\<close>

definition getDenomMetadataFromCosmosDirectory :: "ChainConfig \<Rightarrow> string \<Rightarrow> CDAsset option" where
  "getDenomMetadataFromCosmosDirectory cc denom =
     (case cc_cosmosDirectoryData cc of
        None \<Rightarrow> None
      | Some data \<Rightarrow>
          (case List.find (\<lambda>asset. cdi_Denom (cda_Base asset) = denom) (cd_Assets data) of
             Some asset \<Rightarrow> Some asset
           | None \<Rightarrow> (case cd_Assets data of [] \<Rightarrow> None | a # _ \<Rightarrow> Some a)))"

definition getChainInfoFromCosmosDirectory :: "ChainConfig \<Rightarrow> f64 \<times> f64 \<times> bool" where
  "getChainInfoFromCosmosDirectory cc =
     (case cc_cosmosDirectoryData cc of
        None \<Rightarrow> (Fin 0, Fin 0, False)
      | Some data \<Rightarrow> (cdp_CommunityTax (cd_Params data), cdp_CalculatedAPR (cd_Params data), True))"

definition directory_unit :: "CDDenomUnit \<Rightarrow> DenomUnit" where
  "directory_unit u =
     \<lparr>du_Denom = cdu_Denom u,
      du_Exponent = (if 0 \<le> cdu_Exponent u \<and> cdu_Exponent u \<le> 255 then nat (cdu_Exponent u) else 0),
      du_Aliases = cdu_Aliases u\<rparr>"

definition getBankMetadataFromCosmosDirectory :: "ChainConfig \<Rightarrow> string \<Rightarrow> Metadata option" where
  "getBankMetadataFromCosmosDirectory cc denom =
     (case getDenomMetadataFromCosmosDirectory cc denom of
        None \<Rightarrow>
          (case cc_cosmosDirectoryData cc of
             None \<Rightarrow> None
           | Some data \<Rightarrow>
               if cd_Denom data = [] then None
               else
                 let display = (if cd_Display data = [] then cd_Symbol data else cd_Display data)
                 in Some \<lparr>md_Description = [],
                      md_DenomUnits =
                        [\<lparr>du_Denom = cd_Denom data, du_Exponent = 0, du_Aliases = []\<rparr>] @
                        (if display \<noteq> [] \<and> display \<noteq> cd_Denom data
                         then [\<lparr>du_Denom = display, du_Exponent = cd_Decimals data, du_Aliases = []\<rparr>] else []),
                      md_Base = cd_Denom data, md_Display = display,
                      md_Name = cd_ChainName data, md_Symbol = cd_Symbol data\<rparr>)
      | Some cdAsset \<Rightarrow>
          Some \<lparr>md_Description = cda_Description cdAsset,
            md_DenomUnits = map directory_unit (cda_DenomUnits cdAsset),
            md_Base = cdi_Denom (cda_Base cdAsset), md_Display = cdi_Denom (cda_Display cdAsset),
            md_Name = cda_Name cdAsset, md_Symbol = cda_Symbol cdAsset\<rparr>)"

section \<open>The path table\<close>

lemma gm_string_simps [simp]:
  "gm_string [] k = []"
  "gm_string (gm_set k v m) k' = (if k' = k then v else gm_string m k')"
  by (simp_all add: gm_string_def)

text \<open>The path of a chain after the rows of an answer: the last row wins.\<close>

fun last_path :: "registryChain list \<Rightarrow> string \<Rightarrow> string \<Rightarrow> string" where
  "last_path [] chainid old = old"
| "last_path (c # cs) chainid old = last_path cs chainid (if rg_ChainId c = chainid then rg_Path c else old)"

lemma gm_string_rows:
  "gm_string (fold (\<lambda>c. gm_set (rg_ChainId c) (rg_Path c)) cs paths) chainid =
     last_path cs chainid (gm_string paths chainid)"
  by (induction cs arbitrary: paths) auto

lemma last_path_absent: "chainid \<notin> rg_ChainId ` set cs \<Longrightarrow> last_path cs chainid old = old"
  by (induction cs arbitrary: old) auto

text \<open>
  A refresh of the registry is all or nothing. When the request fails, the body does not decode
  or lists no chain, the error is returned and the table of paths is the one there was. Otherwise
  every listed chain has the path of its last row, a chain that is not listed keeps the path it
  had, and a public endpoint is reported for a chain exactly when its path is not empty.
\<close>

lemma refreshRegistry_all_or_nothing:
  "case refreshRegistry res paths of
     (Some err, paths') \<Rightarrow> paths' = paths \<and> (\<forall>code status rows. res \<noteq> Reply code status (Inr rows) \<or> rows = [])
   | (None, paths') \<Rightarrow>
       (\<exists>code status rows. res = Reply code status (Inr rows) \<and> rows \<noteq> [] \<and>
         (\<forall>chainid. getRegistryUrl chainid paths' =
            (let p = last_path rows chainid (gm_string paths chainid) in (publicRpcUrl @ p, p \<noteq> []))))"
  by (auto simp: refreshRegistry_def getRegistryUrl_def gm_string_rows Let_def split: reply.split sum.split)


section \<open>The directory cache\<close>

lemma chain_key_eq [simp]: "chainDataCacheKey @ a = chainDataCacheKey @ b \<longleftrightarrow> a = b"
  by simp

lemma fetch_held:
  assumes "fst (cache_Get e (chainDataCacheKey @ k) c) = Some (CachedChainData d)" "now \<le> e"
  shows "fst (cache_Get e (chainDataCacheKey @ k) (snd (fetchCosmosDirectoryChainData now n resp c))) =
      Some (CachedChainData d)"
    and "n = k \<Longrightarrow> fst (fetchCosmosDirectoryChainData now n resp c) = Inr d"
proof -
  let ?K = "chainDataCacheKey @ k" and ?N = "chainDataCacheKey @ n"
  obtain r c1 where g: "cache_Get now ?N c = (r, c1)" by force
  have c1: "fst (cache_Get e ?K c1) = Some (CachedChainData d)"
    using tc.held_after_get [OF assms, of ?N] g by simp
  have own: "n = k \<Longrightarrow> r = Some (CachedChainData d)"
    using tc.held_get [OF assms] g by simp
  have put: "n \<noteq> k \<Longrightarrow> fst (cache_Get e ?K (cache_Set now ?N v ttl c1)) = Some (CachedChainData d)" for v ttl
    using tc.held_after_put [OF c1] by simp
  show "n = k \<Longrightarrow> fst (fetchCosmosDirectoryChainData now n resp c) = Inr d"
    using own g by (simp add: fetchCosmosDirectoryChainData_def)
  show "fst (cache_Get e ?K (snd (fetchCosmosDirectoryChainData now n resp c))) = Some (CachedChainData d)"
  proof (cases "n = k")
    case True
    then show ?thesis using own g c1 by (simp add: fetchCosmosDirectoryChainData_def)
  next
    case False
    show ?thesis
      using g c1 put [OF False]
      by (simp add: fetchCosmosDirectoryChainData_def Let_def
          split: option.split cached.split reply.split sum.split)
  qed
qed

text \<open>The look-ups of a run, each at its time with the answer the request would get.\<close>

fun fetch_run :: "(gotime \<times> string \<times> CosmosDirectoryChainData reply) list \<Rightarrow> cached TenderdutyCache \<Rightarrow>
    (string \<times> (string + CosmosDirectoryChainData)) list" where
  "fetch_run [] c = []"
| "fetch_run ((now, n, resp) # rest) c =
     (let (r, c') = fetchCosmosDirectoryChainData now n resp c in (n, r) # fetch_run rest c')"

lemma fetch_run_held:
  "fst (cache_Get e (chainDataCacheKey @ k) c) = Some (CachedChainData d) \<Longrightarrow>
   \<forall>now\<in>fst ` set calls. now \<le> e \<Longrightarrow> (k, r) \<in> set (fetch_run calls c) \<Longrightarrow> r = Inr d"
proof (induction calls arbitrary: c)
  case (Cons call calls)
  obtain now n resp where call: "call = (now, n, resp)" by (cases call) auto
  obtain q c' where q: "fetchCosmosDirectoryChainData now n resp c = (q, c')" by force
  from Cons.prems(2) call have le: "now \<le> e" by simp
  note h = fetch_held [OF Cons.prems(1) le, of n resp]
  show ?case
    using Cons.IH [of c'] Cons.prems(2,3) h by (auto simp: call q)
qed simp

lemma fetch_fresh:
  assumes "fetchCosmosDirectoryChainData now n (Reply code status (Inr d)) c = (Inr d', c')"
    "\<And>data. fst (cache_Get now (chainDataCacheKey @ n) c) \<noteq> Some (CachedChainData data)"
  shows "fst (cache_Get (now + 30 * Minute) (chainDataCacheKey @ n) c') = Some (CachedChainData d)"
proof -
  have ttl: "(0::int) < 30 * Minute" by (simp add: Minute_def)
  have put: "\<And>c0. fst (cache_Get (now + 30 * Minute) (chainDataCacheKey @ n)
      (cache_Set now (chainDataCacheKey @ n) (CachedChainData d) (30 * Minute) c0)) = Some (CachedChainData d)"
    by (rule tc.held_put) (rule ttl)
  obtain r c1 where g: "cache_Get now (chainDataCacheKey @ n) c = (r, c1)" by force
  show ?thesis
    using assms g put
    by (auto simp: fetchCosmosDirectoryChainData_def chainDataCacheTTL_def Let_def
        split: option.splits cached.splits sum.splits if_splits)
qed

text \<open>
  The directory is asked at most once per chain and half hour. After a request that was
  answered with data for a chain, every look-up of that chain within thirty minutes returns those
  data, whatever requests for other chains come in between, and whatever the server would answer.
\<close>

lemma directory_asked_once:
  assumes "fst (cache_Get now (chainDataCacheKey @ n) c) = None"
    "fetchCosmosDirectoryChainData now n (Reply code status (Inr d)) c = (Inr d, c')"
    "\<forall>call\<in>set calls. fst call \<le> now + 30 * Minute"
    "(n, r) \<in> set (fetch_run calls c')"
  shows "r = Inr d"
proof (rule fetch_run_held)
  show "fst (cache_Get (now + 30 * Minute) (chainDataCacheKey @ n) c') = Some (CachedChainData d)"
    by (rule fetch_fresh [OF assms(2)]) (simp add: assms(1))
qed (use assms(3,4) in auto)

section \<open>Bank metadata\<close>

lemma find_member: "List.find P xs = Some x \<Longrightarrow> x \<in> set xs \<and> P x"
  by (auto simp: find_Some_iff)

lemma directory_unit_range: "du_Exponent (directory_unit u) \<le> 255"
  by (auto simp: directory_unit_def)

text \<open>
  Bank metadata from the directory. For a chain with directory data, a listed asset with the
  asked denom is used; when there is none the first asset is used although its denom is another
  one; when no asset is listed the metadata are made from the chain's own denom, whose unit has
  exponent 0, and there are none exactly when that denom is empty. Exponents taken from an asset
  lie between 0 and 255.
\<close>

lemma bank_metadata_source:
  assumes "cc_cosmosDirectoryData cc = Some data"
  shows "case getBankMetadataFromCosmosDirectory cc denom of
      None \<Rightarrow> cd_Assets data = [] \<and> cd_Denom data = []
    | Some m \<Rightarrow>
        if denom \<in> (cdi_Denom \<circ> cda_Base) ` set (cd_Assets data)
        then md_Base m = denom \<and> (\<forall>u\<in>set (md_DenomUnits m). du_Exponent u \<le> 255)
        else if cd_Assets data \<noteq> []
        then md_Base m = cdi_Denom (cda_Base (hd (cd_Assets data))) \<and> md_Base m \<noteq> denom \<and>
          (\<forall>u\<in>set (md_DenomUnits m). du_Exponent u \<le> 255)
        else md_Base m = cd_Denom data \<and> md_Base m \<noteq> [] \<and>
          (\<exists>u\<in>set (md_DenomUnits m). du_Denom u = md_Base m \<and> du_Exponent u = 0)"
proof (cases "List.find (\<lambda>asset. cdi_Denom (cda_Base asset) = denom) (cd_Assets data)")
  case (Some a)
  then have "a \<in> set (cd_Assets data)" "cdi_Denom (cda_Base a) = denom"
    by (auto dest: find_member)
  then have mem: "denom \<in> (cdi_Denom \<circ> cda_Base) ` set (cd_Assets data)"
    by force
  show ?thesis
    using assms Some mem \<open>cdi_Denom (cda_Base a) = denom\<close>
    by (auto simp: getBankMetadataFromCosmosDirectory_def getDenomMetadataFromCosmosDirectory_def
        directory_unit_range)
next
  case None
  then have no: "denom \<notin> (cdi_Denom \<circ> cda_Base) ` set (cd_Assets data)"
    by (auto simp: find_None_iff)
  show ?thesis
  proof (cases "cd_Assets data")
    case Nil
    then show ?thesis
      using assms by (simp add: getBankMetadataFromCosmosDirectory_def getDenomMetadataFromCosmosDirectory_def Let_def)
  next
    case (Cons a rest)
    have "cdi_Denom (cda_Base a) \<noteq> denom"
      using no Cons by auto
    then show ?thesis
      using assms None no Cons
      by (auto simp: getBankMetadataFromCosmosDirectory_def getDenomMetadataFromCosmosDirectory_def
          directory_unit_range)
  qed
qed

section \<open>Examples\<close>

definition sample_asset :: CDAsset where
  "sample_asset = \<lparr>cda_Base = \<lparr>cdi_Denom = ''unet'', cdi_Exponent = 0\<rparr>, cda_Symbol = ''NET'',
     cda_Display = \<lparr>cdi_Denom = ''net'', cdi_Exponent = 6\<rparr>, cda_Name = ''Net'', cda_Description = [],
     cda_DenomUnits = [\<lparr>cdu_Denom = ''unet'', cdu_Exponent = 0, cdu_Aliases = []\<rparr>,
                       \<lparr>cdu_Denom = ''net'', cdu_Exponent = 6, cdu_Aliases = []\<rparr>]\<rparr>"

definition sample_directory :: CosmosDirectoryChainData where
  "sample_directory = \<lparr>cd_ChainID = ''net-1'', cd_Path = ''net'', cd_ChainName = ''net'', cd_Symbol = ''NET'',
     cd_Display = ''net'', cd_Decimals = 6, cd_Denom = ''unet'',
     cd_Params = \<lparr>cdp_CommunityTax = Fin 0, cdp_CalculatedAPR = Fin 0, cdp_BondDenom = ''unet''\<rparr>,
     cd_Assets = [sample_asset]\<rparr>"

lemma refreshRegistry_all_or_nothing_witness:
  "getRegistryUrl ''juno-1'' (snd (refreshRegistry (Reply 200 ''OK'' (Inr [\<lparr>rg_Path = ''j2'', rg_ChainId = ''juno-1''\<rparr>])) cosmosPaths)) =
     (publicRpcUrl @ ''j2'', True) \<and>
   getRegistryUrl ''osmosis-1'' cosmosPaths = (publicRpcUrl @ ''osmosis'', True)"
proof -
  let ?row = "\<lparr>rg_Path = ''j2'', rg_ChainId = ''juno-1''\<rparr>"
  let ?res = "Reply 200 ''OK'' (Inr [?row])"
  obtain p where p: "refreshRegistry ?res cosmosPaths = (None, p)"
    by (simp add: refreshRegistry_def)
  have "getRegistryUrl ''juno-1'' p = (publicRpcUrl @ ''j2'', True)"
    using refreshRegistry_all_or_nothing [of ?res cosmosPaths] unfolding p by (simp add: Let_def)
  moreover have "gm_string cosmosPaths ''osmosis-1'' = ''osmosis''" by code_simp
  ultimately show ?thesis
    unfolding p by (simp add: getRegistryUrl_def)
qed

lemma directory_asked_once_witness:
  "fetch_run [(noon + Minute, ''net'', NoReply ''timeout'')]
     (snd (fetchCosmosDirectoryChainData noon ''net'' (Reply 200 ''OK'' (Inr sample_directory)) [])) =
   [(''net'', Inr sample_directory)]"
proof -
  let ?first = "fetchCosmosDirectoryChainData noon ''net'' (Reply 200 ''OK'' (Inr sample_directory)) []"
  obtain c' where first: "?first = (Inr sample_directory, c')"
    by (simp add: fetchCosmosDirectoryChainData_def cache_Get_def sample_directory_def)
  let ?run = "fetch_run [(noon + Minute, ''net'', NoReply ''timeout'')] c'"
  obtain r c2 where "fetchCosmosDirectoryChainData (noon + Minute) ''net'' (NoReply ''timeout'') c' = (r, c2)"
    by force
  then have r: "?run = [(''net'', r)]" by simp
  have mem: "(''net'', r) \<in> set ?run" unfolding r by simp
  have "r = Inr sample_directory"
    by (rule directory_asked_once [OF _ first _ mem]) (simp_all add: cache_Get_def Minute_def)
  with r show ?thesis by (simp add: first)
qed

lemma bank_metadata_source_witness:
  "map_option md_Base (getBankMetadataFromCosmosDirectory
     (sample_chain\<lparr>cc_cosmosDirectoryData := Some sample_directory\<rparr>) ''uatom'') = Some ''unet''"
proof -
  let ?cc = "sample_chain\<lparr>cc_cosmosDirectoryData := Some sample_directory\<rparr>"
  have "cc_cosmosDirectoryData ?cc = Some sample_directory" by simp
  from bank_metadata_source [OF this, of "''uatom''"] show ?thesis
    by (simp add: sample_directory_def sample_asset_def split: option.splits)
qed

end
