(* ===== verification/NodeHealth.thy ===== *)
theory NodeHealth
  imports BlockWatch ChainRegistry
begin

text \<open>
  The RPC nodes of a chain (\<^verbatim>\<open>td2/rpc.go\<close> and the node evaluators of \<^verbatim>\<open>td2/alert.go\<close>): choosing
  the endpoint to talk to with its fallbacks, the health check of one node, and the alerts for a
  node that is down or lags behind.

  What the network answers is a parameter, \<open>rpc_world\<close>. A health check runs as one goroutine per
  node and touches that node only; it is one step here.
\<close>

section \<open>The network\<close>

record rpc_status =
  rs_Network :: string
  rs_CatchingUp :: bool
  rs_LatestBlockTime :: gotime

text \<open>
  For a URL: the error of \<^verbatim>\<open>url.Parse\<close>, or the scheme and the text after it; the error of
  \<^verbatim>\<open>rpchttp.New\<close>; the answer of \<^verbatim>\<open>Status\<close>; and for a plain GET the body, decoded as the
  \<^verbatim>\<open>tendermintStatus\<close> of the code or as text.
\<close>

record rpc_world =
  w_Parse :: "string \<Rightarrow> string + (string \<times> string)"
  w_NewClient :: "string \<Rightarrow> string option"
  w_Status :: "string \<Rightarrow> string + rpc_status"
  w_GetStatus :: "string \<Rightarrow> string + (string \<times> bool)"
  w_GetBody :: "string \<Rightarrow> string + string"

definition getStatusWithEndpoint :: "rpc_world \<Rightarrow> string \<Rightarrow> string + (string \<times> bool)" where
  "getStatusWithEndpoint w u =
     (case w_Parse w u of
        Inl err \<Rightarrow> Inl err
      | Inr (scheme, rest) \<Rightarrow>
          let scheme' = (if scheme = ''tcp'' then ''http'' else scheme)
          in w_GetStatus w (scheme' @ rest @ ''/status''))"

text \<open>
  The expression \<^verbatim>\<open>//([^/:]+)(:\d+)?\<close>: the first place where two slashes are followed by a host,
  and the port after it.
\<close>

definition host_part :: "string \<Rightarrow> string" where
  "host_part s = takeWhile (\<lambda>c. c \<noteq> CHR ''/'' \<and> c \<noteq> CHR '':'') s"

definition port_part :: "string \<Rightarrow> string" where
  "port_part s =
     (case s of
        [] \<Rightarrow> []
      | c # cs \<Rightarrow>
          let d = takeWhile (\<lambda>c. digit_val c \<noteq> None) cs
          in if c = CHR '':'' \<and> d \<noteq> [] then c # d else [])"

fun endpointRex :: "string \<Rightarrow> (string \<times> string) option" where
  "endpointRex [] = None"
| "endpointRex (c # cs) =
     (if HasPrefix (c # cs) ''//'' \<and> host_part (drop 1 cs) \<noteq> []
      then Some (host_part (drop 1 cs), port_part (drop (length (host_part (drop 1 cs))) (drop 1 cs)))
      else endpointRex cs)"

definition guessPublicEndpoint :: "rpc_world \<Rightarrow> string \<Rightarrow> string" where
  "guessPublicEndpoint w u =
     (case w_GetBody w (u @ ''/'') of
        Inl _ \<Rightarrow> u
      | Inr b \<Rightarrow>
          (case endpointRex b of
             None \<Rightarrow> u
           | Some (host, port) \<Rightarrow>
               if port \<noteq> [] \<and> port \<noteq> '':443'' then ''http://'' @ host @ port
               else ''https://'' @ host @ '':443''))"

section \<open>Choosing an endpoint\<close>

definition turtle :: string where
  "turtle = [CHR 0xF0, CHR 0x9F, CHR 0x90, CHR 0xA2]"

text \<open>
  \<^verbatim>\<open>tryUrl\<close>: message, whether the endpoint failed, whether it is syncing; \<^verbatim>\<open>cc.client\<close> is set as
  soon as the client could be built, also when the endpoint turns out to be unusable.
\<close>

definition tryUrl :: "rpc_world \<Rightarrow> string \<Rightarrow> ChainConfig \<Rightarrow> (string \<times> bool \<times> bool) \<times> ChainConfig" where
  "tryUrl w u cc =
     (case w_Parse w u of
        Inl err \<Rightarrow> ((cross_mark @ '' could not parse url '' @ cc_name cc @ '': ('' @ u @ '') '' @ err, True, False), cc)
      | Inr _ \<Rightarrow>
          (case w_NewClient w u of
             Some err \<Rightarrow> ((cross_mark @ '' could not connect client for '' @ cc_name cc @ '': ('' @ u @ '') '' @ err,
                          True, False), cc\<lparr>cc_client := None\<rparr>)
           | None \<Rightarrow>
               let cc1 = cc\<lparr>cc_client := Some u\<rparr>;
                   info = (case w_Status w u of
                             Inr st \<Rightarrow> Inr (rs_Network st, rs_CatchingUp st)
                           | Inl _ \<Rightarrow> getStatusWithEndpoint w u)
               in case info of
                    Inl err \<Rightarrow> ((cross_mark @ '' could not get status for '' @ cc_name cc @ '': ('' @ u @ '') '' @ err,
                                True, False), cc1)
                  | Inr (network, catching_up) \<Rightarrow>
                      if network \<noteq> cc_ChainId cc then
                        ((''chain id '' @ network @ '' on '' @ u @ '' does not match, expected '' @ cc_ChainId cc @
                          '', skipping'', True, False), cc1)
                      else if catching_up then
                        ((turtle @ '' node is not synced, skipping '' @ u, True, True), cc1)
                      else (([], False, False), cc1\<lparr>cc_noNodes := False\<rparr>)))"

definition mark_down :: "gotime \<Rightarrow> string \<Rightarrow> NodeConfig \<Rightarrow> NodeConfig" where
  "mark_down now msg endpoint =
     (if \<not> nd_down endpoint then endpoint\<lparr>nd_down := True, nd_downSince := now\<rparr> else endpoint)\<lparr>nd_lastMsg := msg\<rparr>"

text \<open>The loop over the configured nodes: whether one was usable, the nodes and the chain.\<close>

fun try_nodes :: "gotime \<Rightarrow> rpc_world \<Rightarrow> bool \<Rightarrow> NodeConfig list \<Rightarrow> ChainConfig \<Rightarrow> bool \<times> NodeConfig list \<times> ChainConfig" where
  "try_nodes now w anyWorking [] cc = (False, [], cc)"
| "try_nodes now w anyWorking (endpoint # nodes) cc =
     (if anyWorking \<and> nd_down endpoint then
        (let (ok, nodes', cc') = try_nodes now w anyWorking nodes cc in (ok, endpoint # nodes', cc'))
      else
        (case tryUrl w (nd_Url endpoint) cc of
           ((msg, failed, syncing), cc1) \<Rightarrow>
             if failed then
               (let (ok, nodes', cc') = try_nodes now w anyWorking nodes cc1
                in (ok, mark_down now msg (endpoint\<lparr>nd_syncing := syncing\<rparr>) # nodes', cc'))
             else (True, endpoint # nodes, cc1)))"

text \<open>The public endpoint of the legacy look-up by chain id.\<close>

definition public_endpoint :: "rpc_world \<Rightarrow> (string, string) gomap \<Rightarrow> ChainConfig \<Rightarrow> string option" where
  "public_endpoint w paths cc =
     (if cc_PublicFallback cc \<and> snd (getRegistryUrl (cc_ChainId cc) paths)
      then Some (guessPublicEndpoint w (fst (getRegistryUrl (cc_ChainId cc) paths))) else None)"

text \<open>
  \<^verbatim>\<open>newRpc\<close>: the error, the chain, the cache and the program. \<open>None\<close> is the panic of
  \<^verbatim>\<open>toDashStatus\<close> without validator info.
\<close>

definition newRpc ::
  "gotime \<Rightarrow> rpc_world \<Rightarrow> CosmosDirectoryChainData reply \<Rightarrow> (string, string) gomap \<Rightarrow> ChainConfig \<Rightarrow>
   cached TenderdutyCache \<Rightarrow> sys \<Rightarrow> (string option \<times> ChainConfig \<times> cached TenderdutyCache \<times> sys) option" where
  "newRpc now w resp paths cc0 cache s =
     (let (cc, cache') = (if cc_cosmosDirectoryData cc0 = None
                          then snd (loadCosmosDirectoryData now resp cc0 cache) else (cc0, cache));
          anyWorking = (\<exists>endpoint\<in>set (cc_Nodes cc). \<not> nd_down endpoint);
          (ok, nodes, cc1) = try_nodes now w anyWorking (cc_Nodes cc) cc;
          cc2 = cc1\<lparr>cc_Nodes := nodes\<rparr>
      in if ok then Some (None, cc2, cache', s)
         else
           let ((_, failed1, _), cc3) =
                 tryUrl w (guessPublicEndpoint w (getRegistryUrlByChainName (getEffectiveChainName cc2))) cc2
           in if \<not> failed1 then Some (None, cc3, cache', s)
              else
                let (failed2, cc4) =
                      (case public_endpoint w paths cc3 of
                         None \<Rightarrow> (True, cc3)
                       | Some node \<Rightarrow> (let ((_, failed, _), c) = tryUrl w node cc3 in (failed, c)))
                in if \<not> failed2 then Some (None, cc4, cache', s)
                   else
                     let cc5 = cc4\<lparr>cc_noNodes := True,
                                    cc_lastError := ''no usable RPC endpoints available for '' @ cc_ChainId cc4\<rparr>;
                         s1 = s\<lparr>alarms := clearAll (cc_name cc4) (alarms s)\<rparr>;
                         err = Some (''no usable endpoints available for '' @ cc_ChainId cc4)
                     in if cfg_EnableDash (td s1)
                        then do { d \<leftarrow> toDashStatus now cc5 0 (cc_lastError cc5) 0 1;
                                  Some (err, cc5, cache', s1\<lparr>updateChan := updateChan s1 @ [d]\<rparr>) }
                        else Some (err, cc5, cache', s1))"

text \<open>An endpoint the program may use: reachable, on the right chain and caught up.\<close>

definition usable :: "rpc_world \<Rightarrow> string \<Rightarrow> string \<Rightarrow> bool" where
  "usable w chainid u =
     (\<not> isl (w_Parse w u) \<and> w_NewClient w u = None \<and>
      (case w_Status w u of
         Inr st \<Rightarrow> rs_Network st = chainid \<and> \<not> rs_CatchingUp st
       | Inl _ \<Rightarrow> getStatusWithEndpoint w u = Inr (chainid, False)))"

lemma tryUrl_failed: "fst (snd (fst (tryUrl w u cc))) \<longleftrightarrow> \<not> usable w (cc_ChainId cc) u"
  by (auto simp: tryUrl_def usable_def Let_def split: sum.splits option.splits)

lemma tryUrl_frame:
  "cc_ChainId (snd (tryUrl w u cc)) = cc_ChainId cc"
  "cc_name (snd (tryUrl w u cc)) = cc_name cc"
  "cc_Nodes (snd (tryUrl w u cc)) = cc_Nodes cc"
  "cc_PublicFallback (snd (tryUrl w u cc)) = cc_PublicFallback cc"
  "cc_ChainName (snd (tryUrl w u cc)) = cc_ChainName cc"
  "cc_valInfo (snd (tryUrl w u cc)) = cc_valInfo cc"
  by (simp_all add: tryUrl_def Let_def split: sum.splits option.splits)

lemma tryUrl_ok: "usable w (cc_ChainId cc) u \<Longrightarrow>
    cc_client (snd (tryUrl w u cc)) = Some u \<and> \<not> cc_noNodes (snd (tryUrl w u cc))"
  by (auto simp: tryUrl_def usable_def Let_def split: sum.splits option.splits)

text \<open>The URLs a call considers before the fallbacks, in order.\<close>

definition tried :: "bool \<Rightarrow> NodeConfig list \<Rightarrow> string list" where
  "tried anyWorking nodes = map nd_Url (filter (\<lambda>n. \<not> (anyWorking \<and> nd_down n)) nodes)"

lemma tried_simps [simp]:
  "tried aw [] = []"
  "tried aw (n # ns) = (if aw \<and> nd_down n then tried aw ns else nd_Url n # tried aw ns)"
  by (simp_all add: tried_def)

lemma mark_down_simps [simp]: "nd_Url (mark_down now msg n) = nd_Url n" "nd_down (mark_down now msg n)"
  by (simp_all add: mark_down_def)

lemma try_nodes_result:
  "try_nodes now w aw nodes cc = (ok, nodes', cc') \<Longrightarrow>
     cc_ChainId cc' = cc_ChainId cc \<and> cc_name cc' = cc_name cc \<and> cc_PublicFallback cc' = cc_PublicFallback cc \<and>
     cc_ChainName cc' = cc_ChainName cc \<and> cc_valInfo cc' = cc_valInfo cc \<and> map nd_Url nodes' = map nd_Url nodes \<and>
     (case List.find (usable w (cc_ChainId cc)) (tried aw nodes) of
        Some u \<Rightarrow> ok \<and> cc_client cc' = Some u \<and> \<not> cc_noNodes cc'
      | None \<Rightarrow> \<not> ok \<and> (\<forall>n\<in>set nodes'. nd_down n))"
proof (induction now w aw nodes cc arbitrary: ok nodes' cc' rule: try_nodes.induct)
  case (2 now w aw endpoint nodes cc)
  show ?case
  proof (cases "aw \<and> nd_down endpoint")
    case True
    obtain ok1 nodes1 cc1 where r: "try_nodes now w aw nodes cc = (ok1, nodes1, cc1)"
      by (cases "try_nodes now w aw nodes cc") auto
    from 2(1) [OF True r] 2(3) True r show ?thesis
      by (auto split: option.splits)
  next
    case False
    obtain msg failed syncing c1 where t: "tryUrl w (nd_Url endpoint) cc = ((msg, failed, syncing), c1)"
      by (metis prod.collapse)
    have failed: "failed \<longleftrightarrow> \<not> usable w (cc_ChainId cc) (nd_Url endpoint)"
      using tryUrl_failed [of w "nd_Url endpoint" cc] by (simp add: t)
    note frame = tryUrl_frame [of w "nd_Url endpoint" cc, unfolded t, simplified]
    show ?thesis
    proof (cases failed)
      case True
      obtain ok1 nodes1 cc1 where r: "try_nodes now w aw nodes c1 = (ok1, nodes1, cc1)"
        by (cases "try_nodes now w aw nodes c1") auto
      have eqs: "ok = ok1" "nodes' = mark_down now msg (endpoint\<lparr>nd_syncing := syncing\<rparr>) # nodes1" "cc' = cc1"
        using 2(3) True False t r by simp_all
      have bad: "\<not> usable w (cc_ChainId cc) (nd_Url endpoint)" using True failed by simp
      have tr: "tried aw (endpoint # nodes) = nd_Url endpoint # tried aw nodes" using False by simp
      show ?thesis
        using 2(2) [OF False t[symmetric] refl refl True r] frame bad
        unfolding eqs tr by (simp split: option.splits)
    next
      case ok: False
      with failed have u: "usable w (cc_ChainId cc) (nd_Url endpoint)" by simp
      from tryUrl_ok [OF u] 2(3) ok False t u frame show ?thesis by auto
    qed
  qed
qed auto


definition candidates :: "rpc_world \<Rightarrow> (string, string) gomap \<Rightarrow> ChainConfig \<Rightarrow> string list" where
  "candidates w paths cc =
     tried (\<exists>endpoint\<in>set (cc_Nodes cc). \<not> nd_down endpoint) (cc_Nodes cc) @
     [guessPublicEndpoint w (getRegistryUrlByChainName (getEffectiveChainName cc))] @
     (case public_endpoint w paths cc of None \<Rightarrow> [] | Some u \<Rightarrow> [u])"

lemma loadCosmosDirectoryData_frame:
  "\<exists>d. fst (snd (loadCosmosDirectoryData now resp cc cache)) = cc\<lparr>cc_cosmosDirectoryData := d\<rparr>"
proof -
  show ?thesis
    unfolding loadCosmosDirectoryData_def
    by (rule exI [of _ "cc_cosmosDirectoryData (fst (snd (loadCosmosDirectoryData now resp cc cache)))"])
      (simp add: loadCosmosDirectoryData_def split: prod.split sum.split)
qed

lemma candidates_cong:
  "cc_Nodes c = cc_Nodes cc \<Longrightarrow> cc_ChainId c = cc_ChainId cc \<Longrightarrow> cc_name c = cc_name cc \<Longrightarrow>
   cc_ChainName c = cc_ChainName cc \<Longrightarrow> cc_PublicFallback c = cc_PublicFallback cc \<Longrightarrow>
   candidates w paths c = candidates w paths cc"
  by (simp add: candidates_def public_endpoint_def getEffectiveChainName_def)

lemma find_append: "List.find P (xs @ ys) = (case List.find P xs of None \<Rightarrow> List.find P ys | Some x \<Rightarrow> Some x)"
  by (induction xs) auto

text \<open>The part of \<^verbatim>\<open>newRpc\<close> after the nodes have been tried without success.\<close>

lemma newRpc_fallbacks:
  assumes "cc_valInfo cc \<noteq> None"
    and dir: "(cc1, cache') = (if cc_cosmosDirectoryData cc = None
                then snd (loadCosmosDirectoryData now resp cc cache) else (cc, cache))"
    and nodes: "try_nodes now w (\<exists>endpoint\<in>set (cc_Nodes cc1). \<not> nd_down endpoint) (cc_Nodes cc1) cc1 = (ok, ns, cc2)"
  shows "newRpc now w resp paths cc cache s =
    (if ok then Some (None, cc2\<lparr>cc_Nodes := ns\<rparr>, cache', s)
     else
       let ((_, failed1, _), cc3) =
             tryUrl w (guessPublicEndpoint w (getRegistryUrlByChainName (getEffectiveChainName cc2))) (cc2\<lparr>cc_Nodes := ns\<rparr>)
       in if \<not> failed1 then Some (None, cc3, cache', s)
          else
            let (failed2, cc4) =
                  (case public_endpoint w paths cc3 of
                     None \<Rightarrow> (True, cc3)
                   | Some node \<Rightarrow> (let ((_, failed, _), c) = tryUrl w node cc3 in (failed, c)))
            in if \<not> failed2 then Some (None, cc4, cache', s)
               else
                 let cc5 = cc4\<lparr>cc_noNodes := True,
                                cc_lastError := ''no usable RPC endpoints available for '' @ cc_ChainId cc4\<rparr>;
                     s1 = s\<lparr>alarms := clearAll (cc_name cc4) (alarms s)\<rparr>;
                     err = Some (''no usable endpoints available for '' @ cc_ChainId cc4)
                 in if cfg_EnableDash (td s1)
                    then do { d \<leftarrow> toDashStatus now cc5 0 (cc_lastError cc5) 0 1;
                              Some (err, cc5, cache', s1\<lparr>updateChan := updateChan s1 @ [d]\<rparr>) }
                    else Some (err, cc5, cache', s1))"
  using nodes unfolding newRpc_def dir [symmetric]
  by (simp add: Let_def getEffectiveChainName_def)

lemma toDashStatus_total: "cc_valInfo cc \<noteq> None \<Longrightarrow> \<exists>d. toDashStatus now cc h e n a = Some d"
  by (auto simp: toDashStatus_def)

lemma tryUrl_cases:
  obtains (usable) msg syncing c where "tryUrl w u cc = ((msg, False, syncing), c)" "usable w (cc_ChainId cc) u"
      "cc_client c = Some u" "\<not> cc_noNodes c"
  | (unusable) msg syncing c where "tryUrl w u cc = ((msg, True, syncing), c)" "\<not> usable w (cc_ChainId cc) u"
proof -
  obtain msg failed syncing c where t: "tryUrl w u cc = ((msg, failed, syncing), c)"
    by (metis prod.collapse)
  show ?thesis
  proof (cases failed)
    case True
    then show ?thesis using t tryUrl_failed [of w u cc] unusable by simp
  next
    case False
    then show ?thesis using t tryUrl_failed [of w u cc] tryUrl_ok [of w cc u] usable by simp
  qed
qed

lemma sent_of_clearAll [simp]: "sent_of d (clearAll c a) = sent_of d a"
  by (cases d) (simp_all add: clearAll_def sent_of_def split: option.split)

text \<open>The last candidate: the public endpoint, when one is configured.\<close>

lemma public_cases:
  obtains (usable) v c where "public_endpoint w paths cc = Some v" "usable w (cc_ChainId cc) v"
      "(case public_endpoint w paths cc of None \<Rightarrow> (True, cc)
        | Some node \<Rightarrow> (let ((_, failed, _), c) = tryUrl w node cc in (failed, c))) = (False, c)"
      "cc_client c = Some v" "\<not> cc_noNodes c"
  | (unusable) c where "\<And>v. public_endpoint w paths cc = Some v \<Longrightarrow> \<not> usable w (cc_ChainId cc) v"
      "(case public_endpoint w paths cc of None \<Rightarrow> (True, cc)
        | Some node \<Rightarrow> (let ((_, failed, _), c) = tryUrl w node cc in (failed, c))) = (True, c)"
      "cc_name c = cc_name cc" "cc_valInfo c = cc_valInfo cc" "cc_Nodes c = cc_Nodes cc"
proof (cases "public_endpoint w paths cc")
  case None
  then show ?thesis using that(2) [of cc] by simp
next
  case (Some v)
  show ?thesis
  proof (cases rule: tryUrl_cases [of w v cc])
    case usable
    then show ?thesis using that(1) [of v] Some by simp
  next
    case (unusable msg syncing c)
    then show ?thesis using that(2) [of c] Some tryUrl_frame [of w v cc, unfolded unusable(1), simplified] by simp
  qed
qed

text \<open>What is left when no candidate is usable.\<close>

definition gave_up where
  "gave_up now c cache' s = (
    let cc5 = c\<lparr>cc_noNodes := True, cc_lastError := ''no usable RPC endpoints available for '' @ cc_ChainId c\<rparr>;
        s1 = s\<lparr>alarms := clearAll (cc_name c) (alarms s)\<rparr>;
        err = Some (''no usable endpoints available for '' @ cc_ChainId c)
    in if cfg_EnableDash (td s1)
       then do { d \<leftarrow> toDashStatus now cc5 0 (cc_lastError cc5) 0 1;
                 Some (err, cc5, cache', s1\<lparr>updateChan := updateChan s1 @ [d]\<rparr>) }
       else Some (err, cc5, cache', s1))"

lemma gave_up_result:
  assumes "cc_valInfo c \<noteq> None" "\<forall>n\<in>set (cc_Nodes c). nd_down n"
  obtains err cc' s' where "gave_up now c cache' s = Some (err, cc', cache', s')"
    "err \<noteq> None" "cc_noNodes cc'" "\<forall>n\<in>set (cc_Nodes cc'). nd_down n"
    "activeAlarms (alarms s') (cc_name c) = {}" "\<forall>d. sent_of d (alarms s') = sent_of d (alarms s)"
proof -
  obtain d where "toDashStatus now (c\<lparr>cc_noNodes := True, cc_lastError := ''no usable RPC endpoints available for '' @ cc_ChainId c\<rparr>)
      0 (''no usable RPC endpoints available for '' @ cc_ChainId c) 0 1 = Some d"
    using toDashStatus_total assms(1) by fastforce
  then show ?thesis
    using assms by (cases "cfg_EnableDash (td s)")
      (auto simp: gave_up_def Let_def activeAlarms_def exist_clearAll intro!: that)
qed

lemma directory_data_frame:
  assumes "(cc1, cache') = (if cc_cosmosDirectoryData cc = None
      then snd (loadCosmosDirectoryData now resp cc cache) else (cc, cache))"
  obtains dd where "cc1 = cc\<lparr>cc_cosmosDirectoryData := dd\<rparr>"
proof (cases "cc_cosmosDirectoryData cc")
  case None
  with assms have "cc1 = fst (snd (loadCosmosDirectoryData now resp cc cache))" by (metis fst_conv)
  then show ?thesis using that loadCosmosDirectoryData_frame [of now resp cc cache] by auto
next
  case (Some d)
  then show ?thesis using that [of "Some d"] assms by simp
qed

text \<open>
  \<^verbatim>\<open>newRpc\<close> connects to the first usable endpoint: the configured nodes in order, without
  those already marked down as long as one is not, then the proxy of the directory, then, when
  configured, the public endpoint of the chain id. Usable means reachable, on the configured chain
  and caught up, so the client is never left on another chain when no error is returned. When no
  candidate is usable the error is returned, every node is marked down and \<^verbatim>\<open>noNodes\<close> is set,
  every active alarm of the chain is forgotten and what has been notified stays on record.
\<close>

lemma newRpc_first_usable:
  assumes "cc_valInfo cc \<noteq> None"
  shows "\<exists>err cc' cache' s'. newRpc now w resp paths cc cache s = Some (err, cc', cache', s') \<and>
    (case List.find (usable w (cc_ChainId cc)) (candidates w paths cc) of
       Some u \<Rightarrow> err = None \<and> cc_client cc' = Some u \<and> \<not> cc_noNodes cc' \<and> s' = s
     | None \<Rightarrow> err \<noteq> None \<and> cc_noNodes cc' \<and> (\<forall>n\<in>set (cc_Nodes cc'). nd_down n) \<and>
         activeAlarms (alarms s') (cc_name cc) = {} \<and> (\<forall>d. sent_of d (alarms s') = sent_of d (alarms s)))"
proof -
  obtain cc1 cache' where dir: "(cc1, cache') = (if cc_cosmosDirectoryData cc = None
      then snd (loadCosmosDirectoryData now resp cc cache) else (cc, cache))"
    by (metis prod.collapse)
  obtain dd where cc1: "cc1 = cc\<lparr>cc_cosmosDirectoryData := dd\<rparr>" using dir by (rule directory_data_frame)
  have cand: "candidates w paths cc1 = candidates w paths cc"
    by (rule candidates_cong) (simp_all add: cc1)
  let ?aw = "\<exists>endpoint\<in>set (cc_Nodes cc1). \<not> nd_down endpoint"
  obtain ok ns cc2 where nodes: "try_nodes now w ?aw (cc_Nodes cc1) cc1 = (ok, ns, cc2)"
    by (metis prod.collapse)
  note res = try_nodes_result [OF nodes]
  have id1: "cc_ChainId cc1 = cc_ChainId cc" by (simp add: cc1)
  show ?thesis
  proof (cases "List.find (usable w (cc_ChainId cc)) (tried ?aw (cc_Nodes cc1))")
    case (Some u)
    then have "List.find (usable w (cc_ChainId cc)) (candidates w paths cc) = Some u"
      unfolding cand [symmetric] unfolding candidates_def find_append by (simp only: option.case)
    with Some res newRpc_fallbacks [OF assms dir nodes] id1 show ?thesis by simp
  next
    case none: None
    let ?cc2 = "cc2\<lparr>cc_Nodes := ns\<rparr>"
    let ?u = "guessPublicEndpoint w (getRegistryUrlByChainName (getEffectiveChainName cc2))"
    from res none id1 have frame: "cc_ChainId ?cc2 = cc_ChainId cc" "cc_name ?cc2 = cc_name cc"
      "cc_PublicFallback ?cc2 = cc_PublicFallback cc" "getEffectiveChainName cc2 = getEffectiveChainName cc1"
      "cc_valInfo ?cc2 \<noteq> None" and nok: "\<not> ok" and down: "\<forall>n\<in>set ns. nd_down n"
      using assms by (simp_all add: cc1 getEffectiveChainName_def)
    have find: "List.find (usable w (cc_ChainId cc)) (candidates w paths cc) =
        List.find (usable w (cc_ChainId cc)) (?u # (case public_endpoint w paths cc1 of None \<Rightarrow> [] | Some u \<Rightarrow> [u]))"
      using none unfolding cand [symmetric] unfolding candidates_def find_append frame(4)
      by (simp only: option.case append_Cons append_Nil find_append [symmetric])
    show ?thesis
    proof (cases rule: tryUrl_cases [of w ?u ?cc2])
      case usable
      then show ?thesis using newRpc_fallbacks [OF assms dir nodes] nok find frame(1) by simp
    next
      case (unusable msg syncing c3)
      note f3 = tryUrl_frame [of w ?u ?cc2, unfolded unusable(1), simplified]
      have pub3: "public_endpoint w paths c3 = public_endpoint w paths cc1"
        using f3 frame by (simp add: public_endpoint_def cc1)
      show ?thesis
      proof (cases rule: public_cases [of w paths c3])
        case (usable v c)
        then show ?thesis
          using newRpc_fallbacks [OF assms dir nodes] nok find frame(1) f3 unusable pub3 by simp
      next
        case pub: (unusable c)
        have nofind: "List.find (usable w (cc_ChainId cc)) (candidates w paths cc) = None"
          unfolding find using pub(1) unusable(2) frame(1) f3 pub3 by (simp split: option.split)
        have c: "cc_name c = cc_name cc" "cc_valInfo c \<noteq> None" "\<forall>n\<in>set (cc_Nodes c). nd_down n"
          using pub(3-5) f3 frame down by simp_all
        have eq: "newRpc now w resp paths cc cache s = gave_up now c cache' s"
          using newRpc_fallbacks [OF assms dir nodes] nok unusable(1) pub(2) by (simp add: gave_up_def)
        obtain err cc' s' where g: "gave_up now c cache' s = Some (err, cc', cache', s')"
          "err \<noteq> None" "cc_noNodes cc'" "\<forall>n\<in>set (cc_Nodes cc'). nd_down n"
          "activeAlarms (alarms s') (cc_name c) = {}" "\<forall>d. sent_of d (alarms s') = sent_of d (alarms s)"
          using c(2,3) by (rule gave_up_result)
        show ?thesis unfolding eq g(1) nofind using g(2-6) c(1) by simp
      qed
    qed
  qed
qed

end
