(* ===== verification/NodeAlerts.thy ===== *)
theory NodeAlerts
  imports NodeHealth Evaluate
begin

text \<open>
  The minute-by-minute health check of the nodes of a chain (the goroutine in \<^verbatim>\<open>monitorHealth\<close>,
  \<^verbatim>\<open>td2/rpc.go\<close>) and the two node evaluators of \<^verbatim>\<open>td2/alert.go\<close> that the two-second loop runs.

  Both evaluators are one pattern over different fields of a node; the locale \<open>node_alert\<close> states
  it, and the exact effect of a pass over all nodes is proved there once.
\<close>

section \<open>Formatting\<close>

text \<open>\<^verbatim>\<open>%-12s\<close> counts characters, that is bytes that do not continue a UTF-8 sequence.\<close>

definition rune_count :: "string \<Rightarrow> nat" where
  "rune_count s = length (filter (\<lambda>c. let n = of_char c :: nat in \<not> (128 \<le> n \<and> n < 192)) s)"

definition pad_right :: "nat \<Rightarrow> string \<Rightarrow> string" where
  "pad_right w s = s @ replicate (w - rune_count s) CHR '' ''"

text \<open>\<^verbatim>\<open>%.0f\<close>.\<close>

definition fmt_f0 :: "f64 \<Rightarrow> string" where
  "fmt_f0 f =
     (case f of
        NaN \<Rightarrow> ''NaN''
      | Inf neg \<Rightarrow> (if neg then ''-Inf'' else ''+Inf'')
      | Fin x \<Rightarrow> (if x < 0 \<and> rhe x = 0 then ''-0'' else itoa (rhe x)))"

section \<open>The health check of a node\<close>

text \<open>The closure \<^verbatim>\<open>alert\<close>; \<open>None\<close> is the panic of \<^verbatim>\<open>mkUpdate\<close> without validator info.\<close>

definition health_alert ::
  "gotime \<Rightarrow> string \<Rightarrow> ChainConfig \<Rightarrow> string \<Rightarrow> NodeConfig \<Rightarrow> sys \<Rightarrow> (NodeConfig \<times> sys) option" where
  "health_alert now chainName cc msg node s =
     (let n1 = node\<lparr>nd_lastMsg := pad_right 12 chainName @ '' node '' @ nd_Url node @ '' is '' @ msg\<rparr>;
          n2 = (if nd_lagging n1
                then n1\<lparr>nd_lagging := False, nd_laggingSince := time_Unix 0, nd_wasLagging := True\<rparr> else n1)
      in if \<not> nd_AlertIfDown n2 then Some (n2\<lparr>nd_down := True\<rparr>, s)
         else
           let n3 = (if \<not> nd_down n2 then n2\<lparr>nd_down := True, nd_downSince := now\<rparr> else n2)
           in if cfg_Prom (td s) then
                do { u \<leftarrow> mkUpdate cc metricNodeDownSeconds (dur_Seconds (time_Sub now (nd_downSince n3))) (nd_Url n3);
                     Some (n3, s\<lparr>statsChan := statsChan s @ [u]\<rparr>) }
              else Some (n3, s))"

text \<open>
  The goroutine of one node. When \<^verbatim>\<open>rpchttp.New\<close> fails the closure is called, but the code goes on
  and calls a method of the nil client: a panic.
\<close>

definition check_node ::
  "gotime \<Rightarrow> rpc_world \<Rightarrow> string \<Rightarrow> ChainConfig \<Rightarrow> NodeConfig \<Rightarrow> sys \<Rightarrow> (NodeConfig \<times> ChainConfig \<times> sys) option" where
  "check_node now w chainName cc node s =
     (case w_NewClient w (nd_Url node) of
        Some _ \<Rightarrow> None
      | None \<Rightarrow>
          (case w_Status w (nd_Url node) of
             Inl _ \<Rightarrow> do { (n, s') \<leftarrow> health_alert now chainName cc ''down'' node s; Some (n, cc, s') }
           | Inr status \<Rightarrow>
               if rs_Network status \<noteq> cc_ChainId cc then
                 do { (n, s') \<leftarrow> health_alert now chainName cc ''on the wrong network'' node s; Some (n, cc, s') }
               else if rs_CatchingUp status then
                 do { (n, s') \<leftarrow> health_alert now chainName cc ''not synced'' node s;
                      Some (n\<lparr>nd_syncing := True\<rparr>, cc, s') }
               else
                 let n1 = (if nd_down node then node\<lparr>nd_lastMsg := [], nd_wasDown := True\<rparr> else node)
                 in do { u \<leftarrow> mkUpdate cc metricNodeDownSeconds (Fin 0) (nd_Url node);
                         let s1 = s\<lparr>statsChan := statsChan s @ [u]\<rparr>;
                         let n2 = n1\<lparr>nd_down := False, nd_syncing := False, nd_downSince := time_Unix 0\<rparr>;
                         let cc1 = cc\<lparr>cc_noNodes := False\<rparr>;
                         let secondsBehind = dur_Seconds (time_Sub now (rs_LatestBlockTime status));
                         s2 \<leftarrow> (if cfg_Prom (td s1)
                                then do { v \<leftarrow> mkUpdate cc1 metricNodeLagSeconds secondsBehind (nd_Url node);
                                          Some (s1\<lparr>statsChan := statsChan s1 @ [v]\<rparr>) }
                                else Some s1);
                         let lagMin = intVal (ac_Stalled (cc_Alerts cc1));
                         let n3 = (if 0 < lagMin \<and> f64_lt (f64_mul (f64_of_int lagMin) (Fin 60)) secondsBehind then
                                     (if \<not> nd_lagging n2 then n2\<lparr>nd_lagging := True, nd_laggingSince := now\<rparr> else n2)
                                       \<lparr>nd_lastMsg := pad_right 12 chainName @ '' node '' @ nd_Url node @ '' is lagging '' @
                                          fmt_f0 secondsBehind @ ''s behind the chain head''\<rparr>
                                   else
                                     (if nd_lagging n2 then n2\<lparr>nd_wasLagging := True\<rparr> else n2)
                                       \<lparr>nd_lagging := False, nd_laggingSince := time_Unix 0\<rparr>);
                         Some (n3, cc1, s2) }))"

fun check_nodes ::
  "gotime \<Rightarrow> rpc_world \<Rightarrow> string \<Rightarrow> NodeConfig list \<Rightarrow> ChainConfig \<Rightarrow> sys \<Rightarrow>
   (NodeConfig list \<times> ChainConfig \<times> sys) option" where
  "check_nodes now w chainName [] cc s = Some ([], cc, s)"
| "check_nodes now w chainName (node # nodes) cc s =
     do { (n, cc1, s1) \<leftarrow> check_node now w chainName cc node s;
          (ns, cc2, s2) \<leftarrow> check_nodes now w chainName nodes cc1 s1;
          Some (n # ns, cc2, s2) }"

text \<open>The copy of the validator info the tick keeps for comparison; the APR fields are not copied.\<close>

definition remember_valinfo :: "ChainConfig \<Rightarrow> ChainConfig" where
  "remember_valinfo cc =
     (case cc_valInfo cc of
        None \<Rightarrow> cc
      | Some vi \<Rightarrow>
          cc\<lparr>cc_lastValInfo := Some
               \<lparr>vi_Moniker = vi_Moniker vi, vi_Bonded = vi_Bonded vi, vi_Jailed = vi_Jailed vi,
                vi_Tombstoned = vi_Tombstoned vi, vi_Missed = vi_Missed vi, vi_Window = vi_Window vi,
                vi_Conspub = vi_Conspub vi, vi_Valcons = vi_Valcons vi, vi_DelegatedTokens = vi_DelegatedTokens vi,
                vi_VotingPowerPercent = vi_VotingPowerPercent vi, vi_CommissionRate = vi_CommissionRate vi,
                vi_ValidatorAPR = Fin 0, vi_Projected30DRewards = Fin 0,
                vi_SelfDelegationRewards = vi_SelfDelegationRewards vi, vi_Commission = vi_Commission vi\<rparr>\<rparr>)"

section \<open>The node evaluators\<close>

text \<open>The two branches of the loop body, with the conditions already decided.\<close>

definition node_edge ::
  "gotime \<Rightarrow> ChainConfig \<Rightarrow> bool \<Rightarrow> bool \<Rightarrow> string \<Rightarrow> string \<Rightarrow> sys \<Rightarrow> (bool \<times> bool) \<times> sys" where
  "node_edge now cc due up_again alertID message s =
     (if due then
        (if \<not> exist (alarms s) (cc_name cc) alertID
         then ((True, False), alert now (cc_name cc) message (cfg_NodeDownSeverity (td s)) False (Some alertID) s)
         else ((False, False), s))
      else if up_again then
        (if exist (alarms s) (cc_name cc) alertID
         then ((False, True), alert now (cc_name cc) message (cfg_NodeDownSeverity (td s)) True (Some alertID) s)
         else ((False, False), s))
      else ((False, False), s))"

fun node_loop ::
  "(NodeConfig \<Rightarrow> sys \<Rightarrow> (bool \<times> bool) \<times> NodeConfig \<times> sys) \<Rightarrow> NodeConfig list \<Rightarrow> sys \<Rightarrow>
   (bool \<times> bool) \<times> NodeConfig list \<times> sys" where
  "node_loop step [] s = ((False, False), [], s)"
| "node_loop step (node # nodes) s =
     (let ((a, r), n, s1) = step node s;
          ((as, rs), ns, s2) = node_loop step nodes s1
      in ((a \<or> as, r \<or> rs), n # ns, s2))"

definition node_down_id :: "ChainConfig \<Rightarrow> string \<Rightarrow> string" where
  "node_down_id cc url = ''RPCNodeDown_'' @ cc_ValAddress cc @ ''_'' @ url"

definition node_down_due :: "gotime \<Rightarrow> Config \<Rightarrow> NodeConfig \<Rightarrow> bool" where
  "node_down_due now c node \<longleftrightarrow>
     nd_AlertIfDown node \<and> nd_down node \<and> \<not> nd_wasDown node \<and> \<not> IsZero (nd_downSince node) \<and>
     dur_mul (cfg_NodeDownMin c) Minute < time_Sub now (nd_downSince node)"

definition node_down_back :: "NodeConfig \<Rightarrow> bool" where
  "node_down_back node \<longleftrightarrow> nd_AlertIfDown node \<and> \<not> nd_down node \<and> nd_wasDown node"

definition node_down_step :: "gotime \<Rightarrow> ChainConfig \<Rightarrow> NodeConfig \<Rightarrow> sys \<Rightarrow> (bool \<times> bool) \<times> NodeConfig \<times> sys" where
  "node_down_step now cc node s =
     (let due = node_down_due now (td s) node; up_again = node_down_back node;
          (r, s') = node_edge now cc due up_again (node_down_id cc (nd_Url node))
            (''Severity: '' @ cfg_NodeDownSeverity (td s) @ newline @ ''RPC node '' @ nd_Url node @
             '' has been down for > '' @ itoa (cfg_NodeDownMin (td s)) @ '' minutes on '' @ cc_ChainId cc) s
      in (r, if \<not> due \<and> up_again then node\<lparr>nd_wasDown := False\<rparr> else node, s'))"

definition evaluateRPCNodeDownAlert :: "gotime \<Rightarrow> ChainConfig \<Rightarrow> sys \<Rightarrow> verdict" where
  "evaluateRPCNodeDownAlert now cc s =
     (let (r, nodes, s') = node_loop (node_down_step now cc) (cc_Nodes cc) s
      in finish r (cc\<lparr>cc_Nodes := nodes\<rparr>) s')"

definition node_lag_id :: "ChainConfig \<Rightarrow> string \<Rightarrow> string" where
  "node_lag_id cc url = ''RPCNodeLagging_'' @ cc_ValAddress cc @ ''_'' @ url"

definition node_lag_due :: "gotime \<Rightarrow> Config \<Rightarrow> NodeConfig \<Rightarrow> bool" where
  "node_lag_due now c node \<longleftrightarrow>
     nd_AlertIfDown node \<and> nd_lagging node \<and> \<not> nd_wasLagging node \<and> \<not> IsZero (nd_laggingSince node) \<and>
     dur_mul (cfg_NodeDownMin c) Minute < time_Sub now (nd_laggingSince node)"

definition node_lag_back :: "NodeConfig \<Rightarrow> bool" where
  "node_lag_back node \<longleftrightarrow> nd_AlertIfDown node \<and> \<not> nd_lagging node \<and> nd_wasLagging node"

definition node_lag_step :: "gotime \<Rightarrow> ChainConfig \<Rightarrow> NodeConfig \<Rightarrow> sys \<Rightarrow> (bool \<times> bool) \<times> NodeConfig \<times> sys" where
  "node_lag_step now cc node s =
     (let due = node_lag_due now (td s) node; up_again = node_lag_back node;
          (r, s') = node_edge now cc due up_again (node_lag_id cc (nd_Url node))
            (''Severity: '' @ cfg_NodeDownSeverity (td s) @ newline @ ''RPC node '' @ nd_Url node @
             '' has been lagging the chain head for > '' @ itoa (cfg_NodeDownMin (td s)) @ '' minutes on '' @ cc_ChainId cc) s
      in (r, if \<not> due \<and> up_again then node\<lparr>nd_wasLagging := False\<rparr> else node, s'))"

definition evaluateRPCNodeLaggingAlert :: "gotime \<Rightarrow> ChainConfig \<Rightarrow> sys \<Rightarrow> verdict" where
  "evaluateRPCNodeLaggingAlert now cc s =
     (let (r, nodes, s') = node_loop (node_lag_step now cc) (cc_Nodes cc) s
      in finish r (cc\<lparr>cc_Nodes := nodes\<rparr>) s')"

section \<open>A pass over the nodes\<close>

locale node_alert =
  fixes step :: "gotime \<Rightarrow> ChainConfig \<Rightarrow> NodeConfig \<Rightarrow> sys \<Rightarrow> (bool \<times> bool) \<times> NodeConfig \<times> sys"
    and ident :: "ChainConfig \<Rightarrow> string \<Rightarrow> string"
    and due :: "gotime \<Rightarrow> Config \<Rightarrow> NodeConfig \<Rightarrow> bool"
    and up_again :: "NodeConfig \<Rightarrow> bool"
    and reset :: "NodeConfig \<Rightarrow> NodeConfig"
  assumes step_edge: "\<exists>message. step now cc n s =
      (let (r, s') = node_edge now cc (due now (td s) n) (up_again n) (ident cc (nd_Url n)) message s
       in (r, if \<not> due now (td s) n \<and> up_again n then reset n else n, s'))"
    and ident_inj: "ident cc u = ident cc v \<Longrightarrow> u = v"
begin

lemma step_effect:
  assumes c: "chain_of s (cc_name cc) = Some c0" and ok: "alarms_ok (alarms s)" and t: "\<not> IsZero now"
    and st: "step now cc n s = ((a, r), n', s')"
  shows "td s' = td s" "alarms_ok (alarms s')" "chain_of s' (cc_name cc) = Some c0"
    "n' = (if \<not> due now (td s) n \<and> up_again n then reset n else n)"
    "a \<longleftrightarrow> due now (td s) n \<and> \<not> exist (alarms s) (cc_name cc) (ident cc (nd_Url n))"
    "r \<longleftrightarrow> \<not> due now (td s) n \<and> up_again n \<and> exist (alarms s) (cc_name cc) (ident cc (nd_Url n))"
    "exist (alarms s') k i \<longleftrightarrow>
       (if k = cc_name cc \<and> i = ident cc (nd_Url n)
        then (if due now (td s) n then exist (alarms s) k i \<or> \<not> silenced now c0
              else \<not> up_again n \<and> exist (alarms s) k i)
        else exist (alarms s) k i)"
    "\<exists>ms. alertChan s' = alertChan s @ ms \<and> (\<forall>m\<in>set ms. m_uniqueId m = ident cc (nd_Url n)) \<and>
       (ms \<noteq> [] \<longleftrightarrow> (a \<or> r) \<and> \<not> silenced now c0)"
proof -
  obtain msg where e: "step now cc n s =
      (let (r, s') = node_edge now cc (due now (td s) n) (up_again n) (ident cc (nd_Url n)) msg s
       in (r, if \<not> due now (td s) n \<and> up_again n then reset n else n, s'))"
    using step_edge by blast
  note d = e [unfolded st]
  show "td s' = td s" "n' = (if \<not> due now (td s) n \<and> up_again n then reset n else n)"
    "a \<longleftrightarrow> due now (td s) n \<and> \<not> exist (alarms s) (cc_name cc) (ident cc (nd_Url n))"
    "r \<longleftrightarrow> \<not> due now (td s) n \<and> up_again n \<and> exist (alarms s) (cc_name cc) (ident cc (nd_Url n))"
    using d by (auto simp: node_edge_def Let_def split: if_splits)
  show "alarms_ok (alarms s')"
    using d ok t by (auto simp: node_edge_def Let_def clock_ok_def alert_alarms_ok split: if_splits)
  show "chain_of s' (cc_name cc) = Some c0"
    using d c by (auto simp: node_edge_def Let_def split: if_splits)
  show "exist (alarms s') k i \<longleftrightarrow>
       (if k = cc_name cc \<and> i = ident cc (nd_Url n)
        then (if due now (td s) n then exist (alarms s) k i \<or> \<not> silenced now c0
              else \<not> up_again n \<and> exist (alarms s) k i)
        else exist (alarms s) k i)"
    using d by (auto simp: node_edge_def Let_def exist_alert [OF c ok] split: if_splits)
  show "\<exists>ms. alertChan s' = alertChan s @ ms \<and> (\<forall>m\<in>set ms. m_uniqueId m = ident cc (nd_Url n)) \<and>
       (ms \<noteq> [] \<longleftrightarrow> (a \<or> r) \<and> \<not> silenced now c0)"
    using d by (auto simp: node_edge_def Let_def alert_alertChan [OF c] alert_message_simps [OF c] split: if_splits)
qed

lemma loop_effect:
  assumes "chain_of s (cc_name cc) = Some c0" "alarms_ok (alarms s)" "\<not> IsZero now"
    "node_loop (step now cc) nodes s = ((a, r), nodes', s')" "distinct (map nd_Url nodes)"
  shows "td s' = td s \<and> alarms_ok (alarms s') \<and> chain_of s' (cc_name cc) = Some c0 \<and>
    nodes' = map (\<lambda>n. if \<not> due now (td s) n \<and> up_again n then reset n else n) nodes \<and>
    (a \<longleftrightarrow> (\<exists>n\<in>set nodes. due now (td s) n \<and> \<not> exist (alarms s) (cc_name cc) (ident cc (nd_Url n)))) \<and>
    (r \<longleftrightarrow> (\<exists>n\<in>set nodes. \<not> due now (td s) n \<and> up_again n \<and> exist (alarms s) (cc_name cc) (ident cc (nd_Url n)))) \<and>
    (\<forall>n\<in>set nodes. exist (alarms s') (cc_name cc) (ident cc (nd_Url n)) \<longleftrightarrow>
       (if due now (td s) n then exist (alarms s) (cc_name cc) (ident cc (nd_Url n)) \<or> \<not> silenced now c0
        else \<not> up_again n \<and> exist (alarms s) (cc_name cc) (ident cc (nd_Url n)))) \<and>
    (\<forall>k i. (k = cc_name cc \<longrightarrow> i \<notin> (ident cc \<circ> nd_Url) ` set nodes) \<longrightarrow> exist (alarms s') k i = exist (alarms s) k i) \<and>
    (\<exists>ms. alertChan s' = alertChan s @ ms \<and>
       (\<forall>m\<in>set ms. \<exists>n\<in>set nodes. m_uniqueId m = ident cc (nd_Url n) \<and> (due now (td s) n \<or> up_again n)))"
  using assms
proof (induction nodes arbitrary: s a r nodes')
  case (Cons n nodes)
  obtain a1 r1 n1 s1 where st: "step now cc n s = ((a1, r1), n1, s1)" by (metis prod.collapse)
  obtain a2 r2 ns2 s2 where lp: "node_loop (step now cc) nodes s1 = ((a2, r2), ns2, s2)" by (metis prod.collapse)
  note e = step_effect [OF Cons.prems(1,2,3) st]
  have s2: "s2 = s'" "nodes' = n1 # ns2" "a = (a1 \<or> a2)" "r = (r1 \<or> r2)"
    using Cons.prems(4) st lp by auto
  have "distinct (map nd_Url nodes)" using Cons.prems(5) by simp
  note ih = Cons.IH [OF e(3) e(2) Cons.prems(3) lp [unfolded s2] this]
  have other: "ident cc (nd_Url m) \<noteq> ident cc (nd_Url n)" if "m \<in> set nodes" for m
  proof
    assume "ident cc (nd_Url m) = ident cc (nd_Url n)"
    then have "nd_Url m = nd_Url n" by (rule ident_inj)
    with that have "nd_Url n \<in> nd_Url ` set nodes" by (metis image_eqI)
    with Cons.prems(5) show False by simp
  qed
  have same: "exist (alarms s1) (cc_name cc) (ident cc (nd_Url m)) = exist (alarms s) (cc_name cc) (ident cc (nd_Url m))"
    if "m \<in> set nodes" for m
    using other [OF that] e(7) by simp
  have n_last: "exist (alarms s') (cc_name cc) (ident cc (nd_Url n)) = exist (alarms s1) (cc_name cc) (ident cc (nd_Url n))"
    using ih other by (metis (no_types, lifting) comp_apply imageE)
  obtain m1 where m1: "alertChan s1 = alertChan s @ m1" "\<forall>m\<in>set m1. m_uniqueId m = ident cc (nd_Url n)"
      "m1 \<noteq> [] \<longrightarrow> a1 \<or> r1"
    using e(8) by blast
  obtain m2 where m2: "alertChan s' = alertChan s1 @ m2"
      "\<forall>m\<in>set m2. \<exists>n\<in>set nodes. m_uniqueId m = ident cc (nd_Url n) \<and> (due now (td s) n \<or> up_again n)"
    using ih e(1) by auto
  have "\<exists>ms. alertChan s' = alertChan s @ ms \<and>
       (\<forall>m\<in>set ms. \<exists>n'\<in>set (n # nodes). m_uniqueId m = ident cc (nd_Url n') \<and> (due now (td s) n' \<or> up_again n'))"
    using m1 m2 e(5,6) by (intro exI [of _ "m1 @ m2"]) auto
  moreover have "nodes' = map (\<lambda>n. if \<not> due now (td s) n \<and> up_again n then reset n else n) (n # nodes)"
    using ih e(1,4) s2(2) by simp
  moreover have "\<forall>m\<in>set (n # nodes). exist (alarms s') (cc_name cc) (ident cc (nd_Url m)) \<longleftrightarrow>
       (if due now (td s) m then exist (alarms s) (cc_name cc) (ident cc (nd_Url m)) \<or> \<not> silenced now c0
        else \<not> up_again m \<and> exist (alarms s) (cc_name cc) (ident cc (nd_Url m)))"
    using ih e(1) e(7) [of "cc_name cc" "ident cc (nd_Url n)"] n_last same by simp
  moreover have "a \<longleftrightarrow> (\<exists>m\<in>set (n # nodes). due now (td s) m \<and> \<not> exist (alarms s) (cc_name cc) (ident cc (nd_Url m)))"
    using ih e(1,5) same s2(3) by auto
  moreover have "r \<longleftrightarrow> (\<exists>m\<in>set (n # nodes). \<not> due now (td s) m \<and> up_again m \<and> exist (alarms s) (cc_name cc) (ident cc (nd_Url m)))"
    using ih e(1,6) same s2(4) by auto
  moreover have "\<forall>k i. (k = cc_name cc \<longrightarrow> i \<notin> (ident cc \<circ> nd_Url) ` set (n # nodes)) \<longrightarrow>
      exist (alarms s') k i = exist (alarms s) k i"
    using ih e(7) by auto
  ultimately show ?case
    using ih e(1) by simp
qed simp

end

interpretation down: node_alert node_down_step node_down_id node_down_due node_down_back
  "\<lambda>n. n\<lparr>nd_wasDown := False\<rparr>"
  by unfold_locales (auto simp: node_down_step_def Let_def node_down_id_def)

interpretation lag: node_alert node_lag_step node_lag_id node_lag_due node_lag_back
  "\<lambda>n. n\<lparr>nd_wasLagging := False\<rparr>"
  by unfold_locales (auto simp: node_lag_step_def Let_def node_lag_id_def)


text \<open>
  The node-down evaluator is exact. One pass makes the alarm of a node active when the node
  is due (watched, down, not seen up since the last alert, for longer than the configured minutes)
  unless the chain is in a maintenance window, makes it inactive when a watched node that was down
  is up again, and changes no other alarm. It reports an alert or a resolution exactly when one of
  these changes the set, clears the memory of the nodes that came back, and stores the number of
  active alarms.
\<close>

lemma evaluateRPCNodeDownAlert_exact:
  assumes "chain_of s (cc_name cc) = Some c0" "alarms_ok (alarms s)" "\<not> IsZero now"
    "distinct (map nd_Url (cc_Nodes cc))"
    "evaluateRPCNodeDownAlert now cc s = ((a, r), cc', s')"
  shows "(\<forall>n\<in>set (cc_Nodes cc). exist (alarms s') (cc_name cc) (node_down_id cc (nd_Url n)) \<longleftrightarrow>
      (if node_down_due now (td s) n
       then exist (alarms s) (cc_name cc) (node_down_id cc (nd_Url n)) \<or> \<not> silenced now c0
       else \<not> node_down_back n \<and> exist (alarms s) (cc_name cc) (node_down_id cc (nd_Url n)))) \<and>
    (\<forall>k i. (k = cc_name cc \<longrightarrow> i \<notin> (node_down_id cc \<circ> nd_Url) ` set (cc_Nodes cc)) \<longrightarrow>
      exist (alarms s') k i = exist (alarms s) k i) \<and>
    (a \<longleftrightarrow> (\<exists>n\<in>set (cc_Nodes cc). node_down_due now (td s) n \<and>
      \<not> exist (alarms s) (cc_name cc) (node_down_id cc (nd_Url n)))) \<and>
    (r \<longleftrightarrow> (\<exists>n\<in>set (cc_Nodes cc). node_down_back n \<and>
      exist (alarms s) (cc_name cc) (node_down_id cc (nd_Url n)))) \<and>
    cc_Nodes cc' = map (\<lambda>n. if node_down_back n then n\<lparr>nd_wasDown := False\<rparr> else n) (cc_Nodes cc) \<and>
    cc_activeAlerts cc' = int (card (activeAlarms (alarms s') (cc_name cc)))"
proof -
  obtain ns where lp: "node_loop (node_down_step now cc) (cc_Nodes cc) s = ((a, r), ns, s')"
    and cc': "cc' = cc\<lparr>cc_Nodes := ns, cc_activeAlerts := getCount (alarms s') (cc_name cc)\<rparr>"
    using assms(5) by (auto simp: evaluateRPCNodeDownAlert_def finish_def split: prod.splits)
  have excl: "\<not> node_down_due now (td s) n \<and> node_down_back n \<longleftrightarrow> node_down_back n" for n
    by (auto simp: node_down_due_def node_down_back_def)
  note e = down.loop_effect [OF assms(1,2,3) lp assms(4), unfolded excl]
  from e show ?thesis
    by (simp add: cc' getCount_active del: o_apply)
      (metis excl)
qed

text \<open>
  The lagging-node evaluator is exact in the same sense, for nodes that answer but have stopped
  following the head of the chain.
\<close>

lemma evaluateRPCNodeLaggingAlert_exact:
  assumes "chain_of s (cc_name cc) = Some c0" "alarms_ok (alarms s)" "\<not> IsZero now"
    "distinct (map nd_Url (cc_Nodes cc))"
    "evaluateRPCNodeLaggingAlert now cc s = ((a, r), cc', s')"
  shows "(\<forall>n\<in>set (cc_Nodes cc). exist (alarms s') (cc_name cc) (node_lag_id cc (nd_Url n)) \<longleftrightarrow>
      (if node_lag_due now (td s) n
       then exist (alarms s) (cc_name cc) (node_lag_id cc (nd_Url n)) \<or> \<not> silenced now c0
       else \<not> node_lag_back n \<and> exist (alarms s) (cc_name cc) (node_lag_id cc (nd_Url n)))) \<and>
    (\<forall>k i. (k = cc_name cc \<longrightarrow> i \<notin> (node_lag_id cc \<circ> nd_Url) ` set (cc_Nodes cc)) \<longrightarrow>
      exist (alarms s') k i = exist (alarms s) k i) \<and>
    (a \<longleftrightarrow> (\<exists>n\<in>set (cc_Nodes cc). node_lag_due now (td s) n \<and>
      \<not> exist (alarms s) (cc_name cc) (node_lag_id cc (nd_Url n)))) \<and>
    (r \<longleftrightarrow> (\<exists>n\<in>set (cc_Nodes cc). node_lag_back n \<and>
      exist (alarms s) (cc_name cc) (node_lag_id cc (nd_Url n)))) \<and>
    cc_Nodes cc' = map (\<lambda>n. if node_lag_back n then n\<lparr>nd_wasLagging := False\<rparr> else n) (cc_Nodes cc) \<and>
    cc_activeAlerts cc' = int (card (activeAlarms (alarms s') (cc_name cc)))"
proof -
  obtain ns where lp: "node_loop (node_lag_step now cc) (cc_Nodes cc) s = ((a, r), ns, s')"
    and cc': "cc' = cc\<lparr>cc_Nodes := ns, cc_activeAlerts := getCount (alarms s') (cc_name cc)\<rparr>"
    using assms(5) by (auto simp: evaluateRPCNodeLaggingAlert_def finish_def split: prod.splits)
  have excl: "\<not> node_lag_due now (td s) n \<and> node_lag_back n \<longleftrightarrow> node_lag_back n" for n
    by (auto simp: node_lag_due_def node_lag_back_def)
  note e = lag.loop_effect [OF assms(1,2,3) lp assms(4), unfolded excl]
  from e show ?thesis
    by (simp add: cc' getCount_active del: o_apply)
      (metis excl)
qed

section \<open>What a health check does to a node\<close>

definition unhealthy :: "rpc_world \<Rightarrow> ChainConfig \<Rightarrow> string \<Rightarrow> bool" where
  "unhealthy w cc u =
     (case w_Status w u of
        Inl _ \<Rightarrow> True
      | Inr status \<Rightarrow> rs_Network status \<noteq> cc_ChainId cc \<or> rs_CatchingUp status)"

lemma unhealthy_cong: "cc_ChainId c' = cc_ChainId c \<Longrightarrow> unhealthy w c' = unhealthy w c"
  by (rule ext) (simp add: unhealthy_def split: sum.split)

lemma health_alert_result:
  assumes "cc_valInfo cc \<noteq> None"
  shows "\<exists>n' s'. health_alert now k cc msg n s = Some (n', s') \<and> nd_Url n' = nd_Url n \<and>
    nd_AlertIfDown n' = nd_AlertIfDown n \<and> nd_down n' \<and> nd_wasDown n' = nd_wasDown n \<and> \<not> nd_lagging n' \<and>
    nd_downSince n' = (if nd_AlertIfDown n \<and> \<not> nd_down n then now else nd_downSince n) \<and>
    td s' = td s \<and> alarms s' = alarms s \<and> alertChan s' = alertChan s"
  using assms by (auto simp: health_alert_def mkUpdate_def Let_def)

lemma check_node_fails:
  assumes "cc_valInfo cc \<noteq> None" "w_NewClient w (nd_Url n) = None" "unhealthy w cc (nd_Url n)"
  shows "\<exists>n' s'. check_node now w k cc n s = Some (n', cc, s') \<and> nd_Url n' = nd_Url n \<and>
    nd_AlertIfDown n' = nd_AlertIfDown n \<and> nd_down n' \<and> nd_wasDown n' = nd_wasDown n \<and> \<not> nd_lagging n' \<and>
    nd_downSince n' = (if nd_AlertIfDown n \<and> \<not> nd_down n then now else nd_downSince n) \<and>
    td s' = td s \<and> alarms s' = alarms s \<and> alertChan s' = alertChan s"
proof -
  have "check_node now w k cc n s =
      (case w_Status w (nd_Url n) of
         Inl _ \<Rightarrow> do { (n, s') \<leftarrow> health_alert now k cc ''down'' n s; Some (n, cc, s') }
       | Inr status \<Rightarrow>
           if rs_Network status \<noteq> cc_ChainId cc
           then do { (n, s') \<leftarrow> health_alert now k cc ''on the wrong network'' n s; Some (n, cc, s') }
           else do { (n, s') \<leftarrow> health_alert now k cc ''not synced'' n s; Some (n\<lparr>nd_syncing := True\<rparr>, cc, s') })"
  proof (cases "w_Status w (nd_Url n)")
    case (Inr status)
    with assms(3) have "rs_Network status \<noteq> cc_ChainId cc \<or> rs_CatchingUp status" by (simp add: unhealthy_def)
    with Inr assms(2) show ?thesis
      by (cases "rs_Network status = cc_ChainId cc") (simp_all add: check_node_def)
  qed (simp add: check_node_def assms(2))
  then show ?thesis
    using health_alert_result [OF assms(1), of now k "''down''" n s]
      health_alert_result [OF assms(1), of now k "''on the wrong network''" n s]
      health_alert_result [OF assms(1), of now k "''not synced''" n s]
    by (auto split: sum.splits)
qed

lemma check_node_passes:
  assumes "cc_valInfo cc \<noteq> None" "w_NewClient w (nd_Url n) = None" "\<not> unhealthy w cc (nd_Url n)"
  shows "\<exists>n' s'. check_node now w k cc n s = Some (n', cc\<lparr>cc_noNodes := False\<rparr>, s') \<and> nd_Url n' = nd_Url n \<and>
    nd_AlertIfDown n' = nd_AlertIfDown n \<and> \<not> nd_down n' \<and> nd_wasDown n' = (nd_down n \<or> nd_wasDown n) \<and>
    nd_downSince n' = time_Unix 0 \<and> td s' = td s \<and> alarms s' = alarms s \<and> alertChan s' = alertChan s"
  using assms by (auto simp: check_node_def unhealthy_def mkUpdate_def Let_def split: sum.splits)

text \<open>
  A node is never both down and lagging, and the clock of an outage is set once. Whatever a
  node answers, one health check of a node with a client ends without a panic; when the answer is
  unusable the node is down and not lagging, and a watched node keeps the time its outage began;
  when it is usable the node is up. No alarm and no alert is touched.
\<close>

lemma check_node_classifies:
  assumes "cc_valInfo cc \<noteq> None" "w_NewClient w (nd_Url n) = None"
  shows "\<exists>n' cc' s'. check_node now w k cc n s = Some (n', cc', s') \<and> \<not> (nd_down n' \<and> nd_lagging n') \<and>
    (nd_down n' \<longleftrightarrow> unhealthy w cc (nd_Url n)) \<and>
    (nd_down n' \<longrightarrow> nd_AlertIfDown n \<longrightarrow> nd_downSince n' = (if nd_down n then nd_downSince n else now)) \<and>
    (\<not> nd_down n' \<longrightarrow> \<not> cc_noNodes cc') \<and> alarms s' = alarms s \<and> alertChan s' = alertChan s"
proof (cases "unhealthy w cc (nd_Url n)")
  case True
  from check_node_fails [OF assms this, of now k s] show ?thesis using True by auto
next
  case False
  from check_node_passes [OF assms this, of now k s] show ?thesis using False by auto
qed

definition node_at :: "string \<Rightarrow> NodeConfig list \<Rightarrow> NodeConfig option" where
  "node_at u nodes = List.find (\<lambda>n. nd_Url n = u) nodes"

lemma node_at_Cons [simp]: "node_at u (n # ns) = (if nd_Url n = u then Some n else node_at u ns)"
  by (simp add: node_at_def)

lemma node_at_member: "node_at u ns = Some n \<Longrightarrow> n \<in> set ns \<and> nd_Url n = u"
  unfolding node_at_def by (auto dest: find_member)

lemma node_at_map: "(\<And>n. nd_Url (f n) = nd_Url n) \<Longrightarrow> node_at u (map f ns) = map_option f (node_at u ns)"
  by (induction ns) (simp_all add: node_at_def)

lemma check_nodes_result:
  assumes "cc_valInfo cc \<noteq> None" "\<forall>n\<in>set nodes. w_NewClient w (nd_Url n) = None"
  shows "\<exists>ns b s'. check_nodes now w k nodes cc s = Some (ns, cc\<lparr>cc_noNodes := b\<rparr>, s') \<and>
    map nd_Url ns = map nd_Url nodes \<and> td s' = td s \<and> alarms s' = alarms s \<and> alertChan s' = alertChan s \<and>
    (\<forall>u n. node_at u nodes = Some n \<longrightarrow> unhealthy w cc u \<longrightarrow>
      (\<exists>n'. node_at u ns = Some n' \<and> nd_Url n' = u \<and> nd_AlertIfDown n' = nd_AlertIfDown n \<and> nd_down n' \<and>
        nd_wasDown n' = nd_wasDown n \<and>
        nd_downSince n' = (if nd_AlertIfDown n \<and> \<not> nd_down n then now else nd_downSince n)))"
  using assms
proof (induction nodes arbitrary: cc s)
  case Nil
  show ?case by (rule exI [of _ "[]"], rule exI [of _ "cc_noNodes cc"]) (simp add: node_at_def)
next
  case (Cons n nodes)
  have new: "w_NewClient w (nd_Url n) = None" using Cons.prems(2) by simp
  have "\<exists>n' b s'. check_node now w k cc n s = Some (n', cc\<lparr>cc_noNodes := b\<rparr>, s') \<and> nd_Url n' = nd_Url n \<and>
      td s' = td s \<and> alarms s' = alarms s \<and> alertChan s' = alertChan s \<and>
      (unhealthy w cc (nd_Url n) \<longrightarrow> nd_AlertIfDown n' = nd_AlertIfDown n \<and> nd_down n' \<and>
        nd_wasDown n' = nd_wasDown n \<and>
        nd_downSince n' = (if nd_AlertIfDown n \<and> \<not> nd_down n then now else nd_downSince n))"
  proof (cases "unhealthy w cc (nd_Url n)")
    case True
    have id: "cc\<lparr>cc_noNodes := cc_noNodes cc\<rparr> = cc" by simp
    from check_node_fails [OF Cons.prems(1) new True, of now k s] show ?thesis
      by (metis id)
  next
    case False
    from check_node_passes [OF Cons.prems(1) new False, of now k s] show ?thesis
      using False by blast
  qed
  then obtain n' b s1 where n': "check_node now w k cc n s = Some (n', cc\<lparr>cc_noNodes := b\<rparr>, s1)"
      "nd_Url n' = nd_Url n" "td s1 = td s" "alarms s1 = alarms s" "alertChan s1 = alertChan s"
      "unhealthy w cc (nd_Url n) \<longrightarrow> nd_AlertIfDown n' = nd_AlertIfDown n \<and> nd_down n' \<and>
        nd_wasDown n' = nd_wasDown n \<and>
        nd_downSince n' = (if nd_AlertIfDown n \<and> \<not> nd_down n then now else nd_downSince n)"
    by blast
  have un: "unhealthy w (cc\<lparr>cc_noNodes := b\<rparr>) = unhealthy w cc"
    by (rule unhealthy_cong) simp
  have "cc_valInfo (cc\<lparr>cc_noNodes := b\<rparr>) \<noteq> None" "\<forall>n\<in>set nodes. w_NewClient w (nd_Url n) = None"
    using Cons.prems by simp_all
  from Cons.IH [OF this, of s1, unfolded un] obtain ns b' s2 where
    ns: "check_nodes now w k nodes (cc\<lparr>cc_noNodes := b\<rparr>) s1 = Some (ns, cc\<lparr>cc_noNodes := b'\<rparr>, s2)"
      "map nd_Url ns = map nd_Url nodes" "td s2 = td s1" "alarms s2 = alarms s1" "alertChan s2 = alertChan s1"
      "\<forall>u n. node_at u nodes = Some n \<longrightarrow> unhealthy w cc u \<longrightarrow>
      (\<exists>n'. node_at u ns = Some n' \<and> nd_Url n' = u \<and> nd_AlertIfDown n' = nd_AlertIfDown n \<and> nd_down n' \<and>
        nd_wasDown n' = nd_wasDown n \<and>
        nd_downSince n' = (if nd_AlertIfDown n \<and> \<not> nd_down n then now else nd_downSince n))"
    by auto
  have "check_nodes now w k (n # nodes) cc s = Some (n' # ns, cc\<lparr>cc_noNodes := b'\<rparr>, s2)"
    using n'(1) ns(1) by simp
  then show ?case
    using n'(2-6) ns(2-6) by (intro exI [of _ "n' # ns"] exI [of _ b'] exI [of _ s2]) simp
qed


section \<open>The life of a node\<close>

datatype node_event = HealthCheck rpc_world | Evaluation

text \<open>The minute ticker and the two-second loop, as they alternate in time.\<close>

fun node_run :: "string \<Rightarrow> (gotime \<times> node_event) list \<Rightarrow> ChainConfig \<times> sys \<Rightarrow> (ChainConfig \<times> sys) option" where
  "node_run k [] (cc, s) = Some (cc, s)"
| "node_run k ((now, HealthCheck w) # es) (cc, s) =
     do { (nodes, cc', s') \<leftarrow> check_nodes now w k (cc_Nodes cc) cc s;
          node_run k es (cc'\<lparr>cc_Nodes := nodes\<rparr>, s') }"
| "node_run k ((now, Evaluation) # es) (cc, s) =
     (let (_, cc', s') = evaluateRPCNodeDownAlert now cc s in node_run k es (cc', s'))"

text \<open>An event at which the node at \<open>u\<close> is not found healthy, and no client fails to be built.\<close>

definition bad_event :: "ChainConfig \<Rightarrow> string \<Rightarrow> gotime \<times> node_event \<Rightarrow> bool" where
  "bad_event cc u e =
     (\<not> IsZero (fst e) \<and>
      (case snd e of
         HealthCheck w \<Rightarrow> (\<forall>n\<in>set (cc_Nodes cc). w_NewClient w (nd_Url n) = None) \<and> unhealthy w cc u
       | Evaluation \<Rightarrow> True))"

definition same_chain :: "ChainConfig \<Rightarrow> ChainConfig \<Rightarrow> bool" where
  "same_chain c c' \<longleftrightarrow> cc_name c' = cc_name c \<and> cc_ValAddress c' = cc_ValAddress c \<and> cc_ChainId c' = cc_ChainId c \<and>
     cc_valInfo c' = cc_valInfo c \<and> map nd_Url (cc_Nodes c') = map nd_Url (cc_Nodes c)"

lemma same_chain_refl: "same_chain c c"
  by (simp add: same_chain_def)

lemma same_chain_trans: "same_chain a b \<Longrightarrow> same_chain b c \<Longrightarrow> same_chain a c"
  by (simp add: same_chain_def)

lemma same_chain_facts:
  assumes sc: "same_chain cc c'"
  shows "node_down_id c' = node_down_id cc" "unhealthy w c' = unhealthy w cc" "bad_event c' u = bad_event cc u"
    "distinct (map nd_Url (cc_Nodes c')) = distinct (map nd_Url (cc_Nodes cc))"
proof -
  have "nd_Url ` set (cc_Nodes c') = nd_Url ` set (cc_Nodes cc)"
    using assms by (metis same_chain_def list.set_map)
  then have nodes: "(\<forall>n\<in>set (cc_Nodes c'). w_NewClient w (nd_Url n) = None) =
      (\<forall>n\<in>set (cc_Nodes cc). w_NewClient w (nd_Url n) = None)" for w
    by (metis (no_types, lifting) image_iff)
  show un: "unhealthy w c' = unhealthy w cc" for w
    using sc by (intro unhealthy_cong) (simp add: same_chain_def)
  show "bad_event c' u = bad_event cc u"
    by (intro ext) (simp add: bad_event_def nodes un split: node_event.split)
qed (use sc in \<open>simp_all add: same_chain_def node_down_id_def fun_eq_iff\<close>)

text \<open>What the two operations keep about the node at \<open>u\<close> while it is failing.\<close>

definition tracked :: "ChainConfig \<Rightarrow> ChainConfig \<Rightarrow> sys \<Rightarrow> bool" where
  "tracked c0 cc s \<longleftrightarrow> chain_of s (cc_name cc) = Some c0 \<and> alarms_ok (alarms s) \<and>
     distinct (map nd_Url (cc_Nodes cc)) \<and> cc_valInfo cc \<noteq> None"

lemma check_step:
  assumes t: "tracked c0 cc s" and b: "bad_event cc u (now, HealthCheck w)" and n: "node_at u (cc_Nodes cc) = Some n"
  shows "\<exists>nodes cc' s' n'. check_nodes now w k (cc_Nodes cc) cc s = Some (nodes, cc', s') \<and>
    tracked c0 (cc'\<lparr>cc_Nodes := nodes\<rparr>) s' \<and> same_chain cc (cc'\<lparr>cc_Nodes := nodes\<rparr>) \<and> td s' = td s \<and>
    alarms s' = alarms s \<and> alertChan s' = alertChan s \<and> node_at u nodes = Some n' \<and>
    nd_AlertIfDown n' = nd_AlertIfDown n \<and> nd_down n' \<and> nd_wasDown n' = nd_wasDown n \<and>
    nd_downSince n' = (if nd_AlertIfDown n \<and> \<not> nd_down n then now else nd_downSince n)"
proof -
  have u: "unhealthy w cc u" and new: "\<forall>n\<in>set (cc_Nodes cc). w_NewClient w (nd_Url n) = None"
    using b by (simp_all add: bad_event_def)
  have vi: "cc_valInfo cc \<noteq> None" using t by (simp add: tracked_def)
  from check_nodes_result [OF vi new, of now k s] n u obtain ns b s' n' where
    r: "check_nodes now w k (cc_Nodes cc) cc s = Some (ns, cc\<lparr>cc_noNodes := b\<rparr>, s')"
      "map nd_Url ns = map nd_Url (cc_Nodes cc)" "td s' = td s" "alarms s' = alarms s" "alertChan s' = alertChan s"
      "node_at u ns = Some n'" "nd_AlertIfDown n' = nd_AlertIfDown n" "nd_down n'" "nd_wasDown n' = nd_wasDown n"
      "nd_downSince n' = (if nd_AlertIfDown n \<and> \<not> nd_down n then now else nd_downSince n)"
    by metis
  moreover have "tracked c0 (cc\<lparr>cc_noNodes := b, cc_Nodes := ns\<rparr>) s'" "same_chain cc (cc\<lparr>cc_noNodes := b, cc_Nodes := ns\<rparr>)"
    using t r by (simp_all add: tracked_def same_chain_def chain_of_def)
  ultimately show ?thesis by auto
qed

lemma evaluation_step:
  assumes t: "tracked c0 cc s" and now: "\<not> IsZero now" and n: "node_at u (cc_Nodes cc) = Some n" and down: "nd_down n"
    and ev: "evaluateRPCNodeDownAlert now cc s = (r, cc', s')"
  shows "tracked c0 cc' s'" "same_chain cc cc'" "td s' = td s" "node_at u (cc_Nodes cc') = Some n"
    "exist (alarms s') (cc_name cc) (node_down_id cc u) \<longleftrightarrow>
       exist (alarms s) (cc_name cc) (node_down_id cc u) \<or> (node_down_due now (td s) n \<and> \<not> silenced now c0)"
    "\<exists>ms. alertChan s' = alertChan s @ ms \<and>
       (\<not> node_down_due now (td s) n \<longrightarrow> (\<forall>m\<in>set ms. m_uniqueId m \<noteq> node_down_id cc u))"
proof -
  obtain a q where r: "r = (a, q)" by force
  from t have c: "chain_of s (cc_name cc) = Some c0" and ok: "alarms_ok (alarms s)"
    and d: "distinct (map nd_Url (cc_Nodes cc))" by (simp_all add: tracked_def)
  obtain ns where lp: "node_loop (node_down_step now cc) (cc_Nodes cc) s = ((a, q), ns, s')"
    and cc': "cc' = cc\<lparr>cc_Nodes := ns, cc_activeAlerts := getCount (alarms s') (cc_name cc)\<rparr>"
    using ev by (auto simp: r evaluateRPCNodeDownAlert_def finish_def split: prod.splits)
  note e = down.loop_effect [OF c ok now lp d]
  have n': "n \<in> set (cc_Nodes cc)" "nd_Url n = u" using node_at_member [OF n] by simp_all
  have nb: "\<not> node_down_back n" using down by (simp add: node_down_back_def)
  have ns: "ns = map (\<lambda>n. if \<not> node_down_due now (td s) n \<and> node_down_back n then n\<lparr>nd_wasDown := False\<rparr> else n) (cc_Nodes cc)"
    using e by (elim conjE)
  have urls: "map nd_Url ns = map nd_Url (cc_Nodes cc)" by (simp add: ns)
  have "td s' = td s" "alarms_ok (alarms s')" "chain_of s' (cc_name cc) = Some c0"
    by (rule e [THEN conjunct1], rule e [THEN conjunct2, THEN conjunct1],
        rule e [THEN conjunct2, THEN conjunct2, THEN conjunct1])
  then show "tracked c0 cc' s'" "same_chain cc cc'" "td s' = td s"
    using t urls by (simp_all add: tracked_def same_chain_def cc')
  show "node_at u (cc_Nodes cc') = Some n"
    unfolding cc' by (simp add: ns) (subst node_at_map, simp, simp add: n nb)
  show "exist (alarms s') (cc_name cc) (node_down_id cc u) \<longleftrightarrow>
       exist (alarms s) (cc_name cc) (node_down_id cc u) \<or> (node_down_due now (td s) n \<and> \<not> silenced now c0)"
  proof -
    have "\<forall>n\<in>set (cc_Nodes cc). exist (alarms s') (cc_name cc) (node_down_id cc (nd_Url n)) \<longleftrightarrow>
       (if node_down_due now (td s) n then exist (alarms s) (cc_name cc) (node_down_id cc (nd_Url n)) \<or> \<not> silenced now c0
        else \<not> node_down_back n \<and> exist (alarms s) (cc_name cc) (node_down_id cc (nd_Url n)))"
      using e by (elim conjE)
    from bspec [OF this n'(1)] n'(2) nb show ?thesis by auto
  qed
  obtain ms where ms: "alertChan s' = alertChan s @ ms"
      "\<forall>m\<in>set ms. \<exists>n\<in>set (cc_Nodes cc). m_uniqueId m = node_down_id cc (nd_Url n) \<and> (node_down_due now (td s) n \<or> node_down_back n)"
    using e by blast
  have "m_uniqueId m \<noteq> node_down_id cc u" if "m \<in> set ms" "\<not> node_down_due now (td s) n" for m
  proof
    assume "m_uniqueId m = node_down_id cc u"
    with ms(2) that obtain n2 where "n2 \<in> set (cc_Nodes cc)" "nd_Url n2 = u" "node_down_due now (td s) n2 \<or> node_down_back n2"
      using down.ident_inj by metis
    with n' d have "n2 = n" by (metis distinct_map inj_onD)
    with \<open>node_down_due now (td s) n2 \<or> node_down_back n2\<close> that nb show False by simp
  qed
  with ms(1) show "\<exists>ms. alertChan s' = alertChan s @ ms \<and>
       (\<not> node_down_due now (td s) n \<longrightarrow> (\<forall>m\<in>set ms. m_uniqueId m \<noteq> node_down_id cc u))"
    by blast
qed


text \<open>The two invariants of a failing node, carried along a run.\<close>

lemma failing_run:
  assumes "tracked c0 cc s" "node_at u (cc_Nodes cc) = Some n" "nd_AlertIfDown n" "nd_down n"
    "\<forall>e\<in>set es. bad_event cc u e"
  shows "\<exists>cc' s' n' ms. node_run k es (cc, s) = Some (cc', s') \<and> tracked c0 cc' s' \<and> same_chain cc cc' \<and>
    td s' = td s \<and> node_at u (cc_Nodes cc') = Some n' \<and> nd_AlertIfDown n' \<and> nd_down n' \<and>
    nd_wasDown n' = nd_wasDown n \<and> nd_downSince n' = nd_downSince n \<and> alertChan s' = alertChan s @ ms \<and>
    (nd_wasDown n \<longrightarrow> (\<forall>m\<in>set ms. m_uniqueId m \<noteq> node_down_id cc u) \<and>
       exist (alarms s') (cc_name cc) (node_down_id cc u) = exist (alarms s) (cc_name cc) (node_down_id cc u)) \<and>
    (exist (alarms s) (cc_name cc) (node_down_id cc u) \<longrightarrow> exist (alarms s') (cc_name cc) (node_down_id cc u))"
  using assms
proof (induction es arbitrary: cc s n)
  case Nil
  then show ?case by (auto simp: same_chain_refl)
next
  case (Cons e es)
  obtain now ev where e: "e = (now, ev)" by force
  have be: "bad_event cc u (now, ev)" using Cons.prems(5) e by simp
  have nz: "\<not> IsZero now" using be by (simp add: bad_event_def)
  show ?case
  proof (cases ev)
    case (HealthCheck w)
    from check_step [OF Cons.prems(1) be [unfolded HealthCheck] Cons.prems(2), of k]
    obtain nodes cc1 s1 n1 where st: "check_nodes now w k (cc_Nodes cc) cc s = Some (nodes, cc1, s1)"
      "tracked c0 (cc1\<lparr>cc_Nodes := nodes\<rparr>) s1" "same_chain cc (cc1\<lparr>cc_Nodes := nodes\<rparr>)" "td s1 = td s"
      "alarms s1 = alarms s" "alertChan s1 = alertChan s" "node_at u nodes = Some n1"
      "nd_AlertIfDown n1" "nd_down n1" "nd_wasDown n1 = nd_wasDown n" "nd_downSince n1 = nd_downSince n"
      using Cons.prems(3,4) by auto
    let ?cc1 = "cc1\<lparr>cc_Nodes := nodes\<rparr>"
    have at: "node_at u (cc_Nodes ?cc1) = Some n1" using st(7) by simp
    have bad: "\<forall>e\<in>set es. bad_event ?cc1 u e"
      using Cons.prems(5) same_chain_facts(3) [OF st(3)] by simp
    note ids = same_chain_facts(1) [OF st(3)]
    have nm: "cc_name ?cc1 = cc_name cc" using st(3) by (simp add: same_chain_def)
    from Cons.IH [OF st(2) at st(8,9) bad] show ?thesis
      unfolding ids nm st(4-6,10,11) e HealthCheck using st(1) same_chain_trans [OF st(3)] by auto
  next
    case Evaluation
    obtain r cc1 s1 where ev: "evaluateRPCNodeDownAlert now cc s = (r, cc1, s1)" by (metis prod.collapse)
    note st = evaluation_step [OF Cons.prems(1) nz Cons.prems(2,4) ev]
    have bad: "\<forall>e\<in>set es. bad_event cc1 u e"
      using Cons.prems(5) same_chain_facts(3) [OF st(2)] by simp
    note ids = same_chain_facts(1) [OF st(2)]
    have nm: "cc_name cc1 = cc_name cc" using st(2) by (simp add: same_chain_def)
    obtain ms1 where ms1: "alertChan s1 = alertChan s @ ms1"
        "\<not> node_down_due now (td s) n \<longrightarrow> (\<forall>m\<in>set ms1. m_uniqueId m \<noteq> node_down_id cc u)"
      using st(6) by blast
    have was: "nd_wasDown n \<longrightarrow> \<not> node_down_due now (td s) n" by (simp add: node_down_due_def)
    from Cons.IH [OF st(1,4) Cons.prems(3,4) bad] obtain cc' s' n' ms2 where
      r: "node_run k es (cc1, s1) = Some (cc', s')" "tracked c0 cc' s'" "same_chain cc1 cc'" "td s' = td s1"
      "node_at u (cc_Nodes cc') = Some n'" "nd_AlertIfDown n'" "nd_down n'" "nd_wasDown n' = nd_wasDown n"
      "nd_downSince n' = nd_downSince n" "alertChan s' = alertChan s1 @ ms2"
      "nd_wasDown n \<longrightarrow> (\<forall>m\<in>set ms2. m_uniqueId m \<noteq> node_down_id cc u) \<and>
         exist (alarms s') (cc_name cc) (node_down_id cc u) = exist (alarms s1) (cc_name cc) (node_down_id cc u)"
      "exist (alarms s1) (cc_name cc) (node_down_id cc u) \<longrightarrow> exist (alarms s') (cc_name cc) (node_down_id cc u)"
      unfolding ids nm by blast
    have "node_run k (e # es) (cc, s) = Some (cc', s')"
      using r(1) ev by (simp add: e Evaluation)
    moreover have "same_chain cc cc'" by (rule same_chain_trans [OF st(2) r(3)])
    moreover have "alertChan s' = alertChan s @ (ms1 @ ms2)" using ms1(1) r(10) by simp
    ultimately show ?thesis
      using r(2,4-9,11,12) st(3,5) ms1(2) was by (intro exI [of _ cc'] exI [of _ s'] exI [of _ n'] exI [of _ "ms1 @ ms2"]) auto
  qed
qed

lemma node_run_append:
  "node_run k (es @ es') st = (case node_run k es st of None \<Rightarrow> None | Some st' \<Rightarrow> node_run k es' st')"
proof (induction k es st rule: node_run.induct)
  case (2 k now w es cc s)
  then show ?case by (cases "check_nodes now w k (cc_Nodes cc) cc s") (auto split: prod.split)
qed (auto split: prod.split)

text \<open>
  C6: A dead node is reported. Suppose a watched node that was up is found unhealthy by the health
  check at \<open>t0\<close> and by every later one, with evaluations in between in any number. Then the program
  does not panic, and after any evaluation that is more than the configured minutes after \<open>t0\<close>,
  outside a maintenance window, the alarm of the node is active.
\<close>

theorem dead_node_reported:
  assumes "chain_of s (cc_name cc) = Some c0" "alarms_ok (alarms s)" "distinct (map nd_Url (cc_Nodes cc))"
    "cc_valInfo cc \<noteq> None"
    and n: "node_at u (cc_Nodes cc) = Some n" "nd_AlertIfDown n" "\<not> nd_down n" "\<not> nd_wasDown n"
    and bad: "bad_event cc u (t0, HealthCheck w)" "\<forall>e\<in>set es. bad_event cc u e" "bad_event cc u (t, Evaluation)"
    and late: "\<bar>cfg_NodeDownMin (td s)\<bar> \<le> 10 ^ 6" "cfg_NodeDownMin (td s) * Minute < t - t0" "\<not> silenced t c0"
  shows "\<exists>cc' s'. node_run k ((t0, HealthCheck w) # es @ [(t, Evaluation)]) (cc, s) = Some (cc', s') \<and>
    exist (alarms s') (cc_name cc) (node_down_id cc u)"
proof -
  have tr: "tracked c0 cc s" using assms(1-4) by (simp add: tracked_def)
  from check_step [OF tr bad(1) n(1), of k] n obtain nodes cc1 s1 n1 where
    st: "check_nodes t0 w k (cc_Nodes cc) cc s = Some (nodes, cc1, s1)"
      "tracked c0 (cc1\<lparr>cc_Nodes := nodes\<rparr>) s1" "same_chain cc (cc1\<lparr>cc_Nodes := nodes\<rparr>)" "td s1 = td s"
      "node_at u nodes = Some n1" "nd_AlertIfDown n1" "nd_down n1" "\<not> nd_wasDown n1" "nd_downSince n1 = t0"
    by auto
  let ?cc1 = "cc1\<lparr>cc_Nodes := nodes\<rparr>"
  have at: "node_at u (cc_Nodes ?cc1) = Some n1" using st(5) by simp
  have bad1: "\<forall>e\<in>set es. bad_event ?cc1 u e"
    using bad(2) same_chain_facts(3) [OF st(3)] by simp
  from failing_run [OF st(2) at st(6,7) bad1, of k] st(8,9) obtain cc2 s2 n2 where
    r: "node_run k es (?cc1, s1) = Some (cc2, s2)" "tracked c0 cc2 s2" "same_chain ?cc1 cc2" "td s2 = td s1"
      "node_at u (cc_Nodes cc2) = Some n2" "nd_AlertIfDown n2" "nd_down n2" "\<not> nd_wasDown n2" "nd_downSince n2 = t0"
    by auto
  have sc: "same_chain cc cc2" by (rule same_chain_trans [OF st(3) r(3)])
  have nz: "\<not> IsZero t" "\<not> IsZero t0" using bad(1,3) by (simp_all add: bad_event_def)
  obtain q cc3 s3 where ev: "evaluateRPCNodeDownAlert t cc2 s2 = (q, cc3, s3)" by (metis prod.collapse)
  have mins: "dur_mul (cfg_NodeDownMin (td s)) Minute = cfg_NodeDownMin (td s) * Minute"
    using late(1) by (intro minutes_exact) simp
  have "cfg_NodeDownMin (td s) * Minute < time_Sub t t0"
    using late(1,2) by (subst time_Sub_gr) (auto simp: Minute_def)
  then have "node_down_due t (td s2) n2"
    using r st(4) nz(2) mins by (simp add: node_down_due_def)
  with evaluation_step(5) [OF r(2) nz(1) r(5,7) ev] late(3)
  have "exist (alarms s3) (cc_name cc2) (node_down_id cc2 u)" by blast
  then have "exist (alarms s3) (cc_name cc) (node_down_id cc u)"
    using sc same_chain_facts(1) [OF sc] by (simp add: same_chain_def)
  moreover have "node_run k ((t0, HealthCheck w) # es @ [(t, Evaluation)]) (cc, s) = Some (cc3, s3)"
    using st(1) r(1) ev by (simp add: node_run_append)
  ultimately show ?thesis by blast
qed

text \<open>
  C17: A node restored from the saved state as down is never reported. \<^verbatim>\<open>loadConfig\<close> marks it both
  down and seen down before; as long as the health checks keep failing no evaluation, however late,
  sends a message about it or makes its alarm active, also when the alert had not been sent before
  the restart.
\<close>

theorem restored_down_node_silent:
  assumes "chain_of s (cc_name cc) = Some c0" "alarms_ok (alarms s)" "distinct (map nd_Url (cc_Nodes cc))"
    "cc_valInfo cc \<noteq> None" "node_at u (cc_Nodes cc) = Some n" "nd_AlertIfDown n" "nd_down n" "nd_wasDown n"
    "\<forall>e\<in>set es. bad_event cc u e"
  shows "\<exists>cc' s' ms. node_run k es (cc, s) = Some (cc', s') \<and> alertChan s' = alertChan s @ ms \<and>
    (\<forall>m\<in>set ms. m_uniqueId m \<noteq> node_down_id cc u) \<and>
    exist (alarms s') (cc_name cc) (node_down_id cc u) = exist (alarms s) (cc_name cc) (node_down_id cc u)"
proof -
  have "tracked c0 cc s" using assms(1-4) by (simp add: tracked_def)
  from failing_run [OF this assms(5-7,9), of k] assms(8) show ?thesis by blast
qed

section \<open>Examples\<close>

text \<open>A network in which every node accepts connections and no node answers.\<close>

definition dead_world :: rpc_world where
  "dead_world = \<lparr>w_Parse = (\<lambda>u. Inr (''tcp'', u)), w_NewClient = (\<lambda>_. None), w_Status = (\<lambda>_. Inl ''refused''),
     w_GetStatus = (\<lambda>_. Inl ''refused''), w_GetBody = (\<lambda>_. Inl ''refused'')\<rparr>"

definition live_world :: "gotime \<Rightarrow> rpc_world" where
  "live_world head = dead_world\<lparr>w_Status := (\<lambda>_. Inr \<lparr>rs_Network = ''net-1'', rs_CatchingUp = False, rs_LatestBlockTime = head\<rparr>)\<rparr>"

definition down_node :: NodeConfig where
  "down_node = sample_node\<lparr>nd_down := True, nd_wasDown := True, nd_downSince := noon\<rparr>"

lemma sample_chain_simps [simp]:
  "cc_name sample_chain = ''net''" "cc_Nodes sample_chain = [sample_node]" "cc_valInfo sample_chain = Some sample_valinfo"
  "cc_ChainId sample_chain = ''net-1''" "cc_ValAddress sample_chain = ''netvaloper1xyz''"
  "cc_silencedUntil sample_chain = 0"
  by (simp_all add: sample_chain_def)

lemma sample_node_simps [simp]:
  "nd_Url sample_node = ''tcp://n1''" "nd_AlertIfDown sample_node" "\<not> nd_down sample_node" "\<not> nd_wasDown sample_node"
  by (simp_all add: sample_node_def)

lemma bad_event_dead: "\<not> IsZero t \<Longrightarrow> bad_event cc u (t, HealthCheck dead_world)"
  by (simp add: bad_event_def dead_world_def unhealthy_def)

lemma bad_event_evaluation: "\<not> IsZero t \<Longrightarrow> bad_event cc u (t, Evaluation)"
  by (simp add: bad_event_def)

lemma noon_later: "0 < d \<Longrightarrow> \<not> IsZero (noon + d)"
  by (simp add: noon_def time_defs)

lemma newRpc_first_usable_witness:
  "\<exists>err cc' cache' s'.
     newRpc noon dead_world (NoReply ''timeout'') cosmosPaths sample_chain [] (sample_sys sample_chain no_alarms) =
       Some (err, cc', cache', s') \<and> err \<noteq> None \<and> cc_noNodes cc' \<and> (\<forall>n\<in>set (cc_Nodes cc'). nd_down n)"
proof -
  have vi: "cc_valInfo sample_chain \<noteq> None" by simp
  have none: "List.find (usable dead_world i) us = None" for i us
    by (induction us) (simp_all add: usable_def dead_world_def getStatusWithEndpoint_def)
  from newRpc_first_usable [OF vi, of noon dead_world "NoReply ''timeout''" cosmosPaths "[]" "sample_sys sample_chain no_alarms"]
  show ?thesis unfolding none by auto
qed

lemma evaluateRPCNodeDownAlert_exact_witness:
  "let cc = sample_chain\<lparr>cc_Nodes := [sample_node\<lparr>nd_down := True, nd_downSince := noon\<rparr>]\<rparr>
   in fst (fst (evaluateRPCNodeDownAlert (noon + Hour) cc (sample_sys cc no_alarms)))"
proof -
  let ?n = "sample_node\<lparr>nd_down := True, nd_downSince := noon\<rparr>"
  let ?cc = "sample_chain\<lparr>cc_Nodes := [?n]\<rparr>"
  let ?s = "sample_sys ?cc no_alarms"
  obtain a r cc' s' where ev: "evaluateRPCNodeDownAlert (noon + Hour) ?cc ?s = ((a, r), cc', s')"
    by (metis prod.collapse)
  have c: "chain_of ?s (cc_name ?cc) = Some ?cc" "alarms_ok (alarms ?s)" "\<not> IsZero (noon + Hour)"
    "distinct (map nd_Url (cc_Nodes ?cc))"
    by (simp_all add: noon_later Hour_def)
  have "node_down_due (noon + Hour) (td ?s) ?n"
    by (simp add: node_down_due_def sample_sys_def sample_config_def time_defs wrap64_def noon_def)
  then show ?thesis
    using evaluateRPCNodeDownAlert_exact [OF c ev] by (simp add: ev)
qed

lemma evaluateRPCNodeLaggingAlert_exact_witness:
  "let cc = sample_chain\<lparr>cc_Nodes := [sample_node\<lparr>nd_lagging := True, nd_laggingSince := noon\<rparr>]\<rparr>
   in fst (fst (evaluateRPCNodeLaggingAlert (noon + Hour) cc (sample_sys cc no_alarms)))"
proof -
  let ?n = "sample_node\<lparr>nd_lagging := True, nd_laggingSince := noon\<rparr>"
  let ?cc = "sample_chain\<lparr>cc_Nodes := [?n]\<rparr>"
  let ?s = "sample_sys ?cc no_alarms"
  obtain a r cc' s' where ev: "evaluateRPCNodeLaggingAlert (noon + Hour) ?cc ?s = ((a, r), cc', s')"
    by (metis prod.collapse)
  have c: "chain_of ?s (cc_name ?cc) = Some ?cc" "alarms_ok (alarms ?s)" "\<not> IsZero (noon + Hour)"
    "distinct (map nd_Url (cc_Nodes ?cc))"
    by (simp_all add: noon_later Hour_def)
  have "node_lag_due (noon + Hour) (td ?s) ?n"
    by (simp add: node_lag_due_def sample_node_def sample_sys_def sample_config_def time_defs wrap64_def noon_def)
  then show ?thesis
    using evaluateRPCNodeLaggingAlert_exact [OF c ev] by (simp add: ev)
qed

lemma check_node_classifies_witness:
  "\<exists>n' cc' s'. check_node noon dead_world ''net'' sample_chain sample_node (sample_sys sample_chain no_alarms) = Some (n', cc', s') \<and>
     nd_down n' \<and> nd_downSince n' = noon"
proof -
  have c: "cc_valInfo sample_chain \<noteq> None" "w_NewClient dead_world (nd_Url sample_node) = None"
    by (simp_all add: dead_world_def)
  have "unhealthy dead_world sample_chain (nd_Url sample_node)" by (simp add: unhealthy_def dead_world_def)
  with check_node_classifies [OF c, of noon "''net''" "sample_sys sample_chain no_alarms"] show ?thesis by auto
qed

theorem dead_node_reported_witness:
  "\<exists>cc' s'. node_run ''net'' [(noon, HealthCheck dead_world), (noon + Minute, Evaluation), (noon + Hour, Evaluation)]
       (sample_chain, sample_sys sample_chain no_alarms) = Some (cc', s') \<and>
     exist (alarms s') ''net'' (node_down_id sample_chain ''tcp://n1'')"
proof -
  have n: "node_at ''tcp://n1'' (cc_Nodes sample_chain) = Some sample_node" by simp
  have s: "chain_of (sample_sys sample_chain no_alarms) (cc_name sample_chain) = Some sample_chain"
    "alarms_ok (alarms (sample_sys sample_chain no_alarms))" "distinct (map nd_Url (cc_Nodes sample_chain))"
    "cc_valInfo sample_chain \<noteq> None"
    by simp_all
  have m: "\<bar>cfg_NodeDownMin (td (sample_sys sample_chain no_alarms))\<bar> \<le> 10 ^ 6"
    "cfg_NodeDownMin (td (sample_sys sample_chain no_alarms)) * Minute < noon + Hour - noon"
    "\<not> silenced (noon + Hour) sample_chain"
    by (simp_all add: sample_sys_def sample_config_def time_defs)
  have b: "bad_event sample_chain ''tcp://n1'' (noon, HealthCheck dead_world)"
    "\<forall>e\<in>set [(noon + Minute, Evaluation)]. bad_event sample_chain ''tcp://n1'' e"
    "bad_event sample_chain ''tcp://n1'' (noon + Hour, Evaluation)"
    by (simp_all add: bad_event_dead bad_event_evaluation noon_later Minute_def Hour_def)
  from dead_node_reported [OF s n sample_node_simps(2,3,4) b m, of "''net''"] show ?thesis by simp
qed

theorem restored_down_node_silent_witness:
  "let cc = sample_chain\<lparr>cc_Nodes := [down_node]\<rparr>
   in \<exists>cc' s'. node_run ''net'' [(noon + Hour, HealthCheck dead_world), (noon + Hour + Hour, Evaluation)]
        (cc, sample_sys cc no_alarms) = Some (cc', s') \<and>
      \<not> exist (alarms s') ''net'' (node_down_id cc ''tcp://n1'')"
proof -
  let ?cc = "sample_chain\<lparr>cc_Nodes := [down_node]\<rparr>"
  have s: "chain_of (sample_sys ?cc no_alarms) (cc_name ?cc) = Some ?cc"
    "alarms_ok (alarms (sample_sys ?cc no_alarms))" "distinct (map nd_Url (cc_Nodes ?cc))"
    "cc_valInfo ?cc \<noteq> None" "node_at ''tcp://n1'' (cc_Nodes ?cc) = Some down_node"
    "nd_AlertIfDown down_node" "nd_down down_node" "nd_wasDown down_node"
    "\<forall>e\<in>set [(noon + Hour, HealthCheck dead_world), (noon + Hour + Hour, Evaluation)]. bad_event ?cc ''tcp://n1'' e"
    using noon_later [of Hour] noon_later [of "Hour + Hour"]
    by (simp_all add: down_node_def bad_event_dead bad_event_evaluation Hour_def add.assoc)
  from restored_down_node_silent [OF s, of "''net''"] show ?thesis by (auto simp: Let_def)
qed

end
