(* ===== verification/ConfigLoad.thy ===== *)
theory ConfigLoad
  imports NodeAlerts
begin

text \<open>
  Loading the configuration (\<^verbatim>\<open>td2/types.go\<close>): the defaults a chain inherits from
  \<^verbatim>\<open>default_alert_config\<close>, the chain files of the configuration directory, and \<^verbatim>\<open>validateConfig\<close>.
  Reading files and decoding YAML are outside; what they deliver is an argument.

  \<^verbatim>\<open>applyAlertDefaults\<close> walks over the fields by reflection. Its effect on \<^verbatim>\<open>AlertConfig\<close> is written
  out per struct: a nil pointer, an empty string and a nil slice take the default, a nested struct
  is merged field by field. A pointer to \<^verbatim>\<open>false\<close> is not nil and stays.
\<close>

section \<open>Inheriting defaults\<close>

text \<open>The three kinds of fields: pointers and slices, strings, nested structs.\<close>

definition default_ptr :: "'a option \<Rightarrow> 'a option \<Rightarrow> 'a option" where
  "default_ptr df sf = (case df of None \<Rightarrow> sf | Some v \<Rightarrow> Some v)"

definition default_string :: "string \<Rightarrow> string \<Rightarrow> string" where
  "default_string df sf = (if df = [] then sf else df)"

definition default_PDConfig :: "PDConfig \<Rightarrow> PDConfig \<Rightarrow> PDConfig" where
  "default_PDConfig d s =
    \<lparr>pd_Enabled = default_ptr (pd_Enabled d) (pd_Enabled s),
     pd_ApiKey = default_string (pd_ApiKey d) (pd_ApiKey s),
     pd_DefaultSeverity = default_string (pd_DefaultSeverity d) (pd_DefaultSeverity s),
     pd_SeverityThreshold = default_string (pd_SeverityThreshold d) (pd_SeverityThreshold s)\<rparr>"

definition default_DiscordConfig :: "DiscordConfig \<Rightarrow> DiscordConfig \<Rightarrow> DiscordConfig" where
  "default_DiscordConfig d s =
    \<lparr>di_Enabled = default_ptr (di_Enabled d) (di_Enabled s),
     di_Webhook = default_string (di_Webhook d) (di_Webhook s),
     di_Mentions = default_ptr (di_Mentions d) (di_Mentions s),
     di_SeverityThreshold = default_string (di_SeverityThreshold d) (di_SeverityThreshold s)\<rparr>"

definition default_TeleConfig :: "TeleConfig \<Rightarrow> TeleConfig \<Rightarrow> TeleConfig" where
  "default_TeleConfig d s =
    \<lparr>tg_Enabled = default_ptr (tg_Enabled d) (tg_Enabled s),
     tg_ApiKey = default_string (tg_ApiKey d) (tg_ApiKey s),
     tg_Channel = default_string (tg_Channel d) (tg_Channel s),
     tg_Mentions = default_ptr (tg_Mentions d) (tg_Mentions s),
     tg_SeverityThreshold = default_string (tg_SeverityThreshold d) (tg_SeverityThreshold s)\<rparr>"

definition default_SlackConfig :: "SlackConfig \<Rightarrow> SlackConfig \<Rightarrow> SlackConfig" where
  "default_SlackConfig d s =
    \<lparr>slk_Enabled = default_ptr (slk_Enabled d) (slk_Enabled s),
     slk_Webhook = default_string (slk_Webhook d) (slk_Webhook s),
     slk_Mentions = default_ptr (slk_Mentions d) (slk_Mentions s),
     slk_SeverityThreshold = default_string (slk_SeverityThreshold d) (slk_SeverityThreshold s)\<rparr>"

definition default_WebhookConfig :: "WebhookConfig \<Rightarrow> WebhookConfig \<Rightarrow> WebhookConfig" where
  "default_WebhookConfig d s =
    \<lparr>wh_Enabled = default_ptr (wh_Enabled d) (wh_Enabled s),
     wh_URL = default_string (wh_URL d) (wh_URL s),
     wh_SeverityThreshold = default_string (wh_SeverityThreshold d) (wh_SeverityThreshold s),
     wh_DisableResolveMessage = default_ptr (wh_DisableResolveMessage d) (wh_DisableResolveMessage s)\<rparr>"

definition applyAlertDefaults :: "AlertConfig \<Rightarrow> AlertConfig \<Rightarrow> AlertConfig" where
  "applyAlertDefaults d s =
    \<lparr>ac_Stalled = default_ptr (ac_Stalled d) (ac_Stalled s),
     ac_StalledAlerts = default_ptr (ac_StalledAlerts d) (ac_StalledAlerts s),
     ac_ConsecutiveMissed = default_ptr (ac_ConsecutiveMissed d) (ac_ConsecutiveMissed s),
     ac_ConsecutivePriority = default_string (ac_ConsecutivePriority d) (ac_ConsecutivePriority s),
     ac_ConsecutiveAlerts = default_ptr (ac_ConsecutiveAlerts d) (ac_ConsecutiveAlerts s),
     ac_ConsecutiveMissExcludePreactions =
       default_ptr (ac_ConsecutiveMissExcludePreactions d) (ac_ConsecutiveMissExcludePreactions s),
     ac_Window = default_ptr (ac_Window d) (ac_Window s),
     ac_PercentagePriority = default_string (ac_PercentagePriority d) (ac_PercentagePriority s),
     ac_PercentageAlerts = default_ptr (ac_PercentageAlerts d) (ac_PercentageAlerts s),
     ac_ConsecutiveEmpty = default_ptr (ac_ConsecutiveEmpty d) (ac_ConsecutiveEmpty s),
     ac_ConsecutiveEmptyPriority = default_string (ac_ConsecutiveEmptyPriority d) (ac_ConsecutiveEmptyPriority s),
     ac_ConsecutiveEmptyAlerts = default_ptr (ac_ConsecutiveEmptyAlerts d) (ac_ConsecutiveEmptyAlerts s),
     ac_EmptyWindow = default_ptr (ac_EmptyWindow d) (ac_EmptyWindow s),
     ac_EmptyPercentagePriority = default_string (ac_EmptyPercentagePriority d) (ac_EmptyPercentagePriority s),
     ac_EmptyPercentageAlerts = default_ptr (ac_EmptyPercentageAlerts d) (ac_EmptyPercentageAlerts s),
     ac_AlertIfInactive = default_ptr (ac_AlertIfInactive d) (ac_AlertIfInactive s),
     ac_AlertIfNoServers = default_ptr (ac_AlertIfNoServers d) (ac_AlertIfNoServers s),
     ac_DoubleSignAlerts = default_ptr (ac_DoubleSignAlerts d) (ac_DoubleSignAlerts s),
     ac_GovernanceAlerts = default_ptr (ac_GovernanceAlerts d) (ac_GovernanceAlerts s),
     ac_StakeChangeAlerts = default_ptr (ac_StakeChangeAlerts d) (ac_StakeChangeAlerts s),
     ac_StakeChangeDropThreshold = default_ptr (ac_StakeChangeDropThreshold d) (ac_StakeChangeDropThreshold s),
     ac_StakeChangeIncreaseThreshold = default_ptr (ac_StakeChangeIncreaseThreshold d) (ac_StakeChangeIncreaseThreshold s),
     ac_CommissionChangeAlerts = default_ptr (ac_CommissionChangeAlerts d) (ac_CommissionChangeAlerts s),
     ac_CommissionChangeThreshold = default_ptr (ac_CommissionChangeThreshold d) (ac_CommissionChangeThreshold s),
     ac_UnclaimedRewardsAlerts = default_ptr (ac_UnclaimedRewardsAlerts d) (ac_UnclaimedRewardsAlerts s),
     ac_UnclaimedRewardsThreshold = default_ptr (ac_UnclaimedRewardsThreshold d) (ac_UnclaimedRewardsThreshold s),
     ac_Pagerduty = default_PDConfig (ac_Pagerduty d) (ac_Pagerduty s),
     ac_Discord = default_DiscordConfig (ac_Discord d) (ac_Discord s),
     ac_Telegram = default_TeleConfig (ac_Telegram d) (ac_Telegram s),
     ac_Slack = default_SlackConfig (ac_Slack d) (ac_Slack s),
     ac_Webhook = default_WebhookConfig (ac_Webhook d) (ac_Webhook s)\<rparr>"

text \<open>
  Merging is associative with a neutral element. The laws of one field carry over to the structs
  through this interface.
\<close>

locale merge =
  fixes m :: "'a \<Rightarrow> 'a \<Rightarrow> 'a" and z :: 'a
  assumes left_zero: "m z s = s"
    and right_zero: "m d z = d"
    and assoc: "m (m a b) c = m a (m b c)"
    and idem: "m a a = a"
begin

lemma absorb: "m (m d s) s = m d s"
  by (simp add: assoc idem)

lemma absorb_left: "m d (m d s) = m d s"
  by (simp add: idem flip: assoc)

end

interpretation ptr: merge default_ptr None
  by unfold_locales (simp_all add: default_ptr_def split: option.split)

interpretation str: merge default_string "[]"
  by unfold_locales (simp_all add: default_string_def)

lemmas merge_laws = ptr.left_zero ptr.right_zero ptr.assoc ptr.idem str.left_zero str.right_zero str.assoc str.idem

interpretation pdm: merge default_PDConfig "ac_Pagerduty zero_AlertConfig"
  by unfold_locales (simp_all add: default_PDConfig_def zero_AlertConfig_def merge_laws)

interpretation dim: merge default_DiscordConfig "ac_Discord zero_AlertConfig"
  by unfold_locales (simp_all add: default_DiscordConfig_def zero_AlertConfig_def merge_laws)

interpretation tgm: merge default_TeleConfig "ac_Telegram zero_AlertConfig"
  by unfold_locales (simp_all add: default_TeleConfig_def zero_AlertConfig_def merge_laws)

interpretation slm: merge default_SlackConfig "ac_Slack zero_AlertConfig"
  by unfold_locales (simp_all add: default_SlackConfig_def zero_AlertConfig_def merge_laws)

interpretation whm: merge default_WebhookConfig "ac_Webhook zero_AlertConfig"
  by unfold_locales (simp_all add: default_WebhookConfig_def zero_AlertConfig_def merge_laws)

lemmas struct_laws =
  pdm.left_zero pdm.right_zero pdm.assoc pdm.idem dim.left_zero dim.right_zero dim.assoc dim.idem
  tgm.left_zero tgm.right_zero tgm.assoc tgm.idem slm.left_zero slm.right_zero slm.assoc slm.idem
  whm.left_zero whm.right_zero whm.assoc whm.idem

lemma zero_fields:
  "ac_Stalled zero_AlertConfig = None" "ac_StalledAlerts zero_AlertConfig = None" "ac_ConsecutiveMissed zero_AlertConfig = None"
  "ac_ConsecutivePriority zero_AlertConfig = []" "ac_ConsecutiveAlerts zero_AlertConfig = None"
  "ac_ConsecutiveMissExcludePreactions zero_AlertConfig = None" "ac_Window zero_AlertConfig = None"
  "ac_PercentagePriority zero_AlertConfig = []" "ac_PercentageAlerts zero_AlertConfig = None"
  "ac_ConsecutiveEmpty zero_AlertConfig = None" "ac_ConsecutiveEmptyPriority zero_AlertConfig = []"
  "ac_ConsecutiveEmptyAlerts zero_AlertConfig = None" "ac_EmptyWindow zero_AlertConfig = None"
  "ac_EmptyPercentagePriority zero_AlertConfig = []" "ac_EmptyPercentageAlerts zero_AlertConfig = None"
  "ac_AlertIfInactive zero_AlertConfig = None" "ac_AlertIfNoServers zero_AlertConfig = None"
  "ac_DoubleSignAlerts zero_AlertConfig = None" "ac_GovernanceAlerts zero_AlertConfig = None"
  "ac_StakeChangeAlerts zero_AlertConfig = None" "ac_StakeChangeDropThreshold zero_AlertConfig = None"
  "ac_StakeChangeIncreaseThreshold zero_AlertConfig = None" "ac_CommissionChangeAlerts zero_AlertConfig = None"
  "ac_CommissionChangeThreshold zero_AlertConfig = None" "ac_UnclaimedRewardsAlerts zero_AlertConfig = None"
  "ac_UnclaimedRewardsThreshold zero_AlertConfig = None"
  by (simp_all add: zero_AlertConfig_def)

interpretation alert_defaults: merge applyAlertDefaults zero_AlertConfig
proof unfold_locales
  show "applyAlertDefaults zero_AlertConfig s = s" for s
    by (simp add: applyAlertDefaults_def zero_fields merge_laws struct_laws)
  show "applyAlertDefaults d zero_AlertConfig = d" for d
    by (simp add: applyAlertDefaults_def zero_fields merge_laws struct_laws)
  show "applyAlertDefaults (applyAlertDefaults a b) c = applyAlertDefaults a (applyAlertDefaults b c)" for a b c
    by (simp add: applyAlertDefaults_def merge_laws struct_laws)
  show "applyAlertDefaults a a = a" for a
    by (simp add: applyAlertDefaults_def merge_laws struct_laws)
qed


section \<open>Provider and chain files\<close>

definition priceProviderCoinMarketCap :: string where "priceProviderCoinMarketCap = ''coinmarketcap''"
definition priceProviderCoinGecko :: string where "priceProviderCoinGecko = ''coingecko''"

definition normalizePriceProvider :: "string \<Rightarrow> string" where
  "normalizePriceProvider provider =
     (if ToLower (TrimSpace provider) = priceProviderCoinGecko then priceProviderCoinGecko
      else priceProviderCoinMarketCap)"

text \<open>
  A directory entry: its name, whether it is a directory, and the chain configuration read from it.
  \<^verbatim>\<open>os.ReadDir\<close> lists the entries by name. The result is the error of the first file that cannot
  be read, or the chains.
\<close>

fun load_chain_files ::
  "(string \<times> bool \<times> (string + ChainConfig)) list \<Rightarrow> (string, ChainConfig) gomap \<Rightarrow> string + (string, ChainConfig) gomap" where
  "load_chain_files [] chain_map = Inr chain_map"
| "load_chain_files ((name, isdir, conf) # files) chain_map =
     (if isdir then load_chain_files files chain_map
      else if \<not> HasSuffix name ''.yml'' then load_chain_files files chain_map
      else case conf of
        Inl e \<Rightarrow> Inl e
      | Inr chainConfig \<Rightarrow> load_chain_files files (gm_set (hd (Split name ''.'')) chainConfig chain_map))"

definition load_chains ::
  "(string \<times> bool \<times> (string + ChainConfig)) list \<Rightarrow> Config \<Rightarrow> string + Config" where
  "load_chains files c =
     (case load_chain_files files (cfg_Chains c) of
        Inl e \<Rightarrow> Inl e
      | Inr m \<Rightarrow> if gm_len m = 0 then Inl ''no chains configured'' else Inr (c\<lparr>cfg_Chains := m\<rparr>))"

text \<open>The settings of the price client: provider, currency, hours in the cache and slugs.\<close>

fun add_slugs :: "string list \<Rightarrow> ChainConfig list \<Rightarrow> string list" where
  "add_slugs slugs [] = slugs"
| "add_slugs slugs (chain # rest) =
     (if cc_Slug chain \<noteq> [] \<and> ToLower (cc_Slug chain) \<notin> set slugs
      then add_slugs (slugs @ [ToLower (cc_Slug chain)]) rest else add_slugs slugs rest)"

definition price_settings :: "Config \<Rightarrow> (string \<times> string \<times> int \<times> string list) option" where
  "price_settings c =
     (if pc_Enabled (cfg_PriceConversion c) then
        Some (normalizePriceProvider (pc_Provider (cfg_PriceConversion c)),
              (if pc_Currency (cfg_PriceConversion c) \<noteq> [] then pc_Currency (cfg_PriceConversion c) else ''USD''),
              (if 0 < pc_CacheExpiration (cfg_PriceConversion c) then pc_CacheExpiration (cfg_PriceConversion c) else 8),
              add_slugs [] (map snd (cfg_Chains c)))
      else None)"

section \<open>validateConfig\<close>

definition showBLocks :: nat where "showBLocks = 512"

definition not_connected :: ValInfo where
  "not_connected =
    \<lparr>vi_Moniker = ''not connected'', vi_Bonded = False, vi_Jailed = False, vi_Tombstoned = False, vi_Missed = 0,
     vi_Window = 0, vi_Conspub = None, vi_Valcons = [], vi_DelegatedTokens = Fin 0,
     vi_VotingPowerPercent = Fin 0, vi_CommissionRate = Fin 0, vi_ValidatorAPR = Fin 0,
     vi_Projected30DRewards = Fin 0, vi_SelfDelegationRewards = None, vi_Commission = None\<rparr>"

text \<open>
  The body of the loop over the chains. A nil \<^verbatim>\<open>blocksResults\<close> is the empty list here; the
  program never makes an empty one that is not nil.
\<close>

definition validate_chain :: "AlertConfig \<Rightarrow> string \<Rightarrow> ChainConfig \<Rightarrow> ChainConfig" where
  "validate_chain defaults k v =
     (let v1 = (if cc_blocksResults v = [] then v\<lparr>cc_blocksResults := replicate showBLocks (- 1)\<rparr> else v);
          v2 = (if cc_name v1 = [] then v1\<lparr>cc_name := k\<rparr> else v1);
          v3 = v2\<lparr>cc_valInfo := Some not_connected\<rparr>
      in v3\<lparr>cc_Alerts := applyAlertDefaults (cc_Alerts v3) defaults\<rparr>)"

definition em_dash_text :: string where "em_dash_text = [CHR 0xE2, CHR 0x80, CHR 0x94]"

text \<open>
  The checks before the loop, in their order. \<open>listen_ok\<close> tells whether \<^verbatim>\<open>url.Parse\<close> accepts the
  listen address.
\<close>

definition bad_listen :: "(string \<Rightarrow> bool) \<Rightarrow> Config \<Rightarrow> bool" where
  "bad_listen listen_ok c \<longleftrightarrow> cfg_EnableDash c \<and> \<not> listen_ok (cfg_Listen c)"

definition oauth_key :: "Config \<Rightarrow> bool" where
  "oauth_key c \<longleftrightarrow>
     boolVal (pd_Enabled (ac_Pagerduty (cfg_DefaultAlertConfig c))) \<and>
     (\<exists>ch\<in>set (pd_ApiKey (ac_Pagerduty (cfg_DefaultAlertConfig c))). ch \<in> set ''+_-'')"

definition missing_credentials :: "Config \<Rightarrow> bool" where
  "missing_credentials c \<longleftrightarrow>
     da_Enabled (cfg_DashboardAuth c) \<and>
     (da_Username (cfg_DashboardAuth c) = [] \<or> da_PasswordHash (cfg_DashboardAuth c) = [])"

definition config_problems :: "(string \<Rightarrow> bool) \<Rightarrow> Config \<Rightarrow> string list" where
  "config_problems listen_ok c =
     (if bad_listen listen_ok c
      then [''error: The listen URL '' @ cfg_Listen c @ '' does not appear to be valid''] else []) @
     (if oauth_key c
      then [''error: The Pagerduty key provided appears to be an Oauth token, not a V2 Events API key.''] else []) @
     (if cfg_NodeDownMin c < 3
      then [''warning: setting 'node_down_alert_minutes' to less than three minutes might result in false alarms''] else []) @
     (if missing_credentials c
      then [''warning: dashboard_auth.enabled is true but username/password_hash is not set '' @ em_dash_text @
            '' dashboard authentication disabled''] else [])"

definition repair_config :: "Config \<Rightarrow> Config" where
  "repair_config c =
     c\<lparr>cfg_GovernanceAlertsReminderInterval :=
         (if cfg_GovernanceAlertsReminderInterval c \<le> 0 then 6 else cfg_GovernanceAlertsReminderInterval c),
       cfg_PriceConversion :=
         (cfg_PriceConversion c)\<lparr>pc_Provider := normalizePriceProvider (pc_Provider (cfg_PriceConversion c))\<rparr>,
       cfg_DashboardAuth :=
         (if missing_credentials c then (cfg_DashboardAuth c)\<lparr>da_Enabled := False\<rparr> else cfg_DashboardAuth c),
       cfg_Chains := map (\<lambda>(k, v). (k, validate_chain (cfg_DefaultAlertConfig c) k v)) (cfg_Chains c)\<rparr>"

text \<open>
  The result is whether the problems are fatal, the problems, whether the refresh of the registry is
  started, the configuration, and the statuses sent to the dashboard.
\<close>

definition validateConfig ::
  "gotime \<Rightarrow> (string \<Rightarrow> bool) \<Rightarrow> Config \<Rightarrow> (bool \<times> string list \<times> bool \<times> Config \<times> ChainStatus list) option" where
  "validateConfig now listen_ok c =
     (let c' = repair_config c;
          wantsPublic = (\<exists>v\<in>snd ` set (cfg_Chains c). cc_PublicFallback v)
      in do { updates \<leftarrow> (if cfg_EnableDash c
                          then those (map (\<lambda>(k, v). toDashStatus now v 0 [] 0 0) (cfg_Chains c')) else Some []);
              Some (bad_listen listen_ok c \<or> oauth_key c, config_problems listen_ok c, wantsPublic, c', updates) })"

text \<open>A configuration the program can run with.\<close>

definition config_ready :: "Config \<Rightarrow> bool" where
  "config_ready c \<longleftrightarrow>
     0 < cfg_GovernanceAlertsReminderInterval c \<and>
     pc_Provider (cfg_PriceConversion c) \<in> {priceProviderCoinMarketCap, priceProviderCoinGecko} \<and>
     (da_Enabled (cfg_DashboardAuth c) \<longrightarrow> da_Username (cfg_DashboardAuth c) \<noteq> [] \<and> da_PasswordHash (cfg_DashboardAuth c) \<noteq> []) \<and>
     (\<forall>(k, v)\<in>set (cfg_Chains c). (k \<noteq> [] \<longrightarrow> cc_name v \<noteq> []) \<and> cc_blocksResults v \<noteq> [] \<and> cc_valInfo v = Some not_connected \<and>
        cc_Alerts v = applyAlertDefaults (cc_Alerts v) (cfg_DefaultAlertConfig c))"

lemma validate_chain_simps:
  "cc_name (validate_chain d k v) = (if cc_name v = [] then k else cc_name v)"
  "cc_blocksResults (validate_chain d k v) = (if cc_blocksResults v = [] then replicate showBLocks (- 1) else cc_blocksResults v)"
  "cc_valInfo (validate_chain d k v) = Some not_connected"
  "cc_Alerts (validate_chain d k v) = applyAlertDefaults (cc_Alerts v) d"
  "cc_PublicFallback (validate_chain d k v) = cc_PublicFallback v"
  by (simp_all add: validate_chain_def Let_def)

lemma validated_status: "toDashStatus now (validate_chain d k v) h e n a \<noteq> None"
  using toDashStatus_total [of "validate_chain d k v"] by (force simp: validate_chain_simps)

lemma validated_statuses:
  "\<exists>ys. those (map (\<lambda>(k, v). toDashStatus now v 0 [] 0 0) (map (\<lambda>(k, v). (k, validate_chain d k v)) m)) = Some ys \<and>
     length ys = length m"
  using those_total [of "map (\<lambda>(k, v). (k, validate_chain d k v)) m" "\<lambda>(k, v). toDashStatus now v 0 [] 0 0"]
  by (fastforce simp: validated_status)

lemma validate_chain_idem:
  "validate_chain d k (validate_chain d k v) = validate_chain d k v"
proof -
  have "applyAlertDefaults (applyAlertDefaults (cc_Alerts v) d) d = applyAlertDefaults (cc_Alerts v) d"
    by (rule alert_defaults.absorb)
  then show ?thesis
    by (simp add: validate_chain_def Let_def showBLocks_def)
qed

lemma normalizePriceProvider_idem [simp]: "normalizePriceProvider (normalizePriceProvider p) = normalizePriceProvider p"
proof -
  have "normalizePriceProvider priceProviderCoinGecko = priceProviderCoinGecko"
    "normalizePriceProvider priceProviderCoinMarketCap = priceProviderCoinMarketCap"
    by code_simp+
  then show ?thesis by (simp add: normalizePriceProvider_def [of p])
qed

lemma repair_config_idem: "repair_config (repair_config c) = repair_config c"
  by (simp add: repair_config_def missing_credentials_def split_def validate_chain_idem)

lemma repair_config_ready: "config_ready (repair_config c)"
proof -
  have v: "(k \<noteq> [] \<longrightarrow> cc_name (validate_chain d k v) \<noteq> []) \<and> cc_blocksResults (validate_chain d k v) \<noteq> [] \<and>
      cc_valInfo (validate_chain d k v) = Some not_connected \<and>
      cc_Alerts (validate_chain d k v) = applyAlertDefaults (cc_Alerts (validate_chain d k v)) d" for d k v
    by (simp add: validate_chain_simps showBLocks_def alert_defaults.absorb)
  then have "\<forall>(k, v)\<in>set (cfg_Chains (repair_config c)). (k \<noteq> [] \<longrightarrow> cc_name v \<noteq> []) \<and> cc_blocksResults v \<noteq> [] \<and>
      cc_valInfo v = Some not_connected \<and> cc_Alerts v = applyAlertDefaults (cc_Alerts v) (cfg_DefaultAlertConfig (repair_config c))"
    by (auto simp: repair_config_def)
  moreover have "normalizePriceProvider p \<in> {priceProviderCoinMarketCap, priceProviderCoinGecko}" for p
    by (simp add: normalizePriceProvider_def)
  ultimately show ?thesis
    unfolding config_ready_def by (simp add: repair_config_def missing_credentials_def)
qed

text \<open>
  Defaults are inherited consistently. \<^verbatim>\<open>applyAlertDefaults\<close> makes the alert settings an
  idempotent monoid whose neutral element is the zero value: applying the defaults twice, or a
  second layer of defaults after the first, is the same as applying the merged defaults once, and
  a setting that is present, an explicit false included, is never replaced.
\<close>

lemma applyAlertDefaults_monoid:
  "applyAlertDefaults zero_AlertConfig s = s \<and> applyAlertDefaults d zero_AlertConfig = d \<and>
   applyAlertDefaults (applyAlertDefaults d s) s' = applyAlertDefaults d (applyAlertDefaults s s') \<and>
   applyAlertDefaults d (applyAlertDefaults d s) = applyAlertDefaults d s \<and>
   \<not> boolVal (ac_AlertIfInactive (applyAlertDefaults (d\<lparr>ac_AlertIfInactive := Some False\<rparr>) s))"
  by (simp add: alert_defaults.left_zero alert_defaults.right_zero alert_defaults.assoc alert_defaults.absorb_left)
    (simp add: applyAlertDefaults_def default_ptr_def)


end
