(* ===== verification/StateStore.thy ===== *)
theory StateStore
  imports ConfigLoad Dispatch
begin

text \<open>
  What survives a restart: \<^verbatim>\<open>saveOnExit\<close> (\<^verbatim>\<open>td2/run.go\<close>) writes a \<^verbatim>\<open>savedState\<close>, and the second half
  of \<^verbatim>\<open>loadConfig\<close> (\<^verbatim>\<open>td2/types.go\<close>) restores it. The JSON encoding between them is outside; a
  field that was not in the file, or is null, is \<open>None\<close>. The alarm cache is written without
  \<^verbatim>\<open>flappingAlarms\<close>, which is not exported.
\<close>

section \<open>Saving\<close>

record savedState =
  sv_Alarms :: "alarmCache option"
  sv_Blocks :: "(string, int list) gomap"
  sv_NodesDown :: "(string, (string, gotime) gomap) gomap option"
  sv_NodesLagging :: "(string, (string, gotime) gomap) gomap option"
  sv_SilencedUntil :: "(string, int) gomap option"

text \<open>The nodes of one chain that satisfy a condition, with the time it began.\<close>

definition node_times :: "(NodeConfig \<Rightarrow> bool) \<Rightarrow> (NodeConfig \<Rightarrow> gotime) \<Rightarrow> NodeConfig list \<Rightarrow> (string, gotime) gomap" where
  "node_times cond since nodes = fold (\<lambda>n m. if cond n then gm_set (nd_Url n) (since n) m else m) nodes []"

definition chain_times ::
  "(NodeConfig \<Rightarrow> bool) \<Rightarrow> (NodeConfig \<Rightarrow> gotime) \<Rightarrow> (string, ChainConfig) gomap \<Rightarrow>
   (string, (string, gotime) gomap) gomap" where
  "chain_times cond since chain_map =
     fold (\<lambda>(k, v) m. if \<exists>n\<in>set (cc_Nodes v). cond n then gm_set k (node_times cond since (cc_Nodes v)) m else m)
       chain_map []"

definition saveState :: "gotime \<Rightarrow> sys \<Rightarrow> savedState" where
  "saveState now s =
    \<lparr>sv_Alarms = Some ((alarms s)\<lparr>flappingAlarms := []\<rparr>),
     sv_Blocks = (if cfg_EnableDash (td s)
                  then fold (\<lambda>(k, v). gm_set k (cc_blocksResults v)) (cfg_Chains (td s)) [] else []),
     sv_NodesDown = Some (chain_times nd_down nd_downSince (cfg_Chains (td s))),
     sv_NodesLagging = Some (chain_times nd_lagging nd_laggingSince (cfg_Chains (td s))),
     sv_SilencedUntil = Some (fold (\<lambda>(k, v) m. if Unix now < cc_silencedUntil v then gm_set k (cc_silencedUntil v) m else m)
                                (cfg_Chains (td s)) [])\<rparr>"

section \<open>Restoring\<close>

definition staleHours :: f64 where "staleHours = Fin 24"

text \<open>\<^verbatim>\<open>d.Hours()\<close>: whole hours and the rest, each converted, then added.\<close>

definition dur_Hours :: "duration \<Rightarrow> f64" where
  "dur_Hours d =
     (let hour = sgn d * (\<bar>d\<bar> div Hour); nsec = sgn d * (\<bar>d\<bar> mod Hour)
      in f64_add (f64_of_int hour) (f64_div (f64_of_int nsec) (Fin (60 * 60 * 10 ^ 9))))"

text \<open>
  \<^verbatim>\<open>clearStale\<close> returns the map and the keys for which the note about PagerDuty is logged.
\<close>

fun clearStale :: "gotime \<Rightarrow> string \<Rightarrow> bool \<Rightarrow> f64 \<Rightarrow> sent_map \<Rightarrow> sent_map \<times> string list" where
  "clearStale now what hasPagerduty hours [] = ([], [])"
| "clearStale now what hasPagerduty hours ((k, e) # m) =
     (let (m', noted) = clearStale now what hasPagerduty hours m
      in if f64_le hours (dur_Hours (time_Sub now (amc_SentTime e)))
         then (m', (if hasPagerduty \<and> what = ''pagerduty'' then k # noted else noted))
         else ((k, e) # m', noted))"

definition restoreAlarms :: "gotime \<Rightarrow> Config \<Rightarrow> alarmCache option \<Rightarrow> alarmCache \<Rightarrow> alarmCache" where
  "restoreAlarms now c saved a =
     (case saved of
        None \<Rightarrow> a
      | Some sa \<Rightarrow>
          let hasPd = boolVal (pd_Enabled (ac_Pagerduty (cfg_DefaultAlertConfig c)));
              hasWh = boolVal (wh_Enabled (ac_Webhook (cfg_DefaultAlertConfig c)))
          in a\<lparr>SentTgAlarms := fst (clearStale now ''telegram'' hasPd staleHours (SentTgAlarms sa)),
               SentPdAlarms := fst (clearStale now ''PagerDuty'' hasPd staleHours (SentPdAlarms sa)),
               SentDiAlarms := fst (clearStale now ''Discord'' hasPd staleHours (SentDiAlarms sa)),
               SentSlkAlarms := fst (clearStale now ''Slack'' hasPd staleHours (SentSlkAlarms sa)),
               SentWHAlarms := fst (clearStale now ''Webhook'' hasWh staleHours (SentWHAlarms sa)),
               AllAlarms := map (\<lambda>(chain, alrm). (chain, fst (clearStale now ''dashboard'' hasPd staleHours alrm))) (AllAlarms sa)\<rparr>)"

text \<open>
  The loops over the saved maps set the fields of the node whose URL is the key; each node looks
  its own key up here.
\<close>

definition restore_down :: "(string, gotime) gomap \<Rightarrow> NodeConfig \<Rightarrow> NodeConfig" where
  "restore_down v n =
     (case gm_get v (nd_Url n) of
        Some t \<Rightarrow> if \<not> IsZero t then n\<lparr>nd_down := True, nd_wasDown := True, nd_downSince := t\<rparr> else n
      | None \<Rightarrow> n)"

definition restore_lagging :: "(string, gotime) gomap \<Rightarrow> NodeConfig \<Rightarrow> NodeConfig" where
  "restore_lagging v n =
     (case gm_get v (nd_Url n) of
        Some t \<Rightarrow> if \<not> IsZero t then n\<lparr>nd_lagging := True, nd_wasLagging := True, nd_laggingSince := t\<rparr> else n
      | None \<Rightarrow> n)"

text \<open>What is restored into the chain with key \<open>k\<close>, in the order of the code.\<close>

definition restore_chain :: "gotime \<Rightarrow> savedState \<Rightarrow> string \<Rightarrow> ChainConfig \<Rightarrow> ChainConfig" where
  "restore_chain now saved k v =
     (let v1 = (case gm_get (sv_Blocks saved) k of None \<Rightarrow> v | Some b \<Rightarrow> v\<lparr>cc_blocksResults := b\<rparr>);
          v2 = (case sv_NodesDown saved of
                  None \<Rightarrow> v1
                | Some m \<Rightarrow>
                    let v' = (case gm_get m k of None \<Rightarrow> v1
                              | Some d \<Rightarrow> v1\<lparr>cc_Nodes := map (restore_down d) (cc_Nodes v1)\<rparr>)
                    in if length (filter nd_down (cc_Nodes v')) = length (cc_Nodes v')
                       then v'\<lparr>cc_noNodes := True\<rparr> else v');
          v3 = (case sv_NodesLagging saved of
                  None \<Rightarrow> v2
                | Some m \<Rightarrow> (case gm_get m k of None \<Rightarrow> v2
                            | Some d \<Rightarrow> v2\<lparr>cc_Nodes := map (restore_lagging d) (cc_Nodes v2)\<rparr>))
      in case sv_SilencedUntil saved of
           None \<Rightarrow> v3
         | Some m \<Rightarrow> (case gm_get m k of
                        Some until \<Rightarrow> if Unix now < until then v3\<lparr>cc_silencedUntil := until\<rparr> else v3
                      | None \<Rightarrow> v3))"

definition restoreState :: "gotime \<Rightarrow> savedState \<Rightarrow> Config \<times> alarmCache \<Rightarrow> Config \<times> alarmCache" where
  "restoreState now saved ca =
     (case ca of (c, a) \<Rightarrow>
        (c\<lparr>cfg_Chains := map (\<lambda>(k, v). (k, restore_chain now saved k v)) (cfg_Chains c)\<rparr>,
         restoreAlarms now c (sv_Alarms saved) a))"

section \<open>Age of an alarm\<close>

text \<open>The comparison of the floating-point hours with 24 is exact for every duration.\<close>

lemma normal_half: "1 / 2 \<le> x \<Longrightarrow> - 1022 \<le> flog2 x"
proof -
  assume "1 / 2 \<le> x"
  then have "(2::rat) powi (- 1) \<le> x" by (simp add: power_int_minus)
  then have "flog2 (2 powi (- 1)) \<le> flog2 x" by (intro flog2_mono) simp_all
  moreover have "flog2 (2 powi (- 1)) = - 1"
    by (rule flog2_unique) (simp_all only: order_refl powi_2_less_iff)
  ultimately show ?thesis by simp
qed

lemma rnd_upper: "1 / 2 \<le> x \<Longrightarrow> rnd x \<le> x + x / 2 ^ 53"
proof -
  assume x: "1 / 2 \<le> x"
  then have "\<bar>rnd x - x\<bar> \<le> x / 2 ^ 53"
    by (intro rnd_err normal_half) simp_all
  then show ?thesis by linarith
qed

lemma rnd_frac_less: "rnd (3599999999999 / 3600000000000) \<le> 1 - 1 / 10 ^ 13"
  using rnd_upper [of "3599999999999 / 3600000000000"] by simp

lemma rnd_frac: "rnd (3599999999999 / 3600000000000) \<le> 1"
  using rnd_frac_less by simp

lemma rnd_day: "rnd (23 + rnd (3599999999999 / 3600000000000)) < 24"
proof -
  have "rnd (23 + rnd (3599999999999 / 3600000000000)) \<le> rnd (24 - 1 / 10 ^ 13)"
    using rnd_frac_less by (intro rnd_mono) simp
  also have "\<dots> \<le> 24 - 1 / 10 ^ 13 + (24 - 1 / 10 ^ 13) / 2 ^ 53" by (rule rnd_upper) simp
  also have "\<dots> < 24" by simp
  finally show ?thesis .
qed

lemma f64_div_hour:
  assumes "\<bar>n\<bar> < Hour"
  shows "f64_div (f64_of_int n) (Fin (60 * 60 * 10 ^ 9)) = Fin (rnd (of_int n / 3600000000000))"
proof -
  have n: "\<bar>n\<bar> \<le> 3599999999999" using assms by (simp add: Hour_def)
  then have small: "\<bar>n\<bar> < 2 ^ 53" by simp
  have "\<bar>of_int n / 3600000000000 :: rat\<bar> \<le> 3599999999999 / 3600000000000"
  proof -
    have "\<bar>of_int n :: rat\<bar> \<le> of_int 3599999999999" using n by (simp only: of_int_le_iff flip: of_int_abs)
    then show ?thesis by (simp add: abs_divide divide_right_mono)
  qed
  then have "rnd (of_int n / 3600000000000) \<le> rnd (3599999999999 / 3600000000000)"
    "rnd (- (3599999999999 / 3600000000000)) \<le> rnd (of_int n / 3600000000000)"
    by (auto intro!: rnd_mono simp: abs_le_iff)
  then have "\<bar>rnd (of_int n / 3600000000000)\<bar> \<le> 1"
    using rnd_frac unfolding rnd_minus by linarith
  also have "(1::rat) < 2 ^ 1024" by simp
  finally show ?thesis
    by (simp add: f64_of_int_small [OF small] f64_round_def Let_def)
qed

lemma hours_stale:
  assumes "int64 d"
  shows "f64_le staleHours (dur_Hours d) \<longleftrightarrow> 24 * Hour \<le> d"
proof -
  let ?h = "sgn d * (\<bar>d\<bar> div Hour)" and ?n = "sgn d * (\<bar>d\<bar> mod Hour)"
  have H: "0 < Hour" by (simp add: Hour_def)
  have hb: "\<bar>?h\<bar> \<le> 2562048"
    using assms by (auto simp: int64_def Hour_def sgn_if abs_mult)
  then have h: "f64_of_int ?h = Fin (of_int ?h)" by (intro f64_of_int_small) simp
  have nb: "\<bar>?n\<bar> < Hour" using H by (auto simp: sgn_if)
  define r where "r = rnd (of_int ?n / 3600000000000)"
  have eq: "dur_Hours d = f64_round (of_int ?h + r)"
    unfolding dur_Hours_def Let_def h f64_div_hour [OF nb] r_def by simp
  have "0 \<le> d mod Hour" using H by simp
  then have r0: "0 \<le> d \<Longrightarrow> 0 \<le> r" unfolding r_def by (intro rnd_nonneg) (simp add: sgn_if)
  have r1: "r \<le> rnd (3599999999999 / 3600000000000)"
    unfolding r_def
  proof (rule rnd_mono)
    have "?n \<le> 3599999999999" using nb by (simp add: Hour_def)
    then have "(of_int ?n :: rat) \<le> of_int 3599999999999" by (simp only: of_int_le_iff)
    then show "of_int ?n / 3600000000000 \<le> (3599999999999 / 3600000000000 :: rat)" by (simp add: divide_right_mono)
  qed
  have rb: "\<bar>r\<bar> \<le> 1"
  proof -
    have "\<bar>of_int ?n / 3600000000000 :: rat\<bar> \<le> 1"
    proof -
      have "\<bar>of_int ?n :: rat\<bar> \<le> of_int 3600000000000" using nb by (simp only: of_int_le_iff flip: of_int_abs) (simp add: Hour_def)
      then show ?thesis by (simp add: abs_divide)
    qed
    then have "rnd (of_int ?n / 3600000000000) \<le> rnd (of_int 1)" "rnd (of_int (- 1)) \<le> rnd (of_int ?n / 3600000000000)"
      by (auto intro!: rnd_mono simp: abs_le_iff)
    then show ?thesis unfolding r_def using rnd_int [of 1] rnd_int [of "- 1"] by simp
  qed
  have fin: "f64_round (of_int ?h + r) = Fin (rnd (of_int ?h + r))"
  proof -
    have "\<bar>of_int ?h :: rat\<bar> \<le> of_int 2562048" using hb by (simp only: of_int_le_iff flip: of_int_abs)
    with rb have "of_int ?h + r \<le> of_int 2562049" "of_int (- 2562049) \<le> of_int ?h + r" by auto
    then have "rnd (of_int ?h + r) \<le> rnd (of_int 2562049)" "rnd (of_int (- 2562049)) \<le> rnd (of_int ?h + r)"
      by (auto intro!: rnd_mono)
    then have "\<bar>rnd (of_int ?h + r)\<bar> \<le> 2562049" using rnd_int [of 2562049] rnd_int [of "- 2562049"] by simp
    also have "(2562049::rat) < 2 ^ 1024" by simp
    finally show ?thesis by (simp add: f64_round_def Let_def)
  qed
  show ?thesis
  proof (cases "24 * Hour \<le> d")
    case True
    then have "24 \<le> ?h" using H by (simp add: sgn_if) (simp add: Hour_def)
    then have "(of_int 24 :: rat) \<le> of_int ?h" by (simp only: of_int_le_iff)
    with r0 True H have "of_int 24 \<le> of_int ?h + r" by fastforce
    then have "rnd (of_int 24) \<le> rnd (of_int ?h + r)" by (rule rnd_mono)
    then have "24 \<le> rnd (of_int ?h + r)" using rnd_int [of 24] by simp
    with True show ?thesis unfolding eq fin staleHours_def by simp
  next
    case False
    then have "?h \<le> 23" using H by (auto simp: sgn_if Hour_def)
    then have "(of_int ?h :: rat) \<le> of_int 23" by (simp only: of_int_le_iff)
    with r1 have "of_int ?h + r \<le> 23 + rnd (3599999999999 / 3600000000000)" by simp
    then have "rnd (of_int ?h + r) \<le> rnd (23 + rnd (3599999999999 / 3600000000000))" by (rule rnd_mono)
    with rnd_day have "rnd (of_int ?h + r) < 24" by simp
    with False show ?thesis unfolding eq fin staleHours_def by simp
  qed
qed


lemma int64_time_Sub: "int64 (time_Sub a b)"
  by (simp add: int64_def time_Sub_def)

text \<open>An alarm is stale when it was sent at least a day ago.\<close>

definition is_stale :: "gotime \<Rightarrow> alertMsgCache \<Rightarrow> bool" where
  "is_stale now e \<longleftrightarrow> 24 * Hour \<le> now - amc_SentTime e"

lemma stale_iff: "f64_le staleHours (dur_Hours (time_Sub now (amc_SentTime e))) \<longleftrightarrow> is_stale now e"
  unfolding hours_stale [OF int64_time_Sub] is_stale_def by (rule time_Sub_ge) (simp_all add: Hour_def)

lemma clearStale_filter:
  "fst (clearStale now what hasPd staleHours m) = filter (\<lambda>(k, e). \<not> is_stale now e) m"
  by (induction now what hasPd staleHours m rule: clearStale.induct) (auto simp: stale_iff split: prod.splits)

lemma gm_get_filter:
  "gm_ok m \<Longrightarrow> gm_get (filter (\<lambda>(k, e). P e) m) k =
     (case gm_get m k of None \<Rightarrow> None | Some e \<Rightarrow> if P e then Some e else None)"
proof (induction m)
  case (Cons ke m)
  obtain k' e where ke: "ke = (k', e)" by force
  have "gm_ok m" "gm_get m k' = None" using Cons.prems by (auto simp: ke gm_ok_def gm_get_absent)
  then show ?case using Cons.IH by (auto simp: ke gm_get_Cons)
qed simp

lemma gm_get_map: "gm_get (map (\<lambda>(k, v). (k, f k v)) m) k = map_option (f k) (gm_get m k)"
  by (induction m) (auto simp: gm_get_Cons)

text \<open>The note for PagerDuty is never logged: the label is spelled differently at the call.\<close>

lemma pagerduty_note_never: "what \<noteq> ''pagerduty'' \<Longrightarrow> snd (clearStale now what hasPd hours m) = []"
  by (induction now what hasPd hours m rule: clearStale.induct) (auto split: prod.splits)

section \<open>Reading back what was saved\<close>

lemma gm_get_fold_set:
  "gm_ok m \<Longrightarrow> gm_get (fold (\<lambda>(k, v) acc. if P v then gm_set k (f v) acc else acc) m acc) k =
     (case gm_get m k of Some v \<Rightarrow> if P v then Some (f v) else gm_get acc k | None \<Rightarrow> gm_get acc k)"
proof (induction m arbitrary: acc)
  case (Cons kv m)
  obtain k' v where kv: "kv = (k', v)" by force
  have "gm_ok m" "gm_get m k' = None" using Cons.prems by (auto simp: kv gm_ok_def gm_get_absent)
  then show ?case using Cons.IH by (auto simp: kv gm_get_Cons split: option.split)
qed simp

lemma node_at_distinct: "n \<in> set ns \<Longrightarrow> distinct (map nd_Url ns) \<Longrightarrow> node_at (nd_Url n) ns = Some n"
  by (induction ns) (auto simp: node_at_def)

lemma node_at_exists: "u \<in> nd_Url ` set ns \<Longrightarrow> \<exists>n. node_at u ns = Some n"
  by (induction ns) (auto simp: node_at_def)

lemma node_times_get:
  "distinct (map nd_Url ns) \<Longrightarrow>
   gm_get (fold (\<lambda>n m. if P n then gm_set (nd_Url n) (f n) m else m) ns acc) u =
     (case node_at u ns of Some n \<Rightarrow> if P n then Some (f n) else gm_get acc u | None \<Rightarrow> gm_get acc u)"
proof (induction ns arbitrary: acc)
  case (Cons n ns)
  have "node_at (nd_Url n) ns = None"
    using Cons.prems by (simp add: node_at_def find_None_iff image_iff) metis
  then show ?case using Cons by (auto split: option.split)
qed (simp add: node_at_def)

lemma saved_times:
  assumes "gm_ok chain_map" "gm_get chain_map k = Some v" "distinct (map nd_Url (cc_Nodes v))"
  shows "gm2_get (chain_times P f chain_map) k u =
    (case node_at u (cc_Nodes v) of Some n \<Rightarrow> if P n then Some (f n) else None | None \<Rightarrow> None)"
proof (cases "\<exists>n\<in>set (cc_Nodes v). P n")
  case True
  then show ?thesis
    using assms by (simp add: gm2_get_def chain_times_def gm_get_fold_set [where P = "\<lambda>v. \<exists>n\<in>set (cc_Nodes v). P n"]
        node_times_def node_times_get split: option.split)
next
  case False
  then have "gm_get (chain_times P f chain_map) k = None"
    using assms by (auto simp: chain_times_def gm_get_fold_set [where P = "\<lambda>v. \<exists>n\<in>set (cc_Nodes v). P n"])
  then show ?thesis
    using False node_at_member by (fastforce simp: gm2_get_def split: option.split)
qed


lemma restore_down_simps:
  "nd_Url (restore_down d n) = nd_Url n" "nd_lagging (restore_down d n) = nd_lagging n"
  "nd_wasLagging (restore_down d n) = nd_wasLagging n" "nd_laggingSince (restore_down d n) = nd_laggingSince n"
  by (simp_all add: restore_down_def split: option.split)

lemma restore_lagging_simps:
  "nd_Url (restore_lagging d n) = nd_Url n" "nd_down (restore_lagging d n) = nd_down n"
  "nd_wasDown (restore_lagging d n) = nd_wasDown n" "nd_downSince (restore_lagging d n) = nd_downSince n"
  by (simp_all add: restore_lagging_def split: option.split)

text \<open>The node with URL \<open>u\<close> after both restoring loops.\<close>

definition restored_node :: "(string, gotime) gomap option \<Rightarrow> (string, gotime) gomap option \<Rightarrow> NodeConfig \<Rightarrow> NodeConfig" where
  "restored_node d l n =
     (let n1 = (case d of None \<Rightarrow> n | Some m \<Rightarrow> restore_down m n)
      in case l of None \<Rightarrow> n1 | Some m \<Rightarrow> restore_lagging m n1)"

lemma restored_node_none [simp]: "restored_node None None = (\<lambda>n. n)"
  by (simp add: restored_node_def fun_eq_iff)

lemma restore_chain_fields:
  assumes "sv_NodesDown saved = Some dm" "sv_NodesLagging saved = Some lm" "sv_SilencedUntil saved = Some sm"
  shows "cc_Nodes (restore_chain now saved k v) = map (restored_node (gm_get dm k) (gm_get lm k)) (cc_Nodes v)"
    "cc_blocksResults (restore_chain now saved k v) =
       (case gm_get (sv_Blocks saved) k of None \<Rightarrow> cc_blocksResults v | Some b \<Rightarrow> b)"
    "cc_silencedUntil (restore_chain now saved k v) =
       (case gm_get sm k of Some u \<Rightarrow> if Unix now < u then u else cc_silencedUntil v | None \<Rightarrow> cc_silencedUntil v)"
  using assms by (simp_all add: restore_chain_def Let_def restored_node_def split: option.split)

lemma restored_node_at:
  assumes "node_at u ns0 = Some n0" "\<not> nd_down n0" "\<not> nd_wasDown n0" "\<not> nd_lagging n0" "\<not> nd_wasLagging n0"
    and d: "(case d of None \<Rightarrow> None | Some m \<Rightarrow> gm_get m u) = (if nd_down n then Some (nd_downSince n) else None)"
    and l: "(case l of None \<Rightarrow> None | Some m \<Rightarrow> gm_get m u) = (if nd_lagging n then Some (nd_laggingSince n) else None)"
  shows "\<exists>n1. node_at u (map (restored_node d l) ns0) = Some n1 \<and>
    (nd_down n1 \<longleftrightarrow> nd_down n \<and> \<not> IsZero (nd_downSince n)) \<and> nd_wasDown n1 = nd_down n1 \<and>
    (nd_down n1 \<longrightarrow> nd_downSince n1 = nd_downSince n) \<and>
    (nd_lagging n1 \<longleftrightarrow> nd_lagging n \<and> \<not> IsZero (nd_laggingSince n)) \<and> nd_wasLagging n1 = nd_lagging n1 \<and>
    (nd_lagging n1 \<longrightarrow> nd_laggingSince n1 = nd_laggingSince n)"
proof -
  have url: "nd_Url (restored_node d l n) = nd_Url n" for n
    by (simp add: restored_node_def Let_def restore_down_simps restore_lagging_simps split: option.split)
  have u: "nd_Url n0 = u" using node_at_member [OF assms(1)] by simp
  let ?m = "case d of None \<Rightarrow> n0 | Some m \<Rightarrow> restore_down m n0"
  have m: "(nd_down ?m \<longleftrightarrow> nd_down n \<and> \<not> IsZero (nd_downSince n)) \<and> nd_wasDown ?m = nd_down ?m \<and>
      (nd_down ?m \<longrightarrow> nd_downSince ?m = nd_downSince n) \<and> nd_Url ?m = u \<and> \<not> nd_lagging ?m \<and> \<not> nd_wasLagging ?m"
    using d u assms(2-5) by (auto simp: restore_down_def split: option.splits if_splits)
  have l': "restored_node d l n0 = (case l of None \<Rightarrow> ?m | Some m \<Rightarrow> restore_lagging m ?m)"
    by (simp add: restored_node_def Let_def)
  have "(nd_lagging (restored_node d l n0) \<longleftrightarrow> nd_lagging n \<and> \<not> IsZero (nd_laggingSince n)) \<and>
      nd_wasLagging (restored_node d l n0) = nd_lagging (restored_node d l n0) \<and>
      (nd_lagging (restored_node d l n0) \<longrightarrow> nd_laggingSince (restored_node d l n0) = nd_laggingSince n)"
    using l m unfolding l' by (auto simp: restore_lagging_def split: option.splits if_splits)
  moreover have "nd_down (restored_node d l n0) = nd_down ?m" "nd_wasDown (restored_node d l n0) = nd_wasDown ?m"
    "nd_downSince (restored_node d l n0) = nd_downSince ?m"
    unfolding l' by (simp_all add: restore_lagging_simps split: option.split)
  ultimately show ?thesis
    using m node_at_map [of "restored_node d l" u ns0] url assms(1) by auto
qed

text \<open>
  C28: A restart keeps what it must. When the program is stopped at \<open>t1\<close> and started again at \<open>t2\<close>
  with the same nodes configured for a chain, the chain has the block history it had, its
  maintenance window if it has not ended by \<open>t2\<close>, and every node is down or lagging exactly when it
  was (with a start time), since the same time, and remembered as such; whatever was notified less
  than a day before \<open>t2\<close> is still on record at every destination, and nothing older is.
\<close>

theorem restart_keeps_state:
  assumes ok: "gm_ok (cfg_Chains (td s))" and dash: "cfg_EnableDash (td s)" and t: "t1 \<le> t2"
    and old: "gm_get (cfg_Chains (td s)) k = Some v" and new: "gm_get (cfg_Chains c) k = Some v0"
    and urls: "map nd_Url (cc_Nodes v0) = map nd_Url (cc_Nodes v)" "distinct (map nd_Url (cc_Nodes v))"
    and fresh: "\<forall>n\<in>set (cc_Nodes v0). \<not> nd_down n \<and> \<not> nd_wasDown n \<and> \<not> nd_lagging n \<and> \<not> nd_wasLagging n"
      "cc_silencedUntil v0 = 0"
    and sent: "gm_ok (sent_of d (alarms s))"
    and r: "restoreState t2 (saveState t1 s) (c, a) = (c', a')"
  shows "(\<exists>v1. gm_get (cfg_Chains c') k = Some v1 \<and> cc_blocksResults v1 = cc_blocksResults v \<and>
      cc_silencedUntil v1 = (if Unix t2 < cc_silencedUntil v then cc_silencedUntil v else 0) \<and>
      (\<forall>n\<in>set (cc_Nodes v). \<exists>n1. node_at (nd_Url n) (cc_Nodes v1) = Some n1 \<and>
        (nd_down n1 \<longleftrightarrow> nd_down n \<and> \<not> IsZero (nd_downSince n)) \<and> nd_wasDown n1 = nd_down n1 \<and>
        (nd_down n1 \<longrightarrow> nd_downSince n1 = nd_downSince n) \<and>
        (nd_lagging n1 \<longleftrightarrow> nd_lagging n \<and> \<not> IsZero (nd_laggingSince n)) \<and> nd_wasLagging n1 = nd_lagging n1 \<and>
        (nd_lagging n1 \<longrightarrow> nd_laggingSince n1 = nd_laggingSince n))) \<and>
    (\<forall>i e. gm_get (sent_of d a') i = Some e \<longleftrightarrow> gm_get (sent_of d (alarms s)) i = Some e \<and> \<not> is_stale t2 e)"
proof -
  let ?sv = "saveState t1 s"
  let ?dm = "chain_times nd_down nd_downSince (cfg_Chains (td s))"
  let ?lm = "chain_times nd_lagging nd_laggingSince (cfg_Chains (td s))"
  let ?sm = "fold (\<lambda>(k, v) m. if Unix t1 < cc_silencedUntil v then gm_set k (cc_silencedUntil v) m else m) (cfg_Chains (td s)) []"
  have sv: "sv_NodesDown ?sv = Some ?dm" "sv_NodesLagging ?sv = Some ?lm" "sv_SilencedUntil ?sv = Some ?sm"
    by (simp_all add: saveState_def)
  note fields = restore_chain_fields [OF sv, of t2 k v0]
  have c': "gm_get (cfg_Chains c') k = Some (restore_chain t2 ?sv k v0)"
    using r new by (auto simp: restoreState_def gm_get_map)
  have blocks: "gm_get (sv_Blocks ?sv) k = Some (cc_blocksResults v)"
    using gm_get_fold_set [OF ok, of "\<lambda>_. True" cc_blocksResults "[]" k] old dash by (simp add: saveState_def)
  have sil: "gm_get ?sm k = (if Unix t1 < cc_silencedUntil v then Some (cc_silencedUntil v) else None)"
    using gm_get_fold_set [OF ok, of "\<lambda>v. Unix t1 < cc_silencedUntil v" cc_silencedUntil "[]" k] old by simp
  have until: "cc_silencedUntil (restore_chain t2 ?sv k v0) = (if Unix t2 < cc_silencedUntil v then cc_silencedUntil v else 0)"
    using sil fresh(2) Unix_mono [OF t] by (simp add: fields)
  have nodes: "\<exists>n1. node_at (nd_Url n) (cc_Nodes (restore_chain t2 ?sv k v0)) = Some n1 \<and>
        (nd_down n1 \<longleftrightarrow> nd_down n \<and> \<not> IsZero (nd_downSince n)) \<and> nd_wasDown n1 = nd_down n1 \<and>
        (nd_down n1 \<longrightarrow> nd_downSince n1 = nd_downSince n) \<and>
        (nd_lagging n1 \<longleftrightarrow> nd_lagging n \<and> \<not> IsZero (nd_laggingSince n)) \<and> nd_wasLagging n1 = nd_lagging n1 \<and>
        (nd_lagging n1 \<longrightarrow> nd_laggingSince n1 = nd_laggingSince n)" if n: "n \<in> set (cc_Nodes v)" for n
  proof -
    have at: "node_at (nd_Url n) (cc_Nodes v) = Some n"
      using n urls(2) by (rule node_at_distinct)
    have "nd_Url n \<in> nd_Url ` set (cc_Nodes v0)" using n urls(1) by (metis image_eqI list.set_map)
    then obtain n0 where n0: "node_at (nd_Url n) (cc_Nodes v0) = Some n0"
      using node_at_exists by metis
    have f: "\<not> nd_down n0" "\<not> nd_wasDown n0" "\<not> nd_lagging n0" "\<not> nd_wasLagging n0"
      using fresh(1) node_at_member [OF n0] by auto
    have "(case gm_get ?dm k of None \<Rightarrow> None | Some m \<Rightarrow> gm_get m (nd_Url n)) = (if nd_down n then Some (nd_downSince n) else None)"
      "(case gm_get ?lm k of None \<Rightarrow> None | Some m \<Rightarrow> gm_get m (nd_Url n)) = (if nd_lagging n then Some (nd_laggingSince n) else None)"
      using saved_times [OF ok old urls(2), of _ _ "nd_Url n"] at by (simp_all add: gm2_get_def)
    from restored_node_at [OF n0 f this] show ?thesis by (simp only: fields)
  qed
  have alarms: "gm_get (sent_of d a') i = Some e \<longleftrightarrow> gm_get (sent_of d (alarms s)) i = Some e \<and> \<not> is_stale t2 e" for i e
  proof -
    have "sent_of d a' = filter (\<lambda>(k, e). \<not> is_stale t2 e) (sent_of d (alarms s))"
      using r by (cases d) (auto simp: restoreState_def restoreAlarms_def saveState_def sent_of_def clearStale_filter Let_def)
    then show ?thesis by (auto simp: gm_get_filter [OF sent, of "\<lambda>e. \<not> is_stale t2 e"] split: option.splits if_splits)
  qed
  have "cc_blocksResults (restore_chain t2 ?sv k v0) = cc_blocksResults v"
    by (simp add: fields blocks)
  with c' until nodes alarms show ?thesis by blast
qed

lemma sent_of_restored:
  "sent_of d (snd (restoreState t2 (saveState t1 s) (c, a))) = filter (\<lambda>(k, e). \<not> is_stale t2 e) (sent_of d (alarms s))"
  by (cases d) (simp_all add: restoreState_def restoreAlarms_def saveState_def sent_of_def clearStale_filter Let_def)

text \<open>
  A restart does not repeat a notification. A firing message about an alert that was notified
  at a destination less than a day before the restart is refused there after it, so the incident
  is neither reported twice nor left without its resolution; an alert notified a day or more
  before the restart is no longer on record.
\<close>

lemma restart_no_duplicate:
  assumes "is_sent d i (alarms s)" "gm_ok (sent_of d (alarms s))"
    "m_uniqueId m = i" "\<not> m_resolved m" "\<not> HasPrefix i governance_prefix"
  shows "let a' = snd (restoreState t2 (saveState t1 s) (c, no_alarms)) in
    if t2 - sent_time (sent_of d (alarms s)) i < 24 * Hour
    then is_sent d i a' \<and> \<not> fst (shouldNotify reminder t3 m d a')
    else \<not> is_sent d i a'"
proof -
  let ?a = "snd (restoreState t2 (saveState t1 s) (c, no_alarms))"
  note eq = sent_of_restored [of d t2 t1 s c no_alarms]
  obtain e where e: "gm_get (sent_of d (alarms s)) i = Some e" "\<not> IsZero (amc_SentTime e)"
    using assms(1) by (auto simp: is_sent_def sent_time_def split: option.splits)
  have "sent_time (sent_of d (alarms s)) i = amc_SentTime e" by (simp add: sent_time_def e)
  moreover have "is_sent d i ?a \<longleftrightarrow> \<not> is_stale t2 e"
    using e by (simp add: is_sent_def sent_time_def eq gm_get_filter [OF assms(2), of "\<lambda>e. \<not> is_stale t2 e"])
  moreover have "\<not> fst (shouldNotify reminder t3 m d ?a)" if "is_sent d i ?a"
    using that assms(3-5) by (subst shouldNotify_decision) (simp_all add: plain_id_def)
  ultimately show ?thesis by (simp add: Let_def is_stale_def)
qed

section \<open>Examples\<close>

definition stopped_chain :: ChainConfig where
  "stopped_chain = sample_chain\<lparr>cc_Nodes := [sample_node\<lparr>nd_down := True, nd_downSince := noon\<rparr>],
     cc_blocksResults := [3, 3, 0], cc_silencedUntil := Unix noon + 7200\<rparr>"

definition told :: alarmCache where
  "told = no_alarms\<lparr>SentSlkAlarms := [(''A'', \<lparr>amc_Message = ''down'', amc_SentTime = noon, amc_Severity = ''critical'', amc_Escalated = False\<rparr>)]\<rparr>"

theorem restart_keeps_state_witness:
  "\<exists>v1 n1. gm_get (cfg_Chains (fst (restoreState (noon + Hour) (saveState noon (sample_sys stopped_chain told))
       (sample_config, no_alarms)))) ''net'' = Some v1 \<and>
     cc_blocksResults v1 = [3, 3, 0] \<and> node_at ''tcp://n1'' (cc_Nodes v1) = Some n1 \<and> nd_down n1 \<and> nd_downSince n1 = noon"
proof -
  let ?s = "sample_sys stopped_chain told"
  obtain c' a' where r: "restoreState (noon + Hour) (saveState noon ?s) (sample_config, no_alarms) = (c', a')"
    by force
  have ok: "gm_ok (cfg_Chains (td ?s))" "cfg_EnableDash (td ?s)" "noon \<le> noon + Hour"
    "gm_get (cfg_Chains (td ?s)) ''net'' = Some stopped_chain" "gm_get (cfg_Chains sample_config) ''net'' = Some sample_chain"
    "map nd_Url (cc_Nodes sample_chain) = map nd_Url (cc_Nodes stopped_chain)" "distinct (map nd_Url (cc_Nodes stopped_chain))"
    "\<forall>n\<in>set (cc_Nodes sample_chain). \<not> nd_down n \<and> \<not> nd_wasDown n \<and> \<not> nd_lagging n \<and> \<not> nd_wasLagging n"
    "cc_silencedUntil sample_chain = 0" "gm_ok (sent_of slk (alarms ?s))"
    by (simp_all add: sample_sys_def sample_config_def gm_ok_def gm_get_Cons stopped_chain_def Hour_def told_def no_alarms_def
        sent_of_def sample_node_def)
  let ?n = "sample_node\<lparr>nd_down := True, nd_downSince := noon\<rparr>"
  from restart_keeps_state [OF ok r, THEN conjunct1] obtain v1 where
    v1: "gm_get (cfg_Chains c') ''net'' = Some v1" "cc_blocksResults v1 = cc_blocksResults stopped_chain"
    and nodes: "\<forall>n\<in>set (cc_Nodes stopped_chain). \<exists>n1. node_at (nd_Url n) (cc_Nodes v1) = Some n1 \<and>
        (nd_down n1 \<longleftrightarrow> nd_down n \<and> \<not> IsZero (nd_downSince n)) \<and> nd_wasDown n1 = nd_down n1 \<and>
        (nd_down n1 \<longrightarrow> nd_downSince n1 = nd_downSince n) \<and>
        (nd_lagging n1 \<longleftrightarrow> nd_lagging n \<and> \<not> IsZero (nd_laggingSince n)) \<and> nd_wasLagging n1 = nd_lagging n1 \<and>
        (nd_lagging n1 \<longrightarrow> nd_laggingSince n1 = nd_laggingSince n)"
    by blast
  have "?n \<in> set (cc_Nodes stopped_chain)" by (simp add: stopped_chain_def)
  from bspec [OF nodes this] obtain n1 where "node_at ''tcp://n1'' (cc_Nodes v1) = Some n1" "nd_down n1" "nd_downSince n1 = noon"
    by auto
  moreover have "cc_blocksResults v1 = [3, 3, 0]" using v1(2) by (simp add: stopped_chain_def)
  ultimately show ?thesis using v1(1) r by auto
qed

lemma restart_no_duplicate_witness:
  "\<not> fst (shouldNotify 6 (noon + 2 * Hour) (sample_msg ''A'' False) slk
     (snd (restoreState (noon + Hour) (saveState noon (sample_sys sample_chain told)) (sample_config, no_alarms))))"
proof -
  have p: "is_sent slk ''A'' (alarms (sample_sys sample_chain told))" "gm_ok (sent_of slk (alarms (sample_sys sample_chain told)))"
    "m_uniqueId (sample_msg ''A'' False) = ''A''" "\<not> m_resolved (sample_msg ''A'' False)" "\<not> HasPrefix ''A'' governance_prefix"
    by (simp_all add: told_def no_alarms_def is_sent_def sent_of_def sent_time_def gm_get_Cons gm_ok_def
        governance_prefix_def HasPrefix_def)
  have "sent_time (sent_of slk (alarms (sample_sys sample_chain told))) ''A'' = noon"
    by (simp add: told_def no_alarms_def sent_of_def sent_time_def gm_get_Cons)
  with restart_no_duplicate [OF p, of "noon + Hour" noon sample_config 6 "noon + 2 * Hour"] show ?thesis
    by (simp add: Let_def Hour_def)
qed

end
