(* ===== verification/Dashboard.thy ===== *)
theory Dashboard
  imports BlockWatch "HOL-Library.List_Lexorder"
begin

text \<open>
  The web dashboard (\<^verbatim>\<open>td2/dashboard/server.go\<close>): the cache its single aggregator goroutine keeps,
  the aggregator loop, the HTTP routes and the optional Basic Auth in front of them.

  A cached JSON document is represented by the value it encodes. \<^verbatim>\<open>json.Marshal\<close> refuses a float
  that is not finite; nothing else in the encoded structs can fail. Serving static files and the
  websocket connection itself are outside, as is bcrypt, a parameter.
\<close>

section \<open>Hiding endpoints\<close>

text \<open>
  The expression \<^verbatim>\<open>\W(https?|tcp|wss?)://.+\w\<close>. It is matched rune by rune; a word character is
  always a single byte, and an invalid byte is a rune of its own.
\<close>

text \<open>The number of bytes of the first rune, as \<^verbatim>\<open>utf8.DecodeRuneInString\<close> gives it.\<close>

definition rune_len :: "string \<Rightarrow> nat" where
  "rune_len s =
     (let byte = (\<lambda>i. (if i < length s then of_char (s ! i) else 0) :: nat);
          btw = (\<lambda>i lo hi. lo \<le> byte i \<and> byte i \<le> hi);
          more = (\<lambda>i. btw i 128 191)
      in if btw 0 194 223 \<and> more 1 then 2
         else if (byte 0 = 224 \<and> btw 1 160 191 \<or> byte 0 = 237 \<and> btw 1 128 159 \<or>
                  (btw 0 225 236 \<or> btw 0 238 239) \<and> more 1) \<and> more 2 then 3
         else if (byte 0 = 240 \<and> btw 1 144 191 \<or> byte 0 = 244 \<and> btw 1 128 143 \<or>
                  btw 0 241 243 \<and> more 1) \<and> more 2 \<and> more 3 then 4
         else 1)"

lemma rune_len_pos [simp]: "0 < rune_len s"
  by (simp add: rune_len_def Let_def)

definition is_word :: "char \<Rightarrow> bool" where
  "is_word c = (let n = of_char c :: nat
                in (48 \<le> n \<and> n \<le> 57) \<or> (65 \<le> n \<and> n \<le> 90) \<or> n = 95 \<or> (97 \<le> n \<and> n \<le> 122))"

definition url_schemes :: "string list" where
  "url_schemes = [''https'', ''http'', ''tcp'', ''wss'', ''ws'']"

text \<open>The text after a scheme and \<^verbatim>\<open>://\<close>, if the string starts with one.\<close>

definition after_scheme :: "string \<Rightarrow> string option" where
  "after_scheme s =
     (case List.find (\<lambda>p. HasPrefix s (p @ ''://'')) url_schemes of
        None \<Rightarrow> None
      | Some p \<Rightarrow> Some (drop (length p + 3) s))"

text \<open>What is left after \<^verbatim>\<open>.+\w\<close>: the last word character of the line that has one before it.\<close>

definition same_line :: "string \<Rightarrow> string" where
  "same_line s = takeWhile (\<lambda>c. c \<noteq> CHR 0x0A) s"

definition rest_of_line :: "string \<Rightarrow> string option" where
  "rest_of_line s =
     (let body = rev (dropWhile (\<lambda>c. \<not> is_word c) (rev (same_line s)))
      in if 2 \<le> length body then Some (drop (length body) s) else None)"

definition rex_match :: "string \<Rightarrow> string option" where
  "rex_match s =
     (case s of
        [] \<Rightarrow> None
      | c # cs \<Rightarrow> if is_word c then None else Option.bind (after_scheme (drop (rune_len s) s)) rest_of_line)"

lemma rex_match_shorter: "rex_match s = Some t \<Longrightarrow> length t < length s"
  using rune_len_pos [of s]
  by (auto simp: rex_match_def after_scheme_def rest_of_line_def Let_def bind_eq_Some_conv
      split: list.splits option.splits if_splits)

function ReplaceAllString :: "string \<Rightarrow> string \<Rightarrow> string" where
  "ReplaceAllString [] repl = []"
| "ReplaceAllString (c # cs) repl =
     (case rex_match (c # cs) of
        Some t \<Rightarrow> repl @ ReplaceAllString t repl
      | None \<Rightarrow> take (rune_len (c # cs)) (c # cs) @ ReplaceAllString (drop (rune_len (c # cs)) (c # cs)) repl)"
  by pat_completeness auto
termination
  by (relation "measure (\<lambda>(s, _). length s)") (auto dest: rex_match_shorter)

function MatchString :: "string \<Rightarrow> bool" where
  "MatchString [] = False"
| "MatchString (c # cs) = (rex_match (c # cs) \<noteq> None \<or> MatchString (drop (rune_len (c # cs)) (c # cs)))"
  by pat_completeness auto
termination
  by (relation "measure length") simp_all

section \<open>The cache\<close>

definition logLength :: nat where "logLength = 256"
definition alertHistoryLength :: nat where "alertHistoryLength = 256"

text \<open>A status document is \<open>None\<close> while it is the initial empty object.\<close>

record dashCache =
  dc_status :: "(string, ChainStatus) gomap"
  dc_logSlice :: "LogMessage list"
  dc_alertHistorySlice :: "AlertHistoryEntry list"
  dc_logCache :: "LogMessage list"
  dc_statusCache :: "ChainStatus list option"
  dc_alertHistoryCache :: "AlertHistoryEntry list"

definition newDashCache :: dashCache where
  "newDashCache = \<lparr>dc_status = [], dc_logSlice = [], dc_alertHistorySlice = [], dc_logCache = [],
     dc_statusCache = None, dc_alertHistoryCache = []\<rparr>"

definition finite_f64 :: "f64 \<Rightarrow> bool" where
  "finite_f64 f = (case f of Fin _ \<Rightarrow> True | _ \<Rightarrow> False)"

text \<open>Whether \<^verbatim>\<open>json.Marshal\<close> accepts a status.\<close>

definition json_ok :: "ChainStatus \<Rightarrow> bool" where
  "json_ok u \<longleftrightarrow>
     finite_f64 (cs_MinSignedPerWindow u) \<and> finite_f64 (cs_TotalBondedTokens u) \<and> finite_f64 (cs_TotalSupply u) \<and>
     finite_f64 (cs_CommunityTax u) \<and> finite_f64 (cs_InflationRate u) \<and> finite_f64 (cs_BaseAPR u) \<and>
     finite_f64 (cs_VotingPowerPercent u) \<and> finite_f64 (cs_DelegatedTokens u) \<and> finite_f64 (cs_CommissionRate u) \<and>
     finite_f64 (cs_ValidatorAPR u) \<and> finite_f64 (cs_Projected30DRewards u) \<and>
     (case cs_CryptoPrice u of None \<Rightarrow> True | Some p \<Rightarrow> finite_f64 (cp_Price p))"

definition redact :: "bool \<Rightarrow> ChainStatus \<Rightarrow> ChainStatus" where
  "redact hideLogs u =
     (if hideLogs \<and> MatchString (cs_LastError u)
      then u\<lparr>cs_LastError := ReplaceAllString (cs_LastError u) ''-redacted-''\<rparr> else u)"

definition updateStatus :: "ChainStatus \<Rightarrow> bool \<Rightarrow> dashCache \<Rightarrow> ChainStatus list option \<times> dashCache" where
  "updateStatus u hideLogs c =
     (let u' = redact hideLogs u;
          c1 = c\<lparr>dc_status := gm_set (cs_Name u') u' (dc_status c)\<rparr>;
          result = sort_key cs_Name (map snd (dc_status c1))
      in if \<forall>x\<in>set result. json_ok x then (Some result, c1\<lparr>dc_statusCache := Some result\<rparr>) else (None, c1))"

text \<open>Prepending to a slice that keeps at most \<open>n\<close> elements.\<close>

definition push_capped :: "nat \<Rightarrow> 'a \<Rightarrow> 'a list \<Rightarrow> 'a list" where
  "push_capped n x xs = (if n \<le> length xs then x # take (length xs - 1) xs else x # xs)"

definition appendLog ::
  "LogMessage \<Rightarrow> bool \<Rightarrow> dashCache \<Rightarrow> (LogMessage list \<times> LogMessage) option \<times> dashCache" where
  "appendLog m hideLogs c =
     (if hideLogs then (None, c)
      else let c1 = c\<lparr>dc_logSlice := push_capped logLength m (dc_logSlice c)\<rparr>;
               c2 = c1\<lparr>dc_logCache := dc_logSlice c1\<rparr>
           in (Some (dc_logCache c2, m), c2))"

definition appendAlertHistory ::
  "AlertHistoryEntry \<Rightarrow> bool \<Rightarrow> dashCache \<Rightarrow> (AlertHistoryEntry list \<times> AlertHistoryEntry) option \<times> dashCache" where
  "appendAlertHistory ah hideLogs c =
     (if hideLogs then (None, c)
      else let c1 = c\<lparr>dc_alertHistorySlice := push_capped alertHistoryLength ah (dc_alertHistorySlice c)\<rparr>;
               c2 = c1\<lparr>dc_alertHistoryCache := dc_alertHistorySlice c1\<rparr>
           in (Some (dc_alertHistoryCache c2, ah), c2))"

definition getLogCache :: "dashCache \<Rightarrow> LogMessage list" where "getLogCache c = dc_logCache c"
definition getStatusCache :: "dashCache \<Rightarrow> ChainStatus list option" where "getStatusCache c = dc_statusCache c"
definition getAlertHistoryCache :: "dashCache \<Rightarrow> AlertHistoryEntry list" where
  "getAlertHistoryCache c = dc_alertHistoryCache c"

section \<open>The aggregator\<close>

datatype dash_event = Tick | NewStatus ChainStatus | NewLog LogMessage | NewAlert AlertHistoryEntry

datatype cast = CastStatus "ChainStatus list option" | CastLog LogMessage | CastAlert AlertHistoryEntry

text \<open>One round of the \<^verbatim>\<open>select\<close> loop of \<^verbatim>\<open>Serve\<close>: what is broadcast, the flag \<^verbatim>\<open>update\<close> and the cache.\<close>

definition serve_step :: "bool \<Rightarrow> dash_event \<Rightarrow> bool \<times> dashCache \<Rightarrow> cast list \<times> bool \<times> dashCache" where
  "serve_step hideLogs e st =
     (case st of (update, c) \<Rightarrow>
       (case e of
          Tick \<Rightarrow> if update then ([CastStatus (getStatusCache c)], False, c) else ([], update, c)
        | NewStatus u \<Rightarrow> (case updateStatus u hideLogs c of
                            (Some _, c') \<Rightarrow> ([], True, c')
                          | (None, c') \<Rightarrow> ([], update, c'))
        | NewLog m \<Rightarrow> (case appendLog m hideLogs c of
                         (Some (_, single), c') \<Rightarrow> ([CastLog single], update, c')
                       | (None, c') \<Rightarrow> ([], update, c'))
        | NewAlert ah \<Rightarrow> (case appendAlertHistory ah hideLogs c of
                            (Some (_, single), c') \<Rightarrow> ([CastAlert single], update, c')
                          | (None, c') \<Rightarrow> ([], update, c'))))"

fun serve_run :: "bool \<Rightarrow> dash_event list \<Rightarrow> bool \<times> dashCache \<Rightarrow> cast list \<times> bool \<times> dashCache" where
  "serve_run hideLogs [] st = ([], st)"
| "serve_run hideLogs (e # es) st =
     (let (out, st') = serve_step hideLogs e st; (outs, st'') = serve_run hideLogs es st' in (out @ outs, st''))"

section \<open>Capped slices\<close>

lemma push_capped_take: "0 < n \<Longrightarrow> length xs \<le> n \<Longrightarrow> push_capped n x xs = take n (x # xs)"
  by (auto simp: push_capped_def take_Cons')

lemma push_capped_length: "0 < n \<Longrightarrow> length xs \<le> n \<Longrightarrow> length (push_capped n x xs) \<le> n"
  by (simp add: push_capped_take)

lemma take_push: "0 < n \<Longrightarrow> push_capped n x (take n xs) = take n (x # xs)"
  by (simp add: push_capped_take) (cases n, simp_all add: min_def)

fun logs_of :: "dash_event list \<Rightarrow> LogMessage list" where
  "logs_of [] = []"
| "logs_of (NewLog m # es) = m # logs_of es"
| "logs_of (_ # es) = logs_of es"

fun alerts_of :: "dash_event list \<Rightarrow> AlertHistoryEntry list" where
  "alerts_of [] = []"
| "alerts_of (NewAlert m # es) = m # alerts_of es"
| "alerts_of (_ # es) = alerts_of es"

fun statuses_of :: "dash_event list \<Rightarrow> ChainStatus list" where
  "statuses_of [] = []"
| "statuses_of (NewStatus m # es) = m # statuses_of es"
| "statuses_of (_ # es) = statuses_of es"

text \<open>The last status of each chain.\<close>

definition latest :: "bool \<Rightarrow> ChainStatus list \<Rightarrow> (string, ChainStatus) gomap \<Rightarrow> (string, ChainStatus) gomap" where
  "latest hideLogs us m = fold (\<lambda>u. gm_set (cs_Name u) (redact hideLogs u)) us m"

text \<open>A table of statuses keyed by their names.\<close>

definition status_ok :: "(string, ChainStatus) gomap \<Rightarrow> bool" where
  "status_ok m \<longleftrightarrow> gm_ok m \<and> (\<forall>(k, v)\<in>set m. cs_Name v = k)"

lemma redact_simps [simp]: "cs_Name (redact h u) = cs_Name u" "json_ok (redact h u) = json_ok u"
  by (simp_all add: redact_def json_ok_def)

lemma gm_set_mem: "(k, v) \<in> set (gm_set k' v' m) \<Longrightarrow> (k, v) = (k', v') \<or> (k, v) \<in> set m"
  unfolding gm_set_def by (induction m) (auto split: if_splits)

lemma status_ok_set: "status_ok m \<Longrightarrow> cs_Name u = k \<Longrightarrow> status_ok (gm_set k u m)"
  unfolding status_ok_def by (auto dest!: gm_set_mem)

lemma status_ok_latest: "status_ok m \<Longrightarrow> status_ok (latest h us m)"
  by (induction us arbitrary: m) (simp_all add: latest_def status_ok_set)

lemma sorted_table:
  assumes "status_ok m"
  shows "sorted_wrt (<) (map cs_Name (sort_key cs_Name (map snd m)))"
proof -
  have "map cs_Name (map snd m) = map fst m"
    using assms by (auto simp: status_ok_def)
  then have "distinct (map cs_Name (map snd m))"
    using assms unfolding status_ok_def gm_ok_def by (simp only:)
  then have "distinct (map cs_Name (sort_key cs_Name (map snd m)))"
    by (metis distinct_map distinct_sort set_sort)
  moreover have "sorted (map cs_Name (sort_key cs_Name (map snd m)))" by simp
  ultimately show ?thesis by (simp add: strict_sorted_iff)
qed


lemma sorted_table_set: "set (sort_key cs_Name (map snd m)) = snd ` set m"
  by simp

text \<open>The invariant of the aggregator, relating the cache to everything it has received.\<close>

definition cache_inv :: "bool \<Rightarrow> dash_event list \<Rightarrow> dashCache \<Rightarrow> bool" where
  "cache_inv hideLogs es c \<longleftrightarrow>
     dc_status c = latest hideLogs (statuses_of es) [] \<and>
     dc_logSlice c = (if hideLogs then [] else take logLength (rev (logs_of es))) \<and> dc_logCache c = dc_logSlice c \<and>
     dc_alertHistorySlice c = (if hideLogs then [] else take alertHistoryLength (rev (alerts_of es))) \<and>
     dc_alertHistoryCache c = dc_alertHistorySlice c"

lemma events_append [simp]:
  "logs_of (es @ es') = logs_of es @ logs_of es'" "alerts_of (es @ es') = alerts_of es @ alerts_of es'"
  "statuses_of (es @ es') = statuses_of es @ statuses_of es'"
  by (induction es rule: logs_of.induct; simp)+

lemma latest_append: "latest h (us @ [u]) m = gm_set (cs_Name u) (redact h u) (latest h us m)"
  by (simp add: latest_def)

lemma cache_inv_step:
  assumes "cache_inv h es c"
  shows "cache_inv h (es @ [e]) (snd (snd (serve_step h e (upd, c))))"
proof -
  have len: "0 < logLength" "0 < alertHistoryLength" by (simp_all add: logLength_def alertHistoryLength_def)
  show ?thesis
    using assms len
    by (cases e) (simp_all add: cache_inv_def serve_step_def appendLog_def appendAlertHistory_def updateStatus_def Let_def
        take_push latest_append)
qed

lemma cache_inv_run:
  "cache_inv h es0 c \<Longrightarrow> cache_inv h (es0 @ es) (snd (snd (serve_run h es (upd, c))))"
proof (induction es arbitrary: es0 upd c)
  case (Cons e es)
  obtain out upd' c' where st: "serve_step h e (upd, c) = (out, upd', c')" by (metis prod.collapse)
  have "cache_inv h (es0 @ [e]) c'"
    using cache_inv_step [OF Cons.prems, of e upd] st by simp
  from Cons.IH [OF this, of upd'] show ?case by (simp add: st split_def Let_def)
qed simp

lemma served_status_step:
  "dc_statusCache (snd (snd (serve_step h e (upd, c)))) =
     (case e of
        NewStatus u \<Rightarrow>
          let result = sort_key cs_Name (map snd (gm_set (cs_Name u) (redact h u) (dc_status c)))
          in if \<forall>x\<in>set result. json_ok x then Some result else dc_statusCache c
      | _ \<Rightarrow> dc_statusCache c)"
  by (cases e) (simp_all add: serve_step_def appendLog_def appendAlertHistory_def updateStatus_def Let_def)

lemma serve_run_append:
  "serve_run h (es @ [e]) st =
     (case serve_run h es st of (outs, st1) \<Rightarrow> case serve_step h e st1 of (out, st2) \<Rightarrow> (outs @ out, st2))"
  by (induction es arbitrary: st) (simp_all add: split_def Let_def)

text \<open>
  C31: The dashboard shows the present. After any sequence of events from the start, the log and
  the alert history are the last 256 entries received, newest first, and empty when logs are
  hidden. When the last event is a chain status and every status received can be encoded, the
  status document holds exactly the latest status of every chain heard of, once each, in strictly
  increasing order of the names, with endpoints in the error text redacted when logs are hidden.
\<close>

theorem dashboard_shows_latest:
  assumes "\<forall>u\<in>set (statuses_of es @ [u]). json_ok u"
  shows "let c = snd (snd (serve_run hideLogs (es @ [NewStatus u]) (False, newDashCache)));
             m = latest hideLogs (statuses_of es @ [u]) [] in
    getLogCache c = (if hideLogs then [] else take 256 (rev (logs_of es))) \<and>
    getAlertHistoryCache c = (if hideLogs then [] else take 256 (rev (alerts_of es))) \<and>
    (\<exists>doc. getStatusCache c = Some doc \<and> sorted_wrt (<) (map cs_Name doc) \<and>
      (\<forall>x. x \<in> set doc \<longleftrightarrow> gm_get m (cs_Name x) = Some x))"
proof -
  let ?es = "es @ [NewStatus u]"
  let ?c = "snd (snd (serve_run hideLogs ?es (False, newDashCache)))"
  let ?m = "latest hideLogs (statuses_of es @ [u]) []"
  have init: "cache_inv hideLogs [] newDashCache"
    by (simp add: cache_inv_def newDashCache_def latest_def)
  from cache_inv_run [OF init, of ?es False] have inv: "cache_inv hideLogs ?es ?c" by simp
  obtain outs upd c0 where r: "serve_run hideLogs es (False, newDashCache) = (outs, upd, c0)" by (metis prod.collapse)
  from cache_inv_run [OF init, of es False] r have inv0: "cache_inv hideLogs es c0" by simp
  have m: "?m = gm_set (cs_Name u) (redact hideLogs u) (dc_status c0)"
    using inv0 by (simp add: cache_inv_def latest_append)
  have ok: "status_ok ?m" by (rule status_ok_latest) (simp add: status_ok_def)
  have json: "\<forall>x\<in>snd ` set (latest hideLogs us m0). json_ok x"
    if "\<forall>u\<in>set us. json_ok u" "\<forall>x\<in>snd ` set m0. json_ok x" for us m0
    using that
  proof (induction us arbitrary: m0)
    case (Cons u us)
    have "\<forall>x\<in>snd ` set (gm_set (cs_Name u) (redact hideLogs u) m0). json_ok x"
      using Cons.prems by (auto dest!: gm_set_mem)
    with Cons.IH [OF _ this] Cons.prems(1) show ?case by (simp add: latest_def)
  qed (simp add: latest_def)
  have "\<forall>x\<in>snd ` set ?m. json_ok x"
    by (rule json [OF assms]) simp
  then have doc: "dc_statusCache ?c = Some (sort_key cs_Name (map snd ?m))"
    using served_status_step [of hideLogs "NewStatus u" upd c0] by (simp add: serve_run_append r m Let_def split_def)
  have mem: "x \<in> snd ` set ?m \<longleftrightarrow> gm_get ?m (cs_Name x) = Some x" for x
  proof
    assume "x \<in> snd ` set ?m"
    then obtain k where "(k, x) \<in> set ?m" by auto
    with ok show "gm_get ?m (cs_Name x) = Some x"
      by (auto simp: status_ok_def gm_ok_def gm_get_def intro: map_of_is_SomeI)
  next
    assume "gm_get ?m (cs_Name x) = Some x"
    then have "(cs_Name x, x) \<in> set ?m" by (simp add: gm_get_def map_of_SomeD)
    then show "x \<in> snd ` set ?m" by (rule rev_image_eqI) simp
  qed
  show ?thesis
    unfolding Let_def getStatusCache_def doc
    using inv sorted_table [OF ok] mem
    by (simp add: cache_inv_def getLogCache_def getAlertHistoryCache_def logLength_def alertHistoryLength_def)
qed

text \<open>
  One number that is not finite stops the whole dashboard. If the latest status of some chain
  cannot be encoded (a rate that was divided by zero), no later event that is not a new status of
  that very chain changes the status document: every other chain keeps showing what it showed.
\<close>

lemma not_finite_freezes_dashboard:
  assumes "\<not> json_ok u" "\<forall>v\<in>set (statuses_of es). cs_Name v \<noteq> cs_Name u"
  shows "getStatusCache (snd (snd (serve_run hideLogs (NewStatus u # es) (upd, c)))) = getStatusCache c"
proof -
  have "getStatusCache (snd (snd (serve_run hideLogs es (upd, c)))) = getStatusCache c"
    if "gm_get (dc_status c) (cs_Name u) = Some (redact hideLogs u)" "\<forall>v\<in>set (statuses_of es). cs_Name v \<noteq> cs_Name u"
    for es upd c
    using that
  proof (induction es arbitrary: upd c)
    case (Cons e es)
    obtain out upd' c' where st: "serve_step hideLogs e (upd, c) = (out, upd', c')" by (metis prod.collapse)
    have keep: "gm_get (dc_status c') (cs_Name u) = Some (redact hideLogs u)"
      using Cons.prems st by (cases e)
        (auto simp: serve_step_def appendLog_def appendAlertHistory_def updateStatus_def Let_def split: if_splits)
    have "dc_statusCache c' = dc_statusCache c"
    proof (cases e)
      case (NewStatus v)
      have "gm_get (gm_set (cs_Name v) (redact hideLogs v) (dc_status c)) (cs_Name u) = Some (redact hideLogs u)"
        using Cons.prems NewStatus by auto
      then have "redact hideLogs u \<in> snd ` set (gm_set (cs_Name v) (redact hideLogs v) (dc_status c))"
        by (force simp: gm_get_def dest: map_of_SomeD)
      with assms(1) have "\<not> (\<forall>x\<in>set (sort_key cs_Name (map snd (gm_set (cs_Name v) (redact hideLogs v) (dc_status c)))). json_ok x)"
        unfolding sorted_table_set by force
      then show ?thesis
        using served_status_step [of hideLogs "NewStatus v" upd c] st [unfolded NewStatus] by (auto simp: Let_def)
    qed (use served_status_step [of hideLogs e upd c] st in simp_all)
    moreover have "\<forall>v\<in>set (statuses_of es). cs_Name v \<noteq> cs_Name u"
      using Cons.prems(2) by (cases e) simp_all
    ultimately show ?case
      using Cons.IH [OF keep, of upd'] by (simp add: st split_def Let_def getStatusCache_def)
  qed simp
  note later = this
  obtain out upd' c' where st: "serve_step hideLogs (NewStatus u) (upd, c) = (out, upd', c')" by (metis prod.collapse)
  have k: "gm_get (dc_status c') (cs_Name u) = Some (redact hideLogs u)"
    using st by (auto simp: serve_step_def updateStatus_def Let_def split: if_splits)
  have "gm_get (gm_set (cs_Name u) (redact hideLogs u) (dc_status c)) (cs_Name u) = Some (redact hideLogs u)" by simp
  then have "redact hideLogs u \<in> snd ` set (gm_set (cs_Name u) (redact hideLogs u) (dc_status c))"
    by (force simp: gm_get_def dest: map_of_SomeD)
  with assms(1) have "\<not> (\<forall>x\<in>set (sort_key cs_Name (map snd (gm_set (cs_Name u) (redact hideLogs u) (dc_status c)))). json_ok x)"
    unfolding sorted_table_set by force
  then have "dc_statusCache c' = dc_statusCache c"
    using served_status_step [of hideLogs "NewStatus u" upd c] by (auto simp: st Let_def)
  with later [OF k assms(2), of upd'] show ?thesis by (simp add: st split_def Let_def getStatusCache_def)
qed


section \<open>Examples\<close>

definition sample_status :: "string \<Rightarrow> f64 \<Rightarrow> ChainStatus" where
  "sample_status name apr = the (toDashStatus noon (sample_chain\<lparr>cc_name := name, cc_baseAPR := apr\<rparr>) 0
     ''dial tcp://10.0.0.1:26657 refused'' 0 0)"

lemma sample_status_simps [simp]:
  "cs_Name (sample_status n a) = n" "json_ok (sample_status n (Fin x))" "\<not> json_ok (sample_status n NaN)"
  by (simp_all add: sample_status_def toDashStatus_def sample_chain_def sample_valinfo_def json_ok_def finite_f64_def)

text \<open>An endpoint after a space is hidden; one that starts the text is not.\<close>

lemma redaction_examples:
  "ReplaceAllString ''dial tcp://10.0.0.1:26657 refused'' ''-redacted-'' = ''dial-redacted-''"
  "\<not> MatchString ''tcp://10.0.0.1:26657''"
  "ReplaceAllString ([CHR 0xC3, CHR 0xA9] @ ''http://a.b'') ''-'' = ''-''"
  by code_simp+

theorem dashboard_shows_latest_witness:
  "\<exists>doc. getStatusCache (snd (snd (serve_run True [NewStatus (sample_status ''b'' (Fin 1)), NewStatus (sample_status ''a'' (Fin 1))]
       (False, newDashCache)))) = Some doc \<and> sorted_wrt (<) (map cs_Name doc)"
proof -
  have "\<forall>u\<in>set (statuses_of [NewStatus (sample_status ''b'' (Fin 1))] @ [sample_status ''a'' (Fin 1)]). json_ok u"
    by simp
  from dashboard_shows_latest [OF this, of True] show ?thesis
    unfolding Let_def append.simps by blast
qed

lemma not_finite_freezes_dashboard_witness:
  "getStatusCache (snd (snd (serve_run False [NewStatus (sample_status ''a'' NaN), NewStatus (sample_status ''b'' (Fin 1))]
     (False, newDashCache)))) = None"
proof -
  have "\<not> json_ok (sample_status ''a'' NaN)"
    "\<forall>v\<in>set (statuses_of [NewStatus (sample_status ''b'' (Fin 1))]). cs_Name v \<noteq> cs_Name (sample_status ''a'' NaN)"
    by simp_all
  from not_finite_freezes_dashboard [OF this, of False False newDashCache] show ?thesis
    by (simp add: newDashCache_def getStatusCache_def)
qed

end
