(* ===== verification/Base64.thy ===== *)
theory Base64
  imports GoStrings
begin

text \<open>
  \<^verbatim>\<open>base64.StdEncoding\<close> as the dashboard's Basic Auth and the encrypted configuration use it. The
  decoder skips line breaks, requires padding and ignores the unused bits of the last character;
  it inverts the encoder.
\<close>

definition b64_char :: "nat \<Rightarrow> char" where
  "b64_char n =
     char_of (if n < 26 then n + 65 else if n < 52 then n + 71 else if n < 62 then n - 4
              else if n = 62 then 43 else 47)"

definition b64_val :: "char \<Rightarrow> nat option" where
  "b64_val c =
     (let n = of_char c :: nat
      in if 65 \<le> n \<and> n \<le> 90 then Some (n - 65)
         else if 97 \<le> n \<and> n \<le> 122 then Some (n - 71)
         else if 48 \<le> n \<and> n \<le> 57 then Some (n + 4)
         else if n = 43 then Some 62 else if n = 47 then Some 63 else None)"

fun b64_encode :: "string \<Rightarrow> string" where
  "b64_encode [] = []"
| "b64_encode [a] = (let x = of_char a in [b64_char (x div 4), b64_char (x mod 4 * 16), CHR ''='', CHR ''=''])"
| "b64_encode [a, b] =
     (let x = of_char a; y = of_char b
      in [b64_char (x div 4), b64_char (x mod 4 * 16 + y div 16), b64_char (y mod 16 * 4), CHR ''=''])"
| "b64_encode (a # b # c # rest) =
     (let x = of_char a; y = of_char b; z = of_char c
      in [b64_char (x div 4), b64_char (x mod 4 * 16 + y div 16), b64_char (y mod 16 * 4 + z div 64),
          b64_char (z mod 64)] @ b64_encode rest)"

fun b64_quads :: "string \<Rightarrow> string option" where
  "b64_quads [] = Some []"
| "b64_quads (a # b # c # d # rest) =
     (if rest = [] \<and> c = CHR ''='' \<and> d = CHR ''='' then
        do { x \<leftarrow> b64_val a; y \<leftarrow> b64_val b; Some [char_of (x * 4 + y div 16)] }
      else if rest = [] \<and> d = CHR ''='' then
        do { x \<leftarrow> b64_val a; y \<leftarrow> b64_val b; z \<leftarrow> b64_val c;
             Some [char_of (x * 4 + y div 16), char_of (y mod 16 * 16 + z div 4)] }
      else
        do { x \<leftarrow> b64_val a; y \<leftarrow> b64_val b; z \<leftarrow> b64_val c; w \<leftarrow> b64_val d;
             r \<leftarrow> b64_quads rest;
             Some ([char_of (x * 4 + y div 16), char_of (y mod 16 * 16 + z div 4), char_of (z mod 4 * 64 + w)] @ r) })"
| "b64_quads _ = None"

definition b64_decode :: "string \<Rightarrow> string option" where
  "b64_decode s = b64_quads (filter (\<lambda>ch. ch \<notin> {CHR 0x0A, CHR 0x0D}) s)"

definition DecodedLen :: "nat \<Rightarrow> nat" where
  "DecodedLen n = n div 4 * 3"

section \<open>The decoder inverts the encoder\<close>

lemma of_char_less [simp]: "of_char c < (256 :: nat)"
  by (cases c) (simp add: of_char_def)

lemma b64_val_char [simp]: "n < 64 \<Longrightarrow> b64_val (b64_char n) = Some n"
  by (auto simp: b64_val_def b64_char_def Let_def)

lemma b64_char_neq [simp]:
  "n < 64 \<Longrightarrow> b64_char n \<noteq> CHR ''=''" "n < 64 \<Longrightarrow> b64_char n \<noteq> CHR 0x0A" "n < 64 \<Longrightarrow> b64_char n \<noteq> CHR 0x0D"
proof -
  assume n: "n < 64"
  have "b64_val (CHR ''='') = None" "b64_val (CHR 0x0A) = None" "b64_val (CHR 0x0D) = None"
    by (simp_all add: b64_val_def)
  then show "b64_char n \<noteq> CHR ''=''" "b64_char n \<noteq> CHR 0x0A" "b64_char n \<noteq> CHR 0x0D"
    using b64_val_char [OF n] by force+
qed

lemma of_char_high [simp]:
  "of_char a div 4 < (64 :: nat)" "of_char a div 16 < (16 :: nat)" "of_char a div 64 < (4 :: nat)"
  by (simp_all add: less_mult_imp_div_less)

lemma sextets_of_char [simp]:
  "of_char a mod 4 * 16 + of_char b div 16 < (64 :: nat)" "of_char a mod 16 * 4 + of_char b div 64 < (64 :: nat)"
  "of_char a mod 64 < (64 :: nat)" "of_char a mod 4 * 16 < (64 :: nat)" "of_char a mod 16 * 4 < (64 :: nat)"
proof -
  have "of_char a mod 4 < (4 :: nat)" "of_char b div 16 < (16 :: nat)" "of_char a mod 16 < (16 :: nat)"
      "of_char b div 64 < (4 :: nat)" by simp_all
  then show "of_char a mod 4 * 16 + of_char b div 16 < (64 :: nat)" "of_char a mod 16 * 4 + of_char b div 64 < (64 :: nat)"
      "of_char a mod 64 < (64 :: nat)" "of_char a mod 4 * 16 < (64 :: nat)" "of_char a mod 16 * 4 < (64 :: nat)"
    by (linarith, linarith, simp, linarith, linarith)
qed

lemma octets_of_char [simp]:
  "of_char b div 16 div 16 = (0 :: nat)" "of_char b div 64 div 4 = (0 :: nat)"
  "of_char b div 16 mod 16 = (of_char b div 16 :: nat)" "of_char b div 64 mod 4 = (of_char b div 64 :: nat)"
  by simp_all

lemma b64_quads_encode [simp]: "b64_quads (b64_encode xs) = Some xs"
proof (induction xs rule: b64_encode.induct)
  case (4 a b c rest)
  then show ?case by (simp add: Let_def)
qed (simp_all add: Let_def)

lemma b64_encode_chars: "filter (\<lambda>ch. ch \<notin> {CHR 0x0A, CHR 0x0D}) (b64_encode xs) = b64_encode xs"
  by (induction xs rule: b64_encode.induct) (simp_all add: Let_def)

lemma b64_decode_encode [simp]: "b64_decode (b64_encode xs) = Some xs"
  unfolding b64_decode_def b64_encode_chars by simp

lemma length_b64_encode: "length (b64_encode xs) = (length xs + 2) div 3 * 4"
proof (induction xs rule: b64_encode.induct)
  case (4 a b c rest)
  have "(length (a # b # c # rest) + 2) div 3 = Suc ((length rest + 2) div 3)" by simp
  then show ?case using 4 by (simp add: Let_def)
qed (simp_all add: Let_def)

lemma DecodedLen_encode: "length xs \<le> DecodedLen (length (b64_encode xs))"
proof -
  have "length xs \<le> (length xs + 2) div 3 * 3" by linarith
  then show ?thesis by (simp add: DecodedLen_def length_b64_encode)
qed

end
