(* ===== verification/DashboardServer.thy ===== *)
theory DashboardServer
  imports Dashboard Base64
begin

text \<open>
  The routes of the dashboard and the Basic Auth in front of them (\<^verbatim>\<open>td2/dashboard/server.go\<close>),
  with the maintenance windows of \<^verbatim>\<open>td2/silence.go\<close> behind \<^verbatim>\<open>/silence\<close> and \<^verbatim>\<open>/unsilence\<close>.

  The authentication cache is an optimisation; the locale \<open>caching_guard\<close> states what such a
  cache must keep, and that it then decides every request of a run as the plain check does.
\<close>

section \<open>Basic Auth\<close>

text \<open>\<^verbatim>\<open>request.BasicAuth()\<close> looks at the header only.\<close>

definition basicAuth :: "string \<Rightarrow> (string \<times> string) option" where
  "basicAuth header =
     (if ToLower (take 6 header) = ''basic '' then
        do { c \<leftarrow> b64_decode (drop 6 header);
             (if CHR '':'' \<in> set c
              then Some (takeWhile (\<lambda>ch. ch \<noteq> CHR '':'') c, tl (dropWhile (\<lambda>ch. ch \<noteq> CHR '':'') c)) else None) }
      else None)"

record BasicAuthConfig =
  ba_Enabled :: bool
  ba_Username :: string
  ba_PasswordHash :: string

text \<open>
  The handler of \<^verbatim>\<open>withBasicAuth\<close> up to the call of the next one: whether the request passes, and
  the verified header it remembers. \<open>bcrypt\<close> tells whether a password belongs to a hash.
\<close>

definition withBasicAuth ::
  "(string \<Rightarrow> string \<Rightarrow> bool) \<Rightarrow> BasicAuthConfig \<Rightarrow> string \<Rightarrow> string option \<Rightarrow> bool \<times> string option" where
  "withBasicAuth bcrypt cfg authHeader verifiedHeader =
     (if \<not> ba_Enabled cfg then (True, verifiedHeader)
      else if authHeader \<noteq> [] \<and> verifiedHeader = Some authHeader then (True, verifiedHeader)
      else case basicAuth authHeader of
             None \<Rightarrow> (False, verifiedHeader)
           | Some (user, pass) \<Rightarrow>
               if user \<noteq> ba_Username cfg \<or> \<not> bcrypt (ba_PasswordHash cfg) pass then (False, verifiedHeader)
               else (True, Some authHeader))"

text \<open>The check without a cache.\<close>

definition credentials_ok :: "(string \<Rightarrow> string \<Rightarrow> bool) \<Rightarrow> BasicAuthConfig \<Rightarrow> string \<Rightarrow> bool" where
  "credentials_ok bcrypt cfg authHeader \<longleftrightarrow>
     \<not> ba_Enabled cfg \<or>
     (case basicAuth authHeader of
        None \<Rightarrow> False
      | Some (user, pass) \<Rightarrow> user = ba_Username cfg \<and> bcrypt (ba_PasswordHash cfg) pass)"

locale caching_guard =
  fixes guard :: "'h \<Rightarrow> 'c \<Rightarrow> bool \<times> 'c"
    and valid :: "'h \<Rightarrow> bool"
    and sound :: "'c \<Rightarrow> bool"
  assumes decides: "sound c \<Longrightarrow> fst (guard h c) = valid h"
    and keeps: "sound c \<Longrightarrow> sound (snd (guard h c))"
begin

lemma run_decides: "sound c \<Longrightarrow> fst (fold (\<lambda>h (out, c). (out @ [fst (guard h c)], snd (guard h c))) hs (out, c)) = out @ map valid hs"
  by (induction hs arbitrary: out c) (simp_all add: decides keeps)

end

definition sound_header :: "(string \<Rightarrow> string \<Rightarrow> bool) \<Rightarrow> BasicAuthConfig \<Rightarrow> string option \<Rightarrow> bool" where
  "sound_header bcrypt cfg v \<longleftrightarrow> (case v of None \<Rightarrow> True | Some h \<Rightarrow> credentials_ok bcrypt cfg h)"

interpretation auth: caching_guard "withBasicAuth bcrypt cfg" "credentials_ok bcrypt cfg" "sound_header bcrypt cfg"
  by unfold_locales
    (auto simp: withBasicAuth_def credentials_ok_def sound_header_def split: option.splits prod.splits if_splits)

section \<open>Routes\<close>

record request =
  rq_Method :: string
  rq_Path :: string
  rq_Query :: "string \<Rightarrow> string"
  rq_Authorization :: string

datatype response_body =
    Empty | WebSocket | LogsEnabled bool | LogsDoc "LogMessage list" | HistoryDoc "AlertHistoryEntry list"
  | StateDoc "ChainStatus list option" | ErrorDoc string | SilencedDoc string int | OkDoc | StaticFile string

definition silence_route :: "gotime \<Rightarrow> request \<Rightarrow> sys \<Rightarrow> (int \<times> response_body) \<times> sys" where
  "silence_route now request s =
     (if rq_Method request \<noteq> ''POST'' then ((405, Empty), s)
      else
        let chain = rq_Query request ''chain''; (minutes, err) = ParseInt (rq_Query request ''minutes'')
        in if chain = [] \<or> err \<noteq> None
           then ((400, ErrorDoc ''chain and minutes (integer) are required''), s)
           else case silenceChain now chain minutes s of
                  Inl e \<Rightarrow> ((400, ErrorDoc e), s)
                | Inr (until, s') \<Rightarrow> ((200, SilencedDoc chain (Unix until)), s'))"

definition unsilence_route :: "request \<Rightarrow> sys \<Rightarrow> (int \<times> response_body) \<times> sys" where
  "unsilence_route request s =
     (if rq_Method request \<noteq> ''POST'' then ((405, Empty), s)
      else
        let chain = rq_Query request ''chain''
        in if chain = [] then ((400, ErrorDoc ''chain is required''), s)
           else case unsilenceChain chain s of
                  Inl e \<Rightarrow> ((400, ErrorDoc e), s)
                | Inr s' \<Rightarrow> ((200, OkDoc), s'))"

text \<open>The handler \<^verbatim>\<open>newMux\<close> builds: the answer and the program after it.\<close>

definition newMux :: "gotime \<Rightarrow> bool \<Rightarrow> dashCache \<Rightarrow> request \<Rightarrow> sys \<Rightarrow> (int \<times> response_body) \<times> sys" where
  "newMux now hideLogs dc request s =
     (if rq_Path request = ''/ws'' then ((101, WebSocket), s)
      else if rq_Path request = ''/logsenabled'' then ((200, LogsEnabled (\<not> hideLogs)), s)
      else if rq_Path request = ''/logs'' then ((200, LogsDoc (getLogCache dc)), s)
      else if rq_Path request = ''/alert_history'' then ((200, HistoryDoc (getAlertHistoryCache dc)), s)
      else if rq_Path request = ''/state'' then ((200, StateDoc (getStatusCache dc)), s)
      else if rq_Path request = ''/silence'' then silence_route now request s
      else if rq_Path request = ''/unsilence'' then unsilence_route request s
      else ((200, StaticFile (rq_Path request)), s))"

text \<open>The server: the guard, then the routes.\<close>

definition serve_request ::
  "(string \<Rightarrow> string \<Rightarrow> bool) \<Rightarrow> BasicAuthConfig \<Rightarrow> bool \<Rightarrow> dashCache \<Rightarrow> gotime \<times> request \<Rightarrow>
   string option \<times> sys \<Rightarrow> (int \<times> response_body) \<times> string option \<times> sys" where
  "serve_request bcrypt cfg hideLogs dc tr st =
     (case (tr, st) of ((now, request), (verified, s)) \<Rightarrow>
        case withBasicAuth bcrypt cfg (rq_Authorization request) verified of
          (False, v) \<Rightarrow> ((401, Empty), v, s)
        | (True, v) \<Rightarrow> (case newMux now hideLogs dc request s of (resp, s') \<Rightarrow> (resp, v, s')))"

fun serve_requests ::
  "(string \<Rightarrow> string \<Rightarrow> bool) \<Rightarrow> BasicAuthConfig \<Rightarrow> bool \<Rightarrow> dashCache \<Rightarrow> (gotime \<times> request) list \<Rightarrow>
   string option \<times> sys \<Rightarrow> (int \<times> response_body) list \<times> string option \<times> sys" where
  "serve_requests bcrypt cfg hideLogs dc [] st = ([], st)"
| "serve_requests bcrypt cfg hideLogs dc (tr # trs) st =
     (let (resp, st') = serve_request bcrypt cfg hideLogs dc tr st;
          (resps, st'') = serve_requests bcrypt cfg hideLogs dc trs st'
      in (resp # resps, st''))"

section \<open>What a run of requests can do\<close>

text \<open>The reference: every request is checked on its own, nothing is remembered.\<close>

fun plain_requests ::
  "(string \<Rightarrow> string \<Rightarrow> bool) \<Rightarrow> BasicAuthConfig \<Rightarrow> bool \<Rightarrow> dashCache \<Rightarrow> (gotime \<times> request) list \<Rightarrow>
   sys \<Rightarrow> (int \<times> response_body) list \<times> sys" where
  "plain_requests bcrypt cfg hideLogs dc [] s = ([], s)"
| "plain_requests bcrypt cfg hideLogs dc ((now, request) # trs) s =
     (let (resp, s') = (if credentials_ok bcrypt cfg (rq_Authorization request)
                        then newMux now hideLogs dc request s else ((401, Empty), s));
          (resps, s'') = plain_requests bcrypt cfg hideLogs dc trs s'
      in (resp # resps, s''))"

lemma serve_requests_plain:
  "sound_header bcrypt cfg v \<Longrightarrow>
   (let (resps, v', s') = serve_requests bcrypt cfg hideLogs dc trs (v, s) in (resps, s')) =
     plain_requests bcrypt cfg hideLogs dc trs s"
proof (induction trs arbitrary: v s)
  case (Cons tr trs)
  obtain now request where tr: "tr = (now, request)" by force
  obtain b v1 where g: "withBasicAuth bcrypt cfg (rq_Authorization request) v = (b, v1)" by (metis prod.collapse)
  have b: "b = credentials_ok bcrypt cfg (rq_Authorization request)"
    using auth.decides [OF Cons.prems, of "rq_Authorization request"] g by simp
  have v1: "sound_header bcrypt cfg v1"
    using auth.keeps [OF Cons.prems, of "rq_Authorization request"] g by simp
  obtain resp s1 where m: "newMux now hideLogs dc request s = (resp, s1)" by (metis prod.collapse)
  show ?case
    by (cases b)
      (simp_all add: tr serve_request_def g m Let_def b [symmetric] split_def
         Cons.IH [OF v1, symmetric, unfolded Let_def split_def])
qed simp

text \<open>
  C29: Remembering a verified header is invisible. Over any sequence of requests the server answers
  each one, and changes the program, exactly as it would if it checked the credentials of every
  request afresh; in particular a request gets through if and only if its own header carries the
  configured user name and a password that belongs to the hash, or authentication is off.
\<close>

theorem auth_cache_invisible:
  "(let (resps, v', s') = serve_requests bcrypt cfg hideLogs dc trs (None, s) in (resps, s')) =
     plain_requests bcrypt cfg hideLogs dc trs s"
  by (rule serve_requests_plain) (simp add: sound_header_def)

lemma newMux_quiet:
  "rq_Method request \<noteq> ''POST'' \<Longrightarrow> snd (newMux now hideLogs dc request s) = s"
  by (simp add: newMux_def silence_route_def unsilence_route_def)

lemma newMux_frame:
  "snd (newMux now hideLogs dc request s) = s \<or>
   (\<exists>k cc u. chain_of s k = Some cc \<and> u \<le> Unix (now + 24 * Hour) \<and>
      snd (newMux now hideLogs dc request s) = put_chain k (cc\<lparr>cc_silencedUntil := u\<rparr>) s) \<or>
   (\<exists>k cc. chain_of s k = Some cc \<and>
      snd (newMux now hideLogs dc request s) = put_chain k (cc\<lparr>cc_silencedUntil := 0\<rparr>) s)"
proof -
  have sil: "snd (silence_route now request s) = s \<or>
     (\<exists>k cc u. chain_of s k = Some cc \<and> u \<le> Unix (now + 24 * Hour) \<and>
        snd (silence_route now request s) = put_chain k (cc\<lparr>cc_silencedUntil := u\<rparr>) s)"
  proof (cases "silenceChain now (rq_Query request ''chain'') (fst (ParseInt (rq_Query request ''minutes''))) s")
    case (Inr p)
    obtain until s' where p: "p = (until, s')" by force
    let ?m = "fst (ParseInt (rq_Query request ''minutes''))"
    from Inr p obtain cc where m: "1 \<le> ?m" "?m \<le> 1440" "chain_of s (rq_Query request ''chain'') = Some cc"
        "until = now + dur_mul ?m Minute" "s' = put_chain (rq_Query request ''chain'') (cc\<lparr>cc_silencedUntil := Unix until\<rparr>) s"
      by (auto simp: silenceChain_def maxSilenceMinutes_def Let_def split: if_splits option.splits)
    have "dur_mul ?m Minute = ?m * Minute" using m(1,2) by (intro minutes_exact) simp
    then have "until \<le> now + 24 * Hour" using m by (simp add: Minute_def Hour_def)
    then have "Unix until \<le> Unix (now + 24 * Hour)" by (rule Unix_mono)
    moreover have "snd (silence_route now request s) \<in> {s, s'}"
      using Inr p by (auto simp: silence_route_def Let_def split_def)
    ultimately show ?thesis using m(3,5) by blast
  next
    case (Inl e)
    then have "snd (silence_route now request s) = s" by (simp add: silence_route_def Let_def split_def)
    then show ?thesis ..
  qed
  have unsil: "snd (unsilence_route request s) = s \<or>
     (\<exists>k cc. chain_of s k = Some cc \<and> snd (unsilence_route request s) = put_chain k (cc\<lparr>cc_silencedUntil := 0\<rparr>) s)"
    by (auto simp: unsilence_route_def unsilenceChain_def Let_def split: option.split)
  show ?thesis
    using sil unsil by (auto simp: newMux_def)
qed

text \<open>
  C30: Without credentials nobody gags the monitor. With authentication on, a sequence of requests of
  which none carries valid credentials is answered with 401 throughout and leaves the program as it
  was. A request that is let through changes at most the maintenance window of one configured
  chain, which then ends no later than 24 hours from now, and a request that is not a POST changes
  nothing.
\<close>

theorem unauthenticated_requests_refused:
  assumes "\<forall>(now, request)\<in>set trs. \<not> credentials_ok bcrypt cfg (rq_Authorization request)"
  shows "serve_requests bcrypt cfg hideLogs dc trs (None, s) = (map (\<lambda>_. (401, Empty)) trs, None, s) \<and>
    (snd (newMux now hideLogs dc request s) = s \<or>
     (\<exists>k cc u. chain_of s k = Some cc \<and> (u = 0 \<or> u \<le> Unix (now + 24 * Hour)) \<and> rq_Method request = ''POST'' \<and>
        snd (newMux now hideLogs dc request s) = put_chain k (cc\<lparr>cc_silencedUntil := u\<rparr>) s))"
proof
  show "serve_requests bcrypt cfg hideLogs dc trs (None, s) = (map (\<lambda>_. (401, Empty)) trs, None, s)"
    using assms
  proof (induction trs)
    case (Cons tr trs)
    obtain t rq where tr: "tr = (t, rq)" by force
    have "\<not> credentials_ok bcrypt cfg (rq_Authorization rq)" using Cons.prems by (simp add: tr)
    then have "withBasicAuth bcrypt cfg (rq_Authorization rq) None = (False, None)"
      by (auto simp: withBasicAuth_def credentials_ok_def split: option.splits)
    with Cons show ?case by (simp add: tr serve_request_def)
  qed simp
  show "snd (newMux now hideLogs dc request s) = s \<or>
     (\<exists>k cc u. chain_of s k = Some cc \<and> (u = 0 \<or> u \<le> Unix (now + 24 * Hour)) \<and> rq_Method request = ''POST'' \<and>
        snd (newMux now hideLogs dc request s) = put_chain k (cc\<lparr>cc_silencedUntil := u\<rparr>) s)"
    using newMux_frame [of now hideLogs dc request s] newMux_quiet [of request now hideLogs dc s] by blast
qed

section \<open>Examples\<close>

text \<open>The header a browser sends for user and password \<open>ops\<close>.\<close>

lemma basicAuth_example: "basicAuth ''Basic b3BzOm9wcw=='' = Some (''ops'', ''ops'')"
  by code_simp

theorem unauthenticated_requests_refused_witness:
  "fst (serve_requests (\<lambda>h p. h = p) \<lparr>ba_Enabled = True, ba_Username = ''ops'', ba_PasswordHash = ''ops''\<rparr> True newDashCache
     [(noon, \<lparr>rq_Method = ''POST'', rq_Path = ''/unsilence'', rq_Query = (\<lambda>_. ''net''), rq_Authorization = []\<rparr>)]
     (None, sample_sys sample_chain no_alarms)) = [(401, Empty)]"
proof -
  let ?cfg = "\<lparr>ba_Enabled = True, ba_Username = ''ops'', ba_PasswordHash = ''ops''\<rparr>"
  let ?rq = "\<lparr>rq_Method = ''POST'', rq_Path = ''/unsilence'', rq_Query = (\<lambda>_. ''net''), rq_Authorization = []\<rparr>"
  have "basicAuth [] = None" by code_simp
  then have "\<forall>(now, request)\<in>set [(noon, ?rq)]. \<not> credentials_ok (\<lambda>h p. h = p) ?cfg (rq_Authorization request)"
    by (simp add: credentials_ok_def)
  from unauthenticated_requests_refused [OF this, of True newDashCache "sample_sys sample_chain no_alarms" noon ?rq]
  show ?thesis by simp
qed

end
