(* ===== verification/FloatText.thy ===== *)
theory FloatText
  imports Float64 GoTime
begin

text \<open>
  Floats as text: the verbs \<^verbatim>\<open>%.Nf\<close> of \<^verbatim>\<open>fmt\<close>, the shortest form of \<^verbatim>\<open>strconv.FormatFloat(v, 'f', -1, 64)\<close>,
  and \<^verbatim>\<open>HumanSI\<close> of \<^verbatim>\<open>td2/utils/formatters.go\<close>. A negative zero is not told apart from zero.
\<close>

section \<open>Fixed precision\<close>

definition put_point :: "nat \<Rightarrow> string \<Rightarrow> string" where
  "put_point places t =
     (if places = 0 then t else take (length t - places) t @ ''.'' @ drop (length t - places) t)"

definition fmt_fixed :: "nat \<Rightarrow> f64 \<Rightarrow> string" where
  "fmt_fixed p f =
     (case f of
        NaN \<Rightarrow> ''NaN''
      | Inf neg \<Rightarrow> (if neg then ''-Inf'' else ''+Inf'')
      | Fin x \<Rightarrow> (if x < 0 then ''-'' else []) @ put_point p (pad0 (p + 1) (rhe (\<bar>x\<bar> * 10 ^ p))))"

section \<open>Shortest form\<close>

text \<open>The exponent of the leading decimal digit of a positive rational.\<close>

definition flog10 :: "rat \<Rightarrow> int" where
  "flog10 a = (let (p, q) = quotient_of a; e = int (length (itoa p)) - int (length (itoa q))
               in if 10 powi e \<le> a then e else e - 1)"

text \<open>
  The decimal with the fewest digits that reads back as the number, and among those of that length
  the one nearest to it (the even one of two), as digits and exponent. What reading back means is a
  parameter. Seventeen digits are always enough for the formats used here.
\<close>

definition decimal_of_length :: "(rat \<Rightarrow> rat) \<Rightarrow> rat \<Rightarrow> nat \<Rightarrow> (int \<times> int) option" where
  "decimal_of_length rd x n =
     (let k = flog10 x - int n + 1; s = 10 powi k; lo = \<lfloor>x / s\<rfloor>;
          down = x - of_int lo * s; up = of_int (lo + 1) * s - x;
          back = (\<lambda>c. rd (of_int c * s) = x)
      in if back lo \<and> (\<not> back (lo + 1) \<or> down < up \<or> down = up \<and> even lo) then Some (lo, k)
         else if back (lo + 1) then Some (if lo + 1 = 10 ^ n then (10 ^ (n - 1), k + 1) else (lo + 1, k))
         else None)"

definition shortest_decimal :: "(rat \<Rightarrow> rat) \<Rightarrow> rat \<Rightarrow> int \<times> int" where
  "shortest_decimal rd x =
     (case List.find (\<lambda>n. decimal_of_length rd x n \<noteq> None) [1..<17] of
        Some n \<Rightarrow> the (decimal_of_length rd x n)
      | None \<Rightarrow> (let k = flog10 x - 16 in (rhe (x / 10 powi k), k)))"

definition plain_decimal :: "int \<times> int \<Rightarrow> string" where
  "plain_decimal ck =
     (case ck of (c, k) \<Rightarrow> if 0 \<le> k then itoa (c * 10 ^ nat k) else put_point (nat (- k)) (pad0 (nat (- k) + 1) c))"

definition FormatFloat :: "f64 \<Rightarrow> string" where
  "FormatFloat f =
     (case f of
        NaN \<Rightarrow> ''NaN''
      | Inf neg \<Rightarrow> (if neg then ''-Inf'' else ''+Inf'')
      | Fin x \<Rightarrow> if x = 0 then ''0''
                 else (if x < 0 then ''-'' else []) @ plain_decimal (shortest_decimal rnd \<bar>x\<bar>))"

definition HumanSI :: "f64 \<Rightarrow> string" where
  "HumanSI v =
     (if f64_le (Fin 1000000000) (f64_abs v) then FormatFloat (f64_div v (Fin 1000000000)) @ ''B''
      else if f64_le (Fin 1000000) (f64_abs v) then FormatFloat (f64_div v (Fin 1000000)) @ ''M''
      else if f64_le (Fin 1000) (f64_abs v) then FormatFloat (f64_div v (Fin 1000)) @ ''K''
      else FormatFloat v)"

end
