(* ===== verification/Prices.thy ===== *)
theory Prices
  imports ChainRegistry FloatText
begin

text \<open>
  Fiat prices (\<^verbatim>\<open>td2/utils/price-conversion.go\<close> and \<^verbatim>\<open>td2/utils/price-conversion-coingecko.go\<close>):
  the two price clients behind the interface \<^verbatim>\<open>PriceConverter\<close>, both on top of the in-memory
  cache. The service is a function from requests to what came back, with the JSON body decoded.

  The locale \<open>price_converter\<close> states what the two clients have in common; what follows for a run
  of calls is proved there.
\<close>

section \<open>Requests and answers\<close>

record http_get =
  hg_URL :: string
  hg_Header :: "(string \<times> string) list"
  hg_Query :: "(string \<times> string) list"

record CMCQuote =
  cq_Price :: f64
  cq_LastUpdated :: string

record CMCData =
  cm_ID :: int
  cm_Name :: string
  cm_Symbol :: string
  cm_Slug :: string
  cm_Quote :: "(string, CMCQuote) gomap"

record CMCResponse =
  cr_ErrorCode :: int
  cr_ErrorMessage :: string
  cr_Data :: "(string, CMCData) gomap"

text \<open>\<^verbatim>\<open>time.Parse\<close> with the layout \<^verbatim>\<open>2006-01-02T15:04:05.000Z\<close>; the hour may have one digit.\<close>

definition days_from_civil :: "int \<Rightarrow> int \<Rightarrow> int \<Rightarrow> int" where
  "days_from_civil y0 m d =
     (let y = (if m \<le> 2 then y0 - 1 else y0); era = y div 400; yoe = y mod 400;
          doy = (153 * (if 2 < m then m - 3 else m + 9) + 2) div 5 + d - 1;
          doe = yoe * 365 + yoe div 4 - yoe div 100 + doy
      in era * 146097 + doe - 719468)"

definition days_in_month :: "int \<Rightarrow> int \<Rightarrow> int" where
  "days_in_month y m =
     (if m = 2 then (if y mod 4 = 0 \<and> (y mod 100 \<noteq> 0 \<or> y mod 400 = 0) then 29 else 28)
      else if m \<in> {4, 6, 9, 11} then 30 else 31)"

fun take_digits :: "nat \<Rightarrow> int \<Rightarrow> string \<Rightarrow> (int \<times> string) option" where
  "take_digits 0 n s = Some (n, s)"
| "take_digits (Suc w) n (c # s) = do { d \<leftarrow> digit_val c; take_digits w (10 * n + int d) s }"
| "take_digits (Suc w) n [] = None"

definition expect_char :: "char set \<Rightarrow> string \<Rightarrow> string option" where
  "expect_char cs s = (case s of [] \<Rightarrow> None | c # rest \<Rightarrow> if c \<in> cs then Some rest else None)"

definition parse_millis :: "string \<Rightarrow> gotime option" where
  "parse_millis s =
     do { (y, s) \<leftarrow> take_digits 4 0 s; s \<leftarrow> expect_char {CHR ''-''} s;
          (m, s) \<leftarrow> take_digits 2 0 s; s \<leftarrow> expect_char {CHR ''-''} s;
          (d, s) \<leftarrow> take_digits 2 0 s; s \<leftarrow> expect_char {CHR ''T''} s;
          (h, s) \<leftarrow> (case take_digits 2 0 s of Some r \<Rightarrow> Some r | None \<Rightarrow> take_digits 1 0 s);
          s \<leftarrow> expect_char {CHR '':''} s;
          (mi, s) \<leftarrow> take_digits 2 0 s; s \<leftarrow> expect_char {CHR '':''} s;
          (se, s) \<leftarrow> take_digits 2 0 s; s \<leftarrow> expect_char {CHR ''.'', CHR '',''} s;
          (ms, s) \<leftarrow> take_digits 3 0 s; s \<leftarrow> expect_char {CHR ''Z''} s;
          (if s = [] \<and> 1 \<le> m \<and> m \<le> 12 \<and> 1 \<le> d \<and> d \<le> days_in_month y m \<and> h < 24 \<and> mi < 60 \<and> se < 60
           then Some ((((days_from_civil y m d * 24 + h) * 60 + mi) * 60 + se) * 10 ^ 9 + ms * 10 ^ 6)
           else None) }"

lemma parse_millis_sample:
  "parse_millis ''2023-11-14T22:13:20.000Z'' = Some (1700000000 * 10 ^ 9)"
  "parse_millis ''2023-02-29T00:00:00.000Z'' = None"
  by code_simp+

section \<open>CoinMarketCap\<close>

definition cmcCacheKey :: string where "cmcCacheKey = ''crypto_price_coinmarketcap''"
definition coinGeckoCacheKey :: string where "coinGeckoCacheKey = ''crypto_price_coingecko''"

record price_client =
  pr_apiKey :: string
  pr_currency :: string
  pr_cacheExpiration :: int
  pr_slugs :: "string list"
  pr_apiEndpoint :: string

definition NewCoinMarketCapClient :: "string \<Rightarrow> string \<Rightarrow> int \<Rightarrow> string list \<Rightarrow> price_client" where
  "NewCoinMarketCapClient apiKey currency cacheExpiration slugs =
     \<lparr>pr_apiKey = apiKey, pr_currency = currency, pr_cacheExpiration = cacheExpiration, pr_slugs = slugs,
      pr_apiEndpoint = ''https://pro-api.coinmarketcap.com''\<rparr>"

definition NewCoinGeckoClient :: "string \<Rightarrow> string \<Rightarrow> int \<Rightarrow> string list \<Rightarrow> price_client" where
  "NewCoinGeckoClient apiKey currency cacheExpiration ids =
     \<lparr>pr_apiKey = apiKey, pr_currency = currency, pr_cacheExpiration = cacheExpiration, pr_slugs = ids,
      pr_apiEndpoint = ''https://api.coingecko.com''\<rparr>"

definition cmc_request :: "price_client \<Rightarrow> string \<Rightarrow> string \<Rightarrow> http_get" where
  "cmc_request c slug currency =
     \<lparr>hg_URL = pr_apiEndpoint c @ ''/v2/cryptocurrency/quotes/latest'',
      hg_Header = [(''X-CMC_PRO_API_KEY'', pr_apiKey c), (''Accept'', ''application/json'')],
      hg_Query = [(''slug'', slug), (''convert'', currency)]\<rparr>"

text \<open>The loop over \<^verbatim>\<open>cmcResp.Data\<close>.\<close>

fun cmc_extract ::
  "gotime \<Rightarrow> string \<Rightarrow> (string, CMCData) gomap \<Rightarrow> (string, CryptoPrice) gomap \<Rightarrow> (string, CryptoPrice) gomap" where
  "cmc_extract now currency [] result = result"
| "cmc_extract now currency ((k, cryptoData) # data) result =
     (case gm_get (cm_Quote cryptoData) currency of
        None \<Rightarrow> cmc_extract now currency data result
      | Some quoteData \<Rightarrow>
          let lastUpdated = (case parse_millis (cq_LastUpdated quoteData) of None \<Rightarrow> now | Some t \<Rightarrow> t)
          in cmc_extract now currency data (gm_set (cm_Slug cryptoData)
               \<lparr>cp_Name = cm_Name cryptoData, cp_Slug = cm_Slug cryptoData, cp_Symbol = cm_Symbol cryptoData,
                cp_Currency = currency, cp_Price = cq_Price quoteData, cp_LastUpdated = lastUpdated\<rparr> result))"

text \<open>\<^verbatim>\<open>fetchPricesFromAPI\<close>: a slug whose request fails in any way is skipped; there is no error.\<close>

fun cmc_fetch ::
  "gotime \<Rightarrow> (http_get \<Rightarrow> CMCResponse reply) \<Rightarrow> price_client \<Rightarrow> string \<Rightarrow> string list \<Rightarrow>
   (string, CryptoPrice) gomap \<Rightarrow> (string, CryptoPrice) gomap" where
  "cmc_fetch now api c currency [] result = result"
| "cmc_fetch now api c currency (slug # slugs) result =
     (case api (cmc_request c slug currency) of
        NoReply _ \<Rightarrow> cmc_fetch now api c currency slugs result
      | Reply code _ b \<Rightarrow>
          if code \<noteq> 200 then cmc_fetch now api c currency slugs result
          else case b of
            Inl _ \<Rightarrow> cmc_fetch now api c currency slugs result
          | Inr resp \<Rightarrow>
              if cr_ErrorCode resp \<noteq> 0 then cmc_fetch now api c currency slugs result
              else cmc_fetch now api c currency slugs (cmc_extract now currency (cr_Data resp) result))"

definition cmc_GetPrices ::
  "price_client \<Rightarrow> gotime \<Rightarrow> (http_get \<Rightarrow> CMCResponse reply) \<Rightarrow> cached TenderdutyCache \<Rightarrow>
   (string + (string, CryptoPrice) gomap) \<times> cached TenderdutyCache" where
  "cmc_GetPrices c now api cache =
     (case cache_Get now cmcCacheKey cache of
        (Some (CachedPrices prices), cache1) \<Rightarrow> (Inr prices, cache1)
      | (_, cache1) \<Rightarrow>
          let prices = cmc_fetch now api c (pr_currency c) (pr_slugs c) []
          in (Inr prices, cache_Set now cmcCacheKey (CachedPrices prices) (dur_mul (pr_cacheExpiration c) Hour) cache1))"

section \<open>CoinGecko\<close>

text \<open>A body as text and decoded.\<close>

type_synonym gecko_body = "string \<times> (string + (string, (string, f64) gomap) gomap)"

fun joinStrings :: "string list \<Rightarrow> string \<Rightarrow> string" where
  "joinStrings [] sep = []"
| "joinStrings (s # strs) sep = fold (\<lambda>x result. result @ sep @ x) strs s"

definition gecko_request :: "price_client \<Rightarrow> string list \<Rightarrow> string \<Rightarrow> http_get" where
  "gecko_request c ids currency =
     \<lparr>hg_URL = pr_apiEndpoint c @ ''/api/v3/simple/price'',
      hg_Header = (if pr_apiKey c \<noteq> [] then [(''x-cg-demo-api-key'', pr_apiKey c)] else []) @
        [(''Accept'', ''application/json'')],
      hg_Query = [(''ids'', joinStrings ids '',''), (''vs_currencies'', ToLower currency),
        (''include_last_updated_at'', ''true'')]\<rparr>"

fun gecko_extract ::
  "gotime \<Rightarrow> string \<Rightarrow> (string, (string, f64) gomap) gomap \<Rightarrow> (string, CryptoPrice) gomap \<Rightarrow> (string, CryptoPrice) gomap" where
  "gecko_extract now currency [] result = result"
| "gecko_extract now currency ((i, quotes) # raw) result =
     (case gm_get quotes (ToLower currency) of
        None \<Rightarrow> gecko_extract now currency raw result
      | Some price \<Rightarrow>
          let lastUpdated = (case gm_get quotes ''last_updated_at'' of
                               None \<Rightarrow> now | Some ts \<Rightarrow> time_Unix (f64_to_int ts))
          in gecko_extract now currency raw (gm_set i
               \<lparr>cp_Name = [], cp_Slug = i, cp_Symbol = [], cp_Currency = currency, cp_Price = price,
                cp_LastUpdated = lastUpdated\<rparr> result))"

definition parseCoinGeckoResponse ::
  "gotime \<Rightarrow> gecko_body \<Rightarrow> string \<Rightarrow> string + (string, CryptoPrice) gomap" where
  "parseCoinGeckoResponse now b currency =
     (case snd b of
        Inl err \<Rightarrow> Inl (''failed to parse CoinGecko response: '' @ err)
      | Inr raw \<Rightarrow> Inr (gecko_extract now currency raw []))"

definition gecko_fetch ::
  "gotime \<Rightarrow> (http_get \<Rightarrow> gecko_body reply) \<Rightarrow> price_client \<Rightarrow> string list \<Rightarrow> string \<Rightarrow>
   string + (string, CryptoPrice) gomap" where
  "gecko_fetch now api c ids currency =
     (if ids = [] then Inr []
      else case api (gecko_request c ids currency) of
        NoReply err \<Rightarrow> Inl (''error fetching prices from CoinGecko: '' @ err)
      | Reply code _ (Inl err) \<Rightarrow> Inl (''error reading CoinGecko response: '' @ err)
      | Reply code _ (Inr b) \<Rightarrow>
          if code \<noteq> 200 then Inl (''CoinGecko API error (status '' @ itoa code @ ''): '' @ fst b)
          else parseCoinGeckoResponse now b currency)"

definition gecko_GetPrices ::
  "price_client \<Rightarrow> gotime \<Rightarrow> (http_get \<Rightarrow> gecko_body reply) \<Rightarrow> cached TenderdutyCache \<Rightarrow>
   (string + (string, CryptoPrice) gomap) \<times> cached TenderdutyCache" where
  "gecko_GetPrices c now api cache =
     (case cache_Get now coinGeckoCacheKey cache of
        (Some (CachedPrices prices), cache1) \<Rightarrow> (Inr prices, cache1)
      | (_, cache1) \<Rightarrow>
          (case gecko_fetch now api c (pr_slugs c) (pr_currency c) of
             Inl err \<Rightarrow> (Inl err, cache1)
           | Inr prices \<Rightarrow>
               (Inr prices, cache_Set now coinGeckoCacheKey (CachedPrices prices) (dur_mul (pr_cacheExpiration c) Hour) cache1)))"

text \<open>\<^verbatim>\<open>GetPrice\<close>, the same in both clients. The slug is shown between apostrophes.\<close>

definition quoted :: "string \<Rightarrow> string" where
  "quoted s = [CHR 0x27] @ s @ [CHR 0x27]"

definition price_of :: "string + (string, CryptoPrice) gomap \<Rightarrow> string \<Rightarrow> string + CryptoPrice" where
  "price_of prices slug =
     (case prices of
        Inl err \<Rightarrow> Inl err
      | Inr p \<Rightarrow> (case gm_get p (ToLower slug) of
                   Some price \<Rightarrow> Inr price
                 | None \<Rightarrow> Inl (''slug '' @ quoted slug @ '' not found'')))"

section \<open>What the clients have in common\<close>

fun price_run :: "(gotime \<Rightarrow> 'w \<Rightarrow> 'c \<Rightarrow> 'r \<times> 'c) \<Rightarrow> (gotime \<times> 'w) list \<Rightarrow> 'c \<Rightarrow> 'r list" where
  "price_run get [] c = []"
| "price_run get ((now, w) # calls) c = (let (r, c') = get now w c in r # price_run get calls c')"

locale price_converter =
  fixes get_prices :: "gotime \<Rightarrow> 'w \<Rightarrow> cached TenderdutyCache \<Rightarrow> (string + (string, CryptoPrice) gomap) \<times> cached TenderdutyCache"
    and key :: string and ttl :: duration
  assumes hit: "fst (cache_Get now key c) = Some (CachedPrices p) \<Longrightarrow> get_prices now w c = (Inr p, snd (cache_Get now key c))"
    and miss: "\<forall>p. fst (cache_Get now key c) \<noteq> Some (CachedPrices p) \<Longrightarrow> get_prices now w c = (r, c') \<Longrightarrow>
      c' = (case r of Inl _ \<Rightarrow> snd (cache_Get now key c)
                    | Inr p \<Rightarrow> cache_Set now key (CachedPrices p) ttl (snd (cache_Get now key c)))"
begin

lemma held:
  assumes "fst (cache_Get e key c) = Some (CachedPrices p)" "now \<le> e"
  shows "\<exists>c'. get_prices now w c = (Inr p, c') \<and> fst (cache_Get e key c') = Some (CachedPrices p)"
  using hit [OF tc.held_get [OF assms]] tc.held_after_get [OF assms] by blast

lemma run_held:
  "fst (cache_Get e key c) = Some (CachedPrices p) \<Longrightarrow> \<forall>now\<in>fst ` set calls. now \<le> e \<Longrightarrow>
   price_run get_prices calls c = replicate (length calls) (Inr p)"
proof (induction calls arbitrary: c)
  case (Cons call calls)
  obtain now w where call: "call = (now, w)" by (cases call)
  obtain c' where c': "get_prices now w c = (Inr p, c')" "fst (cache_Get e key c') = Some (CachedPrices p)"
    using held [OF Cons.prems(1), of now w] Cons.prems(2) call by auto
  show ?case using Cons.IH [OF c'(2)] Cons.prems(2) by (simp add: call c'(1))
qed simp

text \<open>What was fetched serves every call for \<open>ttl\<close>.\<close>

lemma fetched_serves:
  assumes "\<forall>p. fst (cache_Get now key c) \<noteq> Some (CachedPrices p)" "get_prices now w c = (Inr p, c')" "0 < ttl"
    "\<forall>t\<in>fst ` set calls. t \<le> now + ttl"
  shows "price_run get_prices calls c' = replicate (length calls) (Inr p)"
proof (rule run_held)
  show "fst (cache_Get (now + ttl) key c') = Some (CachedPrices p)"
    using miss [OF assms(1,2)] tc.held_put [OF assms(3)] by simp
qed (rule assms(4))

text \<open>An error is forgotten.\<close>

lemma error_forgotten:
  assumes "get_prices now w c = (Inl err, c')" "now \<le> t"
  shows "fst (cache_Get t key c') \<noteq> Some (CachedPrices p)"
proof
  assume t: "fst (cache_Get t key c') = Some (CachedPrices p)"
  have none: "\<forall>p. fst (cache_Get now key c) \<noteq> Some (CachedPrices p)"
    using assms(1) hit by fastforce
  then have "c' = snd (cache_Get now key c)" using miss [OF _ assms(1)] by simp
  then have "fst (cache_Get t key c) = Some (CachedPrices p)"
    using t tc.get_keeps [OF assms(2), of key key c] by simp
  then have "fst (cache_Get now key c) = Some (CachedPrices p)"
    by (rule tc.get_earlier [OF assms(2)])
  with none show False by blast
qed

end

interpretation cmc: price_converter "cmc_GetPrices cl" cmcCacheKey "dur_mul (pr_cacheExpiration cl) Hour"
  by unfold_locales
    (auto simp: cmc_GetPrices_def Let_def split: prod.splits option.splits cached.splits)

interpretation gecko: price_converter "gecko_GetPrices cl" coinGeckoCacheKey "dur_mul (pr_cacheExpiration cl) Hour"
  by unfold_locales
    (auto simp: gecko_GetPrices_def split: prod.splits option.splits cached.splits sum.splits)

lemma cmc_fetch_outage:
  "\<forall>rq. \<exists>e. api rq = NoReply e \<Longrightarrow> cmc_fetch now api c currency slugs result = result"
proof (induction slugs arbitrary: result)
  case (Cons slug slugs)
  obtain e where "api (cmc_request c slug currency) = NoReply e" using Cons.prems by blast
  then show ?case by (simp add: Cons.IH [OF Cons.prems])
qed simp

lemma gecko_fetch_outage:
  assumes "\<forall>rq. \<exists>e. api rq = NoReply e" "ids \<noteq> []"
  shows "\<exists>err. gecko_fetch now api c ids currency = Inl err"
proof -
  obtain e where "api (gecko_request c ids currency) = NoReply e" using assms(1) by blast
  with assms(2) show ?thesis by (simp add: gecko_fetch_def)
qed

lemma hours_exact: "1 \<le> n \<Longrightarrow> n \<le> 10 ^ 5 \<Longrightarrow> dur_mul n Hour = n * Hour \<and> 0 < n * Hour"
  by (auto simp: dur_mul_def Hour_def int64_def intro!: wrap64_id)

text \<open>
  An outage of the price service is kept for hours by one client and forgotten by the other.
  The CoinMarketCap client never reports an error: when all requests fail and nothing is cached, it
  returns an empty table, caches it, and every call of the next \<^verbatim>\<open>cache_expiration\<close> hours answers
  from it that the slug is not found, whatever the service would say by then. The CoinGecko client
  returns the error, and its next call asks again and returns what it gets.
\<close>

lemma price_outage:
  assumes n: "1 \<le> pr_cacheExpiration cl" "pr_cacheExpiration cl \<le> 10 ^ 5" and slugs: "pr_slugs cl \<noteq> []"
    and no: "fst (cache_Get now cmcCacheKey cache) = None" "fst (cache_Get now coinGeckoCacheKey cache) = None"
    and out: "\<forall>rq. \<exists>e. api rq = NoReply e" "\<forall>rq. \<exists>e. api' rq = NoReply e"
    and calls: "\<forall>t\<in>fst ` set calls. t \<le> now + pr_cacheExpiration cl * Hour" and t: "now \<le> t"
  shows "(\<exists>cache1. cmc_GetPrices cl now api cache = (Inr [], cache1) \<and>
      map (\<lambda>r. price_of r slug) (price_run (cmc_GetPrices cl) calls cache1) =
        replicate (length calls) (Inl (''slug '' @ quoted slug @ '' not found''))) \<and>
    (\<exists>err cache2. gecko_GetPrices cl now api' cache = (Inl err, cache2) \<and>
      fst (gecko_GetPrices cl t back cache2) = gecko_fetch t back cl (pr_slugs cl) (pr_currency cl))"
proof (intro conjI)
  have h: "dur_mul (pr_cacheExpiration cl) Hour = pr_cacheExpiration cl * Hour" "0 < dur_mul (pr_cacheExpiration cl) Hour"
    using hours_exact [OF n] by simp_all
  obtain cache1 where g: "cmc_GetPrices cl now api cache = (Inr [], cache1)"
    using no(1) by (cases "cache_Get now cmcCacheKey cache")
      (simp add: cmc_GetPrices_def cmc_fetch_outage [OF out(1)])
  have "price_run (cmc_GetPrices cl) calls cache1 = replicate (length calls) (Inr [])"
    by (rule cmc.fetched_serves [OF _ g h(2)]) (use no(1) calls h(1) in simp_all)
  with g show "\<exists>cache1. cmc_GetPrices cl now api cache = (Inr [], cache1) \<and>
      map (\<lambda>r. price_of r slug) (price_run (cmc_GetPrices cl) calls cache1) =
        replicate (length calls) (Inl (''slug '' @ quoted slug @ '' not found''))"
    by (simp add: price_of_def)
  obtain err cache2 where e: "gecko_GetPrices cl now api' cache = (Inl err, cache2)"
    using no(2) gecko_fetch_outage [OF out(2) slugs, of now cl "pr_currency cl"]
    by (cases "cache_Get now coinGeckoCacheKey cache") (auto simp: gecko_GetPrices_def)
  have "fst (gecko_GetPrices cl t back cache2) = gecko_fetch t back cl (pr_slugs cl) (pr_currency cl)"
  proof -
    obtain r c where g: "cache_Get t coinGeckoCacheKey cache2 = (r, c)" by force
    then have "r \<noteq> Some (CachedPrices p)" for p using gecko.error_forgotten [OF e t, of p] by simp
    then show ?thesis by (auto simp: gecko_GetPrices_def g split: option.split cached.split sum.split)
  qed
  with e show "\<exists>err cache2. gecko_GetPrices cl now api' cache = (Inl err, cache2) \<and>
      fst (gecko_GetPrices cl t back cache2) = gecko_fetch t back cl (pr_slugs cl) (pr_currency cl)" by blast
qed

section \<open>Examples\<close>

definition sample_client :: price_client where
  "sample_client = NewCoinMarketCapClient ''key'' ''USD'' 8 [''cosmos'']"

lemma price_outage_witness:
  "\<exists>cache1. cmc_GetPrices sample_client noon (\<lambda>_. NoReply ''timeout'') [] = (Inr [], cache1) \<and>
     map (\<lambda>r. price_of r ''cosmos'') (price_run (cmc_GetPrices sample_client)
       [(noon + Hour, \<lambda>_. Reply 200 ''OK'' (Inr \<lparr>cr_ErrorCode = 0, cr_ErrorMessage = [], cr_Data = []\<rparr>))] cache1) =
       [Inl (''slug '' @ quoted ''cosmos'' @ '' not found'')]"
proof -
  let ?calls = "[(noon + Hour, \<lambda>_. Reply 200 ''OK'' (Inr \<lparr>cr_ErrorCode = 0, cr_ErrorMessage = [], cr_Data = []\<rparr>))]"
  have n: "1 \<le> pr_cacheExpiration sample_client" "pr_cacheExpiration sample_client \<le> 10 ^ 5" "pr_slugs sample_client \<noteq> []"
    by (simp_all add: sample_client_def NewCoinMarketCapClient_def)
  have no: "fst (cache_Get noon key []) = None" for key by (simp add: cache_Get_fst)
  have out: "\<forall>rq. \<exists>e. (\<lambda>_. NoReply ''timeout'') rq = NoReply e" by simp
  have calls: "\<forall>t\<in>fst ` set ?calls. t \<le> noon + pr_cacheExpiration sample_client * Hour"
    by (simp add: sample_client_def NewCoinMarketCapClient_def Hour_def)
  from price_outage [OF n no no out out calls order_refl, of "''cosmos''" "\<lambda>_. NoReply []"] show ?thesis by simp
qed

end
