(* ===== verification/Units.thy ===== *)
theory Units
  imports Prices
begin

text \<open>
  Amounts in base units and in the unit people read (\<^verbatim>\<open>td2/utils/price-conversion.go\<close>). The
  decimals of the Cosmos SDK are a parameter: the integers inside them with the operations the
  program calls, each of which may panic (\<open>None\<close>) on overflow.
\<close>

section \<open>Decimals of the SDK\<close>

record dec_ops =
  dec_One :: int
  dec_MulInt64 :: "int \<Rightarrow> int \<Rightarrow> int option"
  dec_Quo :: "int \<Rightarrow> int \<Rightarrow> int option"
  dec_Mul :: "int \<Rightarrow> int \<Rightarrow> int option"
  dec_Add :: "int \<Rightarrow> int \<Rightarrow> int option"
  dec_MustFloat64 :: "int \<Rightarrow> f64"

text \<open>The documented behaviour of the operations used here: 18 decimals, rounding to the nearest.\<close>

definition dec_laws :: "dec_ops \<Rightarrow> bool" where
  "dec_laws ops \<longleftrightarrow>
     dec_One ops = 10 ^ 18 \<and>
     (\<forall>a n. case dec_MulInt64 ops a n of None \<Rightarrow> 2 ^ 256 \<le> \<bar>a * n\<bar> | Some r \<Rightarrow> r = a * n) \<and>
     (\<forall>a b. case dec_Quo ops a b of None \<Rightarrow> b = 0 \<or> 2 ^ 256 \<le> \<bar>a * 10 ^ 18\<bar>
                                  | Some r \<Rightarrow> 2 * \<bar>r * b - a * 10 ^ 18\<bar> \<le> \<bar>b\<bar>) \<and>
     (\<forall>a b. case dec_Mul ops a b of None \<Rightarrow> 2 ^ 256 \<le> \<bar>a * b\<bar>
                                  | Some r \<Rightarrow> 2 * \<bar>r * 10 ^ 18 - a * b\<bar> \<le> 10 ^ 18)"

section \<open>Conversion of coins\<close>

text \<open>The unit of a denom: the first entry with that name.\<close>

definition unit_exponent :: "Metadata \<Rightarrow> string \<Rightarrow> nat option" where
  "unit_exponent md denom = map_option du_Exponent (List.find (\<lambda>u. du_Denom u = denom) (md_DenomUnits md))"

definition display_denom :: "Metadata \<Rightarrow> string" where
  "display_denom md = (if md_Display md = [] then md_Base md else md_Display md)"

definition not_a_unit :: "Metadata \<Rightarrow> string" where
  "not_a_unit md =
     ''display unit '' @ quoted (display_denom md) @ '' not found in denomination units for: '' @ md_Base md"

text \<open>The loop that multiplies by ten.\<close>

fun power_of_ten :: "dec_ops \<Rightarrow> nat \<Rightarrow> int \<Rightarrow> int option" where
  "power_of_ten ops 0 d = Some d"
| "power_of_ten ops (Suc n) d = do { d' \<leftarrow> dec_MulInt64 ops d 10; power_of_ten ops n d' }"

definition convert_coin :: "dec_ops \<Rightarrow> Metadata \<Rightarrow> nat \<Rightarrow> DecCoin \<Rightarrow> DecCoin option" where
  "convert_coin ops md displayExponent coin =
     (if dc_Denom coin = display_denom md then Some coin
      else case unit_exponent md (dc_Denom coin) of
        None \<Rightarrow> Some coin
      | Some currentExponent \<Rightarrow>
          do { amount \<leftarrow>
                 (if currentExponent < displayExponent then
                    do { divisor \<leftarrow> power_of_ten ops (displayExponent - currentExponent) (dec_One ops);
                         dec_Quo ops (dc_Amount coin) divisor }
                  else
                    do { multiplier \<leftarrow> power_of_ten ops (currentExponent - displayExponent) (dec_One ops);
                         dec_Mul ops (dc_Amount coin) multiplier });
               Some \<lparr>dc_Denom = display_denom md, dc_Amount = amount\<rparr> })"

definition ConvertDecCoinToDisplayUnit :: "dec_ops \<Rightarrow> DecCoin list \<Rightarrow> Metadata \<Rightarrow> (string + DecCoin list) option" where
  "ConvertDecCoinToDisplayUnit ops coins md =
     (case unit_exponent md (display_denom md) of
        None \<Rightarrow> Some (Inl (not_a_unit md))
      | Some displayExponent \<Rightarrow>
          map_option Inr (those (map (convert_coin ops md displayExponent) coins)))"

section \<open>Conversion of floats\<close>

fun float_power_of_ten :: "nat \<Rightarrow> f64 \<Rightarrow> f64" where
  "float_power_of_ten 0 d = d"
| "float_power_of_ten (Suc n) d = float_power_of_ten n (f64_mul d (Fin 10))"

definition ConvertFloatInBaseUnitToDisplayUnit :: "f64 \<Rightarrow> Metadata \<Rightarrow> string + (f64 \<times> string)" where
  "ConvertFloatInBaseUnitToDisplayUnit v md =
     (if md_Display md = [] then Inr (v, md_Base md)
      else case unit_exponent md (md_Display md) of
        None \<Rightarrow> Inl (not_a_unit md)
      | Some displayExponent \<Rightarrow> Inr (f64_div v (float_power_of_ten displayExponent (Fin 1)), md_Display md))"

section \<open>What conversion keeps\<close>

lemma convert_coin_denom:
  "convert_coin ops md e coin = Some c \<Longrightarrow>
   c = coin \<and> unit_exponent md (dc_Denom coin) = None \<or> dc_Denom c = display_denom md"
  by (auto simp: convert_coin_def bind_eq_Some_conv split: if_splits option.splits)

lemma convert_coin_again: "convert_coin ops md e coin = Some c \<Longrightarrow> convert_coin ops md e c = Some c"
  using convert_coin_denom [of ops md e coin c] by (auto simp: convert_coin_def)

lemma power_of_ten_exact:
  assumes "dec_laws ops"
  shows "power_of_ten ops n d = Some r \<Longrightarrow> r = d * 10 ^ n"
proof (induction n arbitrary: d)
  case (Suc n)
  then obtain d' where d': "dec_MulInt64 ops d 10 = Some d'" "power_of_ten ops n d' = Some r"
    by (auto simp: bind_eq_Some_conv)
  have "case dec_MulInt64 ops d 10 of None \<Rightarrow> 2 ^ 256 \<le> \<bar>d * 10\<bar> | Some r \<Rightarrow> r = d * 10"
    using assms by (simp add: dec_laws_def)
  then have "d' = d * 10" using d'(1) by simp
  with Suc.IH [OF d'(2)] show ?case by simp
qed simp

lemma quo_error:
  assumes "dec_laws ops" "dec_Quo ops a b = Some r"
  shows "2 * \<bar>r * b - a * 10 ^ 18\<bar> \<le> \<bar>b\<bar>"
proof -
  have "case dec_Quo ops a b of None \<Rightarrow> b = 0 \<or> 2 ^ 256 \<le> \<bar>a * 10 ^ 18\<bar> | Some r \<Rightarrow> 2 * \<bar>r * b - a * 10 ^ 18\<bar> \<le> \<bar>b\<bar>"
    using assms(1) unfolding dec_laws_def by blast
  with assms(2) show ?thesis by simp
qed

lemma mul_error:
  assumes "dec_laws ops" "dec_Mul ops a b = Some r"
  shows "2 * \<bar>r * 10 ^ 18 - a * b\<bar> \<le> 10 ^ 18"
proof -
  have "case dec_Mul ops a b of None \<Rightarrow> 2 ^ 256 \<le> \<bar>a * b\<bar> | Some r \<Rightarrow> 2 * \<bar>r * 10 ^ 18 - a * b\<bar> \<le> 10 ^ 18"
    using assms(1) unfolding dec_laws_def by blast
  with assms(2) show ?thesis by simp
qed

lemma scaled_error:
  fixes r a :: int
  assumes "2 * \<bar>r * (s * 10 ^ k) - a * s\<bar> \<le> \<bar>s * 10 ^ k\<bar>" "0 < s"
  shows "2 * \<bar>r * 10 ^ (k + u) - a * 10 ^ u\<bar> \<le> 10 ^ (k + u)"
proof -
  have "r * (s * 10 ^ k) - a * s = s * (r * 10 ^ k - a)" by (simp add: algebra_simps)
  then have "s * (2 * \<bar>r * 10 ^ k - a\<bar>) \<le> s * 10 ^ k"
    using assms by (simp add: abs_mult)
  then have "2 * \<bar>r * 10 ^ k - a\<bar> \<le> 10 ^ k" using assms(2) by simp
  then have "10 ^ u * (2 * \<bar>r * 10 ^ k - a\<bar>) \<le> 10 ^ u * (10 ^ k :: int)" by (rule mult_left_mono) simp
  moreover have "\<bar>r * 10 ^ (k + u) - a * 10 ^ u\<bar> = 10 ^ u * \<bar>r * 10 ^ k - a\<bar>"
  proof -
    have "r * 10 ^ (k + u) - a * 10 ^ u = 10 ^ u * (r * 10 ^ k - a)" by (simp add: power_add algebra_simps)
    then show ?thesis by (simp add: abs_mult)
  qed
  ultimately show ?thesis by (simp add: power_add mult.commute)
qed

lemma nearest_unique: "2 * \<bar>r * 10 ^ 18 - b * 10 ^ 18\<bar> \<le> (10 :: int) ^ 18 \<Longrightarrow> r = b"
  by (simp add: abs_le_iff)

lemma convert_coin_amount:
  assumes ops: "dec_laws ops" and c: "convert_coin ops md e coin = Some c"
    and u: "unit_exponent md (dc_Denom coin) = Some u" and other: "dc_Denom coin \<noteq> display_denom md"
  shows "2 * \<bar>dc_Amount c * 10 ^ e - dc_Amount coin * 10 ^ u\<bar> \<le> 10 ^ e \<and>
    (u < e \<or> dc_Amount c * 10 ^ e = dc_Amount coin * 10 ^ u)"
proof (cases "u < e")
  case True
  then obtain d where d: "power_of_ten ops (e - u) (dec_One ops) = Some d" "dec_Quo ops (dc_Amount coin) d = Some (dc_Amount c)"
    using c u other by (auto simp: convert_coin_def bind_eq_Some_conv)
  have "d = 10 ^ 18 * 10 ^ (e - u)" using power_of_ten_exact [OF ops d(1)] ops by (simp add: dec_laws_def)
  then have "2 * \<bar>dc_Amount c * (10 ^ 18 * 10 ^ (e - u)) - dc_Amount coin * 10 ^ 18\<bar> \<le> \<bar>10 ^ 18 * 10 ^ (e - u)\<bar>"
    using quo_error [OF ops d(2)] by simp
  from scaled_error [OF this, of u] True show ?thesis by simp
next
  case False
  then obtain d where d: "power_of_ten ops (u - e) (dec_One ops) = Some d" "dec_Mul ops (dc_Amount coin) d = Some (dc_Amount c)"
    using c u other by (auto simp: convert_coin_def bind_eq_Some_conv)
  have "d = 10 ^ 18 * 10 ^ (u - e)" using power_of_ten_exact [OF ops d(1)] ops by (simp add: dec_laws_def)
  then have "dc_Amount coin * d = dc_Amount coin * 10 ^ (u - e) * 10 ^ 18" by simp
  then have "dc_Amount c = dc_Amount coin * 10 ^ (u - e)"
    using mul_error [OF ops d(2)] by (intro nearest_unique) (simp only:)
  then have "dc_Amount c * 10 ^ e = dc_Amount coin * 10 ^ u"
    using False by (simp add: mult.assoc flip: power_add)
  then show ?thesis by simp
qed

text \<open>
  C35: Converting rewards keeps their value. When \<^verbatim>\<open>ConvertDecCoinToDisplayUnit\<close> succeeds, it returns
  one coin per coin in the same order; a coin that is already displayed or whose denom is no unit
  of the metadata (a bridged one) is untouched; every other coin comes back in the display denom
  with an amount off by at most half a unit in the last of the 18 decimals, exactly when nothing is
  divided. Converting the result again changes nothing, so the second conversion in the rewards
  alert cannot scale an amount twice.
\<close>

theorem conversion_exact:
  assumes ops: "dec_laws ops" and conv: "ConvertDecCoinToDisplayUnit ops coins md = Some (Inr cs)"
  shows "ConvertDecCoinToDisplayUnit ops cs md = Some (Inr cs) \<and>
    list_all2 (\<lambda>coin c.
      if dc_Denom coin = display_denom md \<or> unit_exponent md (dc_Denom coin) = None then c = coin
      else dc_Denom c = display_denom md \<and>
        (let e = the (unit_exponent md (display_denom md)); u = the (unit_exponent md (dc_Denom coin))
         in 2 * \<bar>dc_Amount c * 10 ^ e - dc_Amount coin * 10 ^ u\<bar> \<le> 10 ^ e \<and>
            (u < e \<or> dc_Amount c * 10 ^ e = dc_Amount coin * 10 ^ u))) coins cs"
proof -
  obtain e where e: "unit_exponent md (display_denom md) = Some e" and cs: "map (convert_coin ops md e) coins = map Some cs"
    using conv by (auto simp: ConvertDecCoinToDisplayUnit_def those_Some split: option.splits)
  have each: "list_all2 (\<lambda>coin c. convert_coin ops md e coin = Some c) coins cs"
    using cs by (simp add: list_all2_conv_all_nth map_equality_iff)
  then have "map (convert_coin ops md e) cs = map Some cs"
    by (induction rule: list_all2_induct) (auto intro: convert_coin_again)
  then have "ConvertDecCoinToDisplayUnit ops cs md = Some (Inr cs)"
    by (simp add: ConvertDecCoinToDisplayUnit_def e those_Some)
  moreover have "if dc_Denom coin = display_denom md \<or> unit_exponent md (dc_Denom coin) = None then c = coin
      else dc_Denom c = display_denom md \<and>
        2 * \<bar>dc_Amount c * 10 ^ e - dc_Amount coin * 10 ^ the (unit_exponent md (dc_Denom coin))\<bar> \<le> 10 ^ e \<and>
        (the (unit_exponent md (dc_Denom coin)) < e \<or>
         dc_Amount c * 10 ^ e = dc_Amount coin * 10 ^ the (unit_exponent md (dc_Denom coin)))"
    if "convert_coin ops md e coin = Some c" for coin c
  proof (cases "dc_Denom coin = display_denom md \<or> unit_exponent md (dc_Denom coin) = None")
    case True
    then show ?thesis
      using that by (cases "dc_Denom coin = display_denom md") (simp_all add: convert_coin_def)
  next
    case False
    then show ?thesis using convert_coin_amount [OF ops that] convert_coin_denom [OF that] by auto
  qed
  ultimately show ?thesis
    unfolding e option.sel Let_def by (intro conjI list_all2_mono [OF each])
qed

lemma ten_exact: "n \<le> 22 \<Longrightarrow> f64_round (10 ^ n) = Fin (10 ^ n)"
proof -
  assume n: "n \<le> 22"
  have "(5::int) ^ n \<le> 5 ^ 22" using n by (rule power_increasing) simp
  then have five: "0 < (5::int) ^ n" "(5::int) ^ n < 2 ^ 53" by simp_all
  have ten: "(10::rat) ^ n = of_int (5 ^ n) * 2 powi int n"
    by (simp flip: power_mult_distrib)
  have "rnd (10 ^ n) = 10 ^ n"
    unfolding ten by (rule rnd_exact_pos [OF five]) simp
  moreover have "(10::rat) ^ n \<le> 10 ^ 22" using n by (rule power_increasing) simp
  then have "(10::rat) ^ n < 2 ^ 1024" by (rule order.strict_trans1) simp
  ultimately show ?thesis by (simp add: f64_round_def)
qed

lemma float_power_of_ten_exact: "m + n \<le> 22 \<Longrightarrow> float_power_of_ten n (Fin (10 ^ m)) = Fin (10 ^ (m + n))"
proof (induction n arbitrary: m)
  case (Suc n)
  have "f64_mul (Fin (10 ^ m)) (Fin 10) = Fin (10 ^ Suc m)"
    using ten_exact [of "Suc m"] Suc.prems by (simp add: mult.commute)
  then show ?case using Suc.IH [of "Suc m"] Suc.prems by simp
qed simp

text \<open>
  For up to 22 decimals the divisor of the float conversion is exactly the power of ten, so the
  result is the correctly rounded quotient.
\<close>

lemma ConvertFloat_rounded:
  assumes "md_Display md \<noteq> []" "unit_exponent md (md_Display md) = Some e" "e \<le> 22"
  shows "ConvertFloatInBaseUnitToDisplayUnit (Fin x) md = Inr (f64_round (x / 10 ^ e), md_Display md)"
  using assms float_power_of_ten_exact [of 0 e] by (simp add: ConvertFloatInBaseUnitToDisplayUnit_def)

section \<open>Examples\<close>

text \<open>An implementation with the documented behaviour.\<close>

definition nearest :: "int \<Rightarrow> int \<Rightarrow> int" where
  "nearest a b = (2 * a * sgn b + \<bar>b\<bar>) div (2 * \<bar>b\<bar>)"

definition sample_decs :: dec_ops where
  "sample_decs = \<lparr>dec_One = 10 ^ 18, dec_MulInt64 = (\<lambda>a n. if \<bar>a * n\<bar> < 2 ^ 256 then Some (a * n) else None),
     dec_Quo = (\<lambda>a b. if b = 0 \<or> 2 ^ 256 \<le> \<bar>a * 10 ^ 18\<bar> then None else Some (nearest (a * 10 ^ 18) b)),
     dec_Mul = (\<lambda>a b. if \<bar>a * b\<bar> < 2 ^ 256 then Some (nearest (a * b) (10 ^ 18)) else None),
     dec_Add = (\<lambda>a b. if \<bar>a + b\<bar> < 2 ^ 256 then Some (a + b) else None),
     dec_MustFloat64 = (\<lambda>a. f64_round (of_int a / 10 ^ 18))\<rparr>"

lemma twice_diff: "2 * \<bar>x - y\<bar> = \<bar>2 * x - 2 * (y :: int)\<bar>"
  by arith

lemma nearest_error: "b \<noteq> 0 \<Longrightarrow> 2 * \<bar>nearest a b * b - a\<bar> \<le> \<bar>b\<bar>"
proof -
  assume b: "b \<noteq> 0"
  let ?n = "2 * a * sgn b + \<bar>b\<bar>" and ?m = "2 * \<bar>b\<bar>"
  have "nearest a b * ?m = ?n - ?n mod ?m" by (simp add: nearest_def minus_mod_eq_div_mult)
  moreover have "0 \<le> ?n mod ?m" "?n mod ?m < ?m" using b by simp_all
  ultimately have "\<bar>2 * (nearest a b * \<bar>b\<bar>) - 2 * (a * sgn b)\<bar> \<le> \<bar>b\<bar>" by (simp add: abs_le_iff algebra_simps)
  moreover have "\<bar>nearest a b * b - a\<bar> = \<bar>nearest a b * \<bar>b\<bar> - a * sgn b\<bar>"
    using b by (cases "0 < b") (auto simp: sgn_if)
  ultimately show ?thesis by (simp only: twice_diff)
qed

lemma sample_decs_laws: "dec_laws sample_decs"
  unfolding dec_laws_def sample_decs_def
  using nearest_error [of _] nearest_error [of "10 ^ 18"] by (simp add: not_less)

definition sample_metadata :: Metadata where
  "sample_metadata = \<lparr>md_Description = [], md_DenomUnits =
     [\<lparr>du_Denom = ''unet'', du_Exponent = 0, du_Aliases = []\<rparr>, \<lparr>du_Denom = ''net'', du_Exponent = 6, du_Aliases = []\<rparr>],
     md_Base = ''unet'', md_Display = ''net'', md_Name = ''Net'', md_Symbol = ''NET''\<rparr>"

theorem conversion_exact_witness:
  "ConvertDecCoinToDisplayUnit sample_decs [\<lparr>dc_Denom = ''net'', dc_Amount = 5 * 10 ^ 17\<rparr>, \<lparr>dc_Denom = ''ibc/1'', dc_Amount = 7\<rparr>]
     sample_metadata = Some (Inr [\<lparr>dc_Denom = ''net'', dc_Amount = 5 * 10 ^ 17\<rparr>, \<lparr>dc_Denom = ''ibc/1'', dc_Amount = 7\<rparr>])"
proof -
  have "ConvertDecCoinToDisplayUnit sample_decs [\<lparr>dc_Denom = ''unet'', dc_Amount = 5 * 10 ^ 23\<rparr>, \<lparr>dc_Denom = ''ibc/1'', dc_Amount = 7\<rparr>]
     sample_metadata = Some (Inr [\<lparr>dc_Denom = ''net'', dc_Amount = 5 * 10 ^ 17\<rparr>, \<lparr>dc_Denom = ''ibc/1'', dc_Amount = 7\<rparr>])"
    by code_simp
  from conversion_exact [OF sample_decs_laws this] show ?thesis by (rule conjunct1)
qed

end
