(* ===== verification/StakeAlerts.thy ===== *)
theory StakeAlerts
  imports NodeAlerts Units
begin

text \<open>
  The alerts about the validator's stake, commission rate and unclaimed rewards
  (\<^verbatim>\<open>td2/alert.go\<close>). The first two compare the validator info with the copy the health check
  remembers (\<open>remember_valinfo\<close>); the third adds up the coins it can price.
\<close>

section \<open>Stake and commission\<close>

definition stake_change :: "ValInfo \<Rightarrow> ValInfo \<Rightarrow> f64" where
  "stake_change vi prev =
     f64_div (f64_sub (vi_DelegatedTokens vi) (vi_DelegatedTokens prev)) (vi_DelegatedTokens prev)"

definition stake_threshold :: "AlertConfig \<Rightarrow> f64 \<Rightarrow> f64" where
  "stake_threshold ac change =
     floatVal (if f64_lt change (Fin 0) then ac_StakeChangeDropThreshold ac else ac_StakeChangeIncreaseThreshold ac)"

text \<open>The amounts and the unit of the message.\<close>

definition stake_amounts :: "ChainConfig \<Rightarrow> f64 \<Rightarrow> f64 \<Rightarrow> f64 \<times> f64 \<times> string" where
  "stake_amounts cc stakeNow stakeBefore =
     (case cc_denomMetadata cc of
        Some md \<Rightarrow>
          if pv_Name (cc_Provider cc) \<noteq> ''namada'' then
            (case (ConvertFloatInBaseUnitToDisplayUnit stakeNow md, ConvertFloatInBaseUnitToDisplayUnit stakeBefore md) of
               (Inr (stakeNowConverted, _), Inr (stakeBeforeConverted, displayUnit)) \<Rightarrow>
                 (stakeNowConverted, stakeBeforeConverted, displayUnit)
             | _ \<Rightarrow> (stakeNow, stakeBefore, ''base''))
          else (stakeNow, stakeBefore, ''NAM'')
      | None \<Rightarrow> (stakeNow, stakeBefore, if pv_Name (cc_Provider cc) = ''namada'' then ''NAM'' else ''base''))"

definition stake_message :: "ChainConfig \<Rightarrow> ValInfo \<Rightarrow> ValInfo \<Rightarrow> string" where
  "stake_message cc vi prev =
     (let change = stake_change vi prev;
          trend = (if f64_lt change (Fin 0) then ''dropped'' else ''increased'');
          (stakeNow, stakeBefore, unit_name) = stake_amounts cc (vi_DelegatedTokens vi) (vi_DelegatedTokens prev)
      in vi_Moniker vi @ [CHR 0x27] @ ''s stake has '' @ trend @ '' by '' @
         fmt_fixed 1 (f64_mul (f64_abs change) (Fin 100)) @ ''% ('' @ HumanSI stakeNow @ '' '' @ unit_name @
         '' now) compared to the previous check ('' @ HumanSI stakeBefore @ '' '' @ unit_name @ '')'')"

definition evaluateStakeChangeAlert :: "gotime \<Rightarrow> ChainConfig \<Rightarrow> sys \<Rightarrow> verdict option" where
  "evaluateStakeChangeAlert now cc s =
     (case (cc_valInfo cc, cc_lastValInfo cc) of
        (Some vi, Some prev) \<Rightarrow>
          if f64_lt (Fin 0) (vi_DelegatedTokens prev) then
            let change = stake_change vi prev
            in do { (r, s') \<leftarrow> raise_or_clear now cc
                      (f64_le (stake_threshold (cc_Alerts cc) change) (f64_abs change))
                      (''StakeChange_'' @ cc_ValAddress cc) ''warning'' (Some (stake_message cc vi prev)) s;
                    Some (finish r cc s') }
          else Some ((False, False), cc, s)
      | _ \<Rightarrow> Some ((False, False), cc, s))"

definition commission_change :: "ValInfo \<Rightarrow> ValInfo \<Rightarrow> f64" where
  "commission_change vi prev = f64_sub (vi_CommissionRate vi) (vi_CommissionRate prev)"

definition commission_message :: "ValInfo \<Rightarrow> ValInfo \<Rightarrow> string" where
  "commission_message vi prev =
     (let change = commission_change vi prev;
          trend = (if f64_lt change (Fin 0) then ''decreased'' else ''increased'');
          percent = (\<lambda>f. fmt_fixed 2 (f64_mul f (Fin 100)))
      in vi_Moniker vi @ [CHR 0x27] @ ''s commission rate has '' @ trend @ '' from '' @
         percent (vi_CommissionRate prev) @ ''% to '' @ percent (vi_CommissionRate vi) @ ''% ('' @
         percent (f64_abs change) @ '' percentage point change)'')"

definition evaluateCommissionChangeAlert :: "gotime \<Rightarrow> ChainConfig \<Rightarrow> sys \<Rightarrow> verdict option" where
  "evaluateCommissionChangeAlert now cc s =
     (case (cc_valInfo cc, cc_lastValInfo cc) of
        (Some vi, Some prev) \<Rightarrow>
          do { (r, s') \<leftarrow> raise_or_clear now cc
                 (f64_le (floatVal (ac_CommissionChangeThreshold (cc_Alerts cc))) (f64_abs (commission_change vi prev)))
                 (''CommissionChange_'' @ cc_ValAddress cc) ''warning'' (Some (commission_message vi prev)) s;
               Some (finish r cc s') }
      | _ \<Rightarrow> Some ((False, False), cc, s))"

section \<open>Unclaimed rewards\<close>

definition addDenom :: "string \<Rightarrow> string list \<Rightarrow> string list" where
  "addDenom denom targetDenoms =
     (if denom = [] then targetDenoms
      else if denom \<notin> set targetDenoms then targetDenoms @ [denom] else targetDenoms)"

text \<open>
  The denoms to count, the preferred one, and the chain, whose metadata may be filled in from
  cosmos.directory. That call passes the target denom, which is still empty.
\<close>

definition metadata_denoms :: "Metadata \<Rightarrow> string list \<times> string" where
  "metadata_denoms md =
     (addDenom (md_Display md) (addDenom (md_Base md) []),
      if md_Display md = [] then md_Base md else md_Display md)"

definition native_denoms :: "ChainConfig \<Rightarrow> (string list \<times> string) \<times> ChainConfig" where
  "native_denoms cc =
     (case cc_denomMetadata cc of
        Some md \<Rightarrow> (metadata_denoms md, cc)
      | None \<Rightarrow>
          if hasCosmosDirectoryData cc then
            (case getBankMetadataFromCosmosDirectory cc [] of
               Some bankMeta \<Rightarrow> (metadata_denoms bankMeta, cc\<lparr>cc_denomMetadata := Some bankMeta\<rparr>)
             | None \<Rightarrow> (([], []), cc))
          else (([], []), cc))"

definition inferred_denoms :: "DecCoin list \<Rightarrow> DecCoin list \<Rightarrow> string list \<Rightarrow> string list" where
  "inferred_denoms selfRewards commission targetDenoms =
     (if targetDenoms \<noteq> [] then targetDenoms
      else if selfRewards \<noteq> [] then addDenom (dc_Denom (hd selfRewards)) []
      else fold (\<lambda>coin ds. if \<not> HasPrefix (dc_Denom coin) ''ibc/'' then addDenom (dc_Denom coin) ds else ds) commission [])"

fun total_amount :: "dec_ops \<Rightarrow> DecCoin list \<Rightarrow> int \<Rightarrow> int option" where
  "total_amount ops [] t = Some t"
| "total_amount ops (coin # coins) t = do { t' \<leftarrow> dec_Add ops t (dc_Amount coin); total_amount ops coins t' }"

text \<open>The value against the threshold.\<close>

definition rewards_edge :: "gotime \<Rightarrow> ChainConfig \<Rightarrow> string \<Rightarrow> f64 \<Rightarrow> sys \<Rightarrow> verdict" where
  "rewards_edge now cc who totalRewardsConverted s =
     (let threshold = floatVal (ac_UnclaimedRewardsThreshold (cc_Alerts cc));
          alertID = ''UnclaimedRewards_'' @ cc_ValAddress cc;
          currency = pc_Currency (cfg_PriceConversion (td s))
      in if f64_lt threshold totalRewardsConverted then
           (if \<not> exist (alarms s) (cc_name cc) alertID then
              finish (True, False) cc (alert now (cc_name cc)
                (who @ '' has more than '' @ fmt_fixed 0 threshold @ '' ('' @ fmt_fixed 0 totalRewardsConverted @
                 '' currently) '' @ currency @ '' unclaimed rewards on '' @ cc_name cc) ''warning'' False (Some alertID) s)
            else finish (False, False) cc s)
         else
           (if exist (alarms s) (cc_name cc) alertID then
              finish (False, True) cc (alert now (cc_name cc)
                (who @ '' has more than '' @ fmt_fixed 0 threshold @ '' '' @ currency @
                 '' unclaimed rewards on '' @ cc_name cc) ''warning'' True (Some alertID) s)
            else finish (False, False) cc s))"

text \<open>
  The coins to price: \<open>None\<close> when the function returns before it asks for a price. The flag tells
  whether they are in display units.
\<close>

definition native_coins ::
  "dec_ops \<Rightarrow> ChainConfig \<Rightarrow> ValInfo \<Rightarrow> (ChainConfig \<times> (DecCoin list \<times> bool) option) option" where
  "native_coins ops cc vi =
     (let selfRewards = sliceVal (vi_SelfDelegationRewards vi); commission = sliceVal (vi_Commission vi)
      in if selfRewards = [] \<and> commission = [] then Some (cc, None)
         else
           let ((denoms0, target0), cc1) = native_denoms cc;
               targetDenoms = inferred_denoms selfRewards commission denoms0;
               targetDenom = (if target0 = [] \<and> targetDenoms \<noteq> [] then hd targetDenoms else target0)
           in if targetDenoms = [] \<or> targetDenom = [] then Some (cc1, None)
              else
                let natives = filter (\<lambda>coin. dc_Denom coin \<in> set targetDenoms) (selfRewards @ commission)
                in if natives = [] then Some (cc1, None)
                   else case cc_denomMetadata cc1 of
                     None \<Rightarrow> Some (cc1, Some (natives, False))
                   | Some md \<Rightarrow>
                       do { res \<leftarrow> ConvertDecCoinToDisplayUnit ops natives md;
                            Some (cc1, Some (case res of Inl _ \<Rightarrow> (natives, False) | Inr cs \<Rightarrow> (cs, True))) })"

text \<open>\<open>getPrice\<close> is the method of the price client; it also changes the program's cache.\<close>

definition evaluateUnclaimedRewardsAlert ::
  "dec_ops \<Rightarrow> (gotime \<Rightarrow> string \<Rightarrow> cached TenderdutyCache \<Rightarrow> (string + CryptoPrice) \<times> cached TenderdutyCache) \<Rightarrow>
   gotime \<Rightarrow> ChainConfig \<Rightarrow> sys \<Rightarrow> cached TenderdutyCache \<Rightarrow> (verdict \<times> cached TenderdutyCache) option" where
  "evaluateUnclaimedRewardsAlert ops getPrice now cc s cache =
     do { vi \<leftarrow> cc_valInfo cc;
          (cc1, coins) \<leftarrow> native_coins ops cc vi;
          (case coins of
             None \<Rightarrow> Some (((False, False), cc1, s), cache)
           | Some (natives, convertedToDisplay) \<Rightarrow>
               do { totalAmount \<leftarrow> total_amount ops natives 0;
                    (if totalAmount = 0 \<or> cc_denomMetadata cc1 \<noteq> None \<and> \<not> convertedToDisplay
                     then Some (((False, False), cc1, s), cache)
                     else case getPrice now (cc_Slug cc1) cache of
                       (Inr coinPrice, cache') \<Rightarrow>
                         if convertedToDisplay
                         then Some (rewards_edge now cc1 (vi_Moniker vi)
                                (f64_mul (dec_MustFloat64 ops totalAmount) (cp_Price coinPrice)) s, cache')
                         else Some (((False, False), cc1, s), cache')
                     | (Inl _, cache') \<Rightarrow> Some (((False, False), cc1, s), cache')) }) }"

section \<open>Changes are announced once per refresh\<close>

definition stake_ready :: "ChainConfig \<Rightarrow> bool" where
  "stake_ready cc \<longleftrightarrow> cc_valInfo cc \<noteq> None \<and>
     (case cc_lastValInfo cc of None \<Rightarrow> False | Some prev \<Rightarrow> f64_lt (Fin 0) (vi_DelegatedTokens prev))"

definition stake_changed :: "ChainConfig \<Rightarrow> bool" where
  "stake_changed cc =
     (let change = stake_change (the (cc_valInfo cc)) (the (cc_lastValInfo cc))
      in f64_le (stake_threshold (cc_Alerts cc) change) (f64_abs change))"

interpretation stake: threshold_alert evaluateStakeChangeAlert stake_ready stake_changed
  "\<lambda>v. ''StakeChange_'' @ v" "\<lambda>cc. ''warning''" "\<lambda>cc. stake_message cc (the (cc_valInfo cc)) (the (cc_lastValInfo cc))"
  by unfold_locales
    (auto simp: evaluateStakeChangeAlert_def stake_ready_def stake_changed_def Let_def raise_or_clear_edge
      split: option.splits)

definition commission_changed :: "ChainConfig \<Rightarrow> bool" where
  "commission_changed cc =
     f64_le (floatVal (ac_CommissionChangeThreshold (cc_Alerts cc)))
       (f64_abs (commission_change (the (cc_valInfo cc)) (the (cc_lastValInfo cc))))"

interpretation commission: threshold_alert evaluateCommissionChangeAlert
  "\<lambda>cc. cc_valInfo cc \<noteq> None \<and> cc_lastValInfo cc \<noteq> None" commission_changed
  "\<lambda>v. ''CommissionChange_'' @ v" "\<lambda>cc. ''warning''" "\<lambda>cc. commission_message (the (cc_valInfo cc)) (the (cc_lastValInfo cc))"
  by unfold_locales
    (auto simp: evaluateCommissionChangeAlert_def commission_changed_def Let_def raise_or_clear_edge
      split: option.splits)

lemma announced_steady: "\<forall>x\<in>set xs. x = (p, False) \<Longrightarrow> announced p xs = [] \<and> active_after p xs = p"
  by (induction xs) auto

lemma announced_pulse:
  assumes "xs \<noteq> []" "\<forall>x\<in>set xs. x = (True, False)" "ys \<noteq> []" "\<forall>y\<in>set ys. y = (b, False)"
  shows "announced False (xs @ ys) = (if b then [True] else [True, False])" "active_after False (xs @ ys) = b"
proof -
  obtain xs' where xs: "xs = (True, False) # xs'" using assms(1,2) by (cases xs) auto
  obtain ys' where ys: "ys = (b, False) # ys'" using assms(3,4) by (cases ys) auto
  have s: "announced True (xs' @ zs) = announced True zs" "active_after True (xs' @ zs) = active_after True zs" for zs
    using assms(2) unfolding xs by (induction xs') auto
  show "announced False (xs @ ys) = (if b then [True] else [True, False])" "active_after False (xs @ ys) = b"
    using announced_steady [of ys' b] assms(4) unfolding xs ys by (cases b; simp add: s)+
qed

lemma remember_simps [simp]:
  "cc_name (remember_valinfo cc) = cc_name cc" "cc_ValAddress (remember_valinfo cc) = cc_ValAddress cc"
  "cc_Alerts (remember_valinfo cc) = cc_Alerts cc" "cc_valInfo (remember_valinfo cc) = cc_valInfo cc"
  "silenceStatus now (remember_valinfo cc) = silenceStatus now cc"
  by (simp_all add: remember_valinfo_def silenceStatus_def split: option.split)

lemma no_change_after_refresh:
  assumes "cc_valInfo cc = Some vi" "vi_DelegatedTokens vi = Fin x" "0 < x"
    "floatVal (ac_StakeChangeIncreaseThreshold (cc_Alerts cc)) = Fin t"
  shows "stake_ready (remember_valinfo cc)" "stake_changed (remember_valinfo cc) \<longleftrightarrow> t \<le> 0"
proof -
  obtain prev where p: "cc_lastValInfo (remember_valinfo cc) = Some prev" "vi_DelegatedTokens prev = Fin x"
    using assms(1,2) by (simp add: remember_valinfo_def)
  have z: "stake_change vi prev = Fin 0"
    using assms(2,3) p(2) by (simp add: stake_change_def f64_sub_def f64_round_def)
  show "stake_ready (remember_valinfo cc)" "stake_changed (remember_valinfo cc) \<longleftrightarrow> t \<le> 0"
    using assms p z by (simp_all add: stake_ready_def stake_changed_def stake_threshold_def)
qed

text \<open>
  C34: A stake change is announced once and resolved by the next refresh. While the validator info
  differs from the remembered copy by at least the threshold, one firing message is dispatched
  however often the loop runs; once the next health check has copied the unchanged validator info,
  the first evaluation dispatches the resolution, provided the increase threshold is positive. A
  threshold that is not set counts as zero, and then the alert stays active for good.
\<close>

theorem stake_change_lasts_one_refresh:
  assumes cc: "cc_name cc = k" "cc_ValAddress cc = v" "stake_ready cc" "stake_changed cc"
    and vi: "cc_valInfo cc = Some vi" "vi_DelegatedTokens vi = Fin x" "0 < x"
    and thr: "floatVal (ac_StakeChangeIncreaseThreshold (cc_Alerts cc)) = Fin t"
    and quiet: "\<forall>now\<in>set (ts @ ts'). \<not> IsZero now \<and> \<not> silenced now cc" "ts \<noteq> []" "ts' \<noteq> []"
    and s: "alarms_ok (alarms s)" "\<not> exist (alarms s) k (''StakeChange_'' @ v)"
  shows "\<exists>s' out. watch_run evaluateStakeChangeAlert k
      (map (\<lambda>now. (now, cc)) ts @ map (\<lambda>now. (now, remember_valinfo cc)) ts') s = Some s' \<and>
    alertChan s' = alertChan s @ out \<and>
    map (\<lambda>m. (m_uniqueId m, \<not> m_resolved m)) out =
      map (Pair (''StakeChange_'' @ v)) (if t \<le> 0 then [True] else [True, False]) \<and>
    exist (alarms s') k (''StakeChange_'' @ v) = (t \<le> 0)"
proof -
  let ?obs = "map (\<lambda>now. (now, cc)) ts @ map (\<lambda>now. (now, remember_valinfo cc)) ts'"
  let ?seen = "map (\<lambda>(now, cc). (stake_changed cc, silenced now cc)) ?obs"
  note after = no_change_after_refresh [OF vi thr]
  have seen: "?seen = map (\<lambda>now. (stake_changed cc, silenced now cc)) ts @
      map (\<lambda>now. (stake_changed (remember_valinfo cc), silenced now cc)) ts'" by simp
  have pulse: "announced False ?seen = (if t \<le> 0 then [True] else [True, False])" "active_after False ?seen = (t \<le> 0)"
    unfolding seen using cc(4) after(2) quiet by (intro announced_pulse; auto)+
  have "\<forall>(now, cc')\<in>set ?obs. cc_name cc' = k \<and> cc_ValAddress cc' = v \<and> stake_ready cc' \<and> \<not> IsZero now"
    using cc after(1) quiet(1) by auto
  from stake.run [OF this s(1)] s(2) pulse show ?thesis by simp
qed

section \<open>Rewards without metadata\<close>

text \<open>
  Without bank metadata the rewards alert cannot fire. The denom the code infers from the
  rewards themselves is of no use: as long as the chain has no metadata and the directory has none
  to offer, an evaluation changes neither the chain nor the program, whatever the coins are worth.
\<close>

lemma inferred_denom_never_alerts:
  assumes "cc_denomMetadata cc = None" "getBankMetadataFromCosmosDirectory cc [] = None"
    "evaluateUnclaimedRewardsAlert ops getPrice now cc s cache = Some ((r, cc', s'), cache')"
  shows "r = (False, False) \<and> cc' = cc \<and> s' = s"
proof -
  have nd: "native_denoms cc = (([], []), cc)"
    using assms(1,2) by (simp add: native_denoms_def)
  have nc: "native_coins ops cc vi = Some (cc, None) \<or> (\<exists>coins. native_coins ops cc vi = Some (cc, Some (coins, False)))" for vi
    using assms(1) by (auto simp: native_coins_def nd Let_def)
  obtain vi where vi: "cc_valInfo cc = Some vi"
    using assms(3) by (auto simp: evaluateUnclaimedRewardsAlert_def bind_eq_Some_conv)
  from nc [of vi] show ?thesis
  proof
    assume "native_coins ops cc vi = Some (cc, None)"
    then show ?thesis using assms(3) by (simp add: evaluateUnclaimedRewardsAlert_def vi)
  next
    assume "\<exists>coins. native_coins ops cc vi = Some (cc, Some (coins, False))"
    then obtain coins where n: "native_coins ops cc vi = Some (cc, Some (coins, False))" ..
    then obtain t where "total_amount ops coins 0 = Some t"
      using assms(3) by (auto simp: evaluateUnclaimedRewardsAlert_def vi bind_eq_Some_conv)
    with n assms(1,3) show ?thesis
      by (cases "getPrice now (cc_Slug cc) cache")
        (simp add: evaluateUnclaimedRewardsAlert_def vi split: if_splits sum.splits)
  qed
qed

section \<open>Examples\<close>

definition staked_chain :: "rat \<Rightarrow> ChainConfig" where
  "staked_chain x = sample_chain\<lparr>cc_valInfo := Some (sample_valinfo\<lparr>vi_DelegatedTokens := Fin x\<rparr>),
     cc_lastValInfo := Some (sample_valinfo\<lparr>vi_DelegatedTokens := Fin 4\<rparr>),
     cc_Alerts := sample_alerts\<lparr>ac_StakeChangeIncreaseThreshold := Some (Fin (1 / 4)), ac_StakeChangeDropThreshold := Some (Fin (1 / 4))\<rparr>\<rparr>"

theorem stake_change_lasts_one_refresh_witness:
  "\<exists>s' out. watch_run evaluateStakeChangeAlert ''net''
      [(noon, staked_chain 2), (noon, staked_chain 2), (noon, remember_valinfo (staked_chain 2))]
      (sample_sys sample_chain no_alarms) = Some s' \<and> alertChan s' = out \<and> map m_resolved out = [False, True]"
proof -
  let ?cc = "staked_chain 2"
  have r2: "rnd (- 2) = - 2" "rnd (- (1 / 2)) = - (1 / 2)"
    using rnd_int [of "- 2"] rnd_exact_pos [of 1 "- 1"] by (simp_all add: rnd_minus power_int_minus)
  have cc: "cc_name ?cc = ''net''" "cc_ValAddress ?cc = ''netvaloper1xyz''" "stake_ready ?cc" "stake_changed ?cc"
    "cc_valInfo ?cc = Some (sample_valinfo\<lparr>vi_DelegatedTokens := Fin 2\<rparr>)"
    "floatVal (ac_StakeChangeIncreaseThreshold (cc_Alerts ?cc)) = Fin (1 / 4)"
    "\<forall>now\<in>set ([noon, noon] @ [noon]). \<not> IsZero now \<and> \<not> silenced now ?cc"
    using r2 by (simp_all add: staked_chain_def sample_chain_def stake_ready_def stake_changed_def stake_change_def
        stake_threshold_def f64_sub_def f64_round_def floatVal_def silenceStatus_def)
  have "\<not> exist (alarms (sample_sys sample_chain no_alarms)) ''net'' (''StakeChange_'' @ ''netvaloper1xyz'')"
    by (simp add: not_exist_no_alarms)
  from stake_change_lasts_one_refresh [OF cc(1-5) _ _ cc(6,7) _ _ _ this, of 2] show ?thesis
    by (auto simp: alarms_ok_no_alarms simp del: watch_run.simps)
qed

definition unet_coins :: "DecCoin list" where
  "unet_coins = [\<lparr>dc_Denom = ''unet'', dc_Amount = 10 ^ 40\<rparr>]"

definition rewards_chain :: ChainConfig where
  "rewards_chain = sample_chain\<lparr>cc_valInfo := Some (sample_valinfo\<lparr>vi_SelfDelegationRewards := Some unet_coins\<rparr>)\<rparr>"

definition ten_dollars :: "gotime \<Rightarrow> string \<Rightarrow> cached TenderdutyCache \<Rightarrow> (string + CryptoPrice) \<times> cached TenderdutyCache" where
  "ten_dollars now slug cache = (Inr \<lparr>cp_Name = [], cp_Slug = slug, cp_Symbol = [],
     cp_Currency = ''USD'', cp_Price = Fin 10, cp_LastUpdated = now\<rparr>, cache)"

lemma inferred_denom_never_alerts_witness:
  "evaluateUnclaimedRewardsAlert sample_decs ten_dollars noon rewards_chain (sample_sys sample_chain no_alarms) [] =
     Some (((False, False), rewards_chain, sample_sys sample_chain no_alarms), [])"
proof -
  have c: "cc_denomMetadata rewards_chain = None" "cc_cosmosDirectoryData rewards_chain = None"
    "cc_valInfo rewards_chain = Some (sample_valinfo\<lparr>vi_SelfDelegationRewards := Some unet_coins\<rparr>)"
    "vi_Commission sample_valinfo = None"
    by (simp_all add: rewards_chain_def sample_chain_def sample_valinfo_def)
  have md: "getBankMetadataFromCosmosDirectory rewards_chain [] = None"
    by (simp add: c getBankMetadataFromCosmosDirectory_def getDenomMetadataFromCosmosDirectory_def)
  have "native_coins sample_decs rewards_chain (sample_valinfo\<lparr>vi_SelfDelegationRewards := Some unet_coins\<rparr>) =
      Some (rewards_chain, Some (unet_coins, False))"
    by (simp add: native_coins_def native_denoms_def hasCosmosDirectoryData_def c inferred_denoms_def addDenom_def unet_coins_def Let_def)
  then obtain r cc' s' where e: "evaluateUnclaimedRewardsAlert sample_decs ten_dollars noon rewards_chain (sample_sys sample_chain no_alarms) [] =
      Some ((r, cc', s'), [])"
    by (simp add: evaluateUnclaimedRewardsAlert_def c ten_dollars_def unet_coins_def sample_decs_def)
  from inferred_denom_never_alerts [OF c(1) md e] e show ?thesis by simp
qed

end
