(* ===== verification/WatchLoop.thy ===== *)
theory WatchLoop
  imports StakeAlerts Governance ConfigLoad
begin

text \<open>
  The goroutine \<^verbatim>\<open>watch\<close> of one chain (\<^verbatim>\<open>td2/alert.go\<close>): the loop that waits for the first validator
  info, and one round of the two-second loop that calls the evaluators in their order. The clock is
  read once per round here; the code reads it once per evaluator, within the same round.

  The locale \<open>chain_local\<close> is the contract of an evaluator towards the other chains: it may change
  the chain it is called for and the alarms under its name, and it sends messages about that chain
  only. All thirteen evaluators satisfy it, and so does the loop.
\<close>

section \<open>Waiting for validator info\<close>

definition not_yet :: "ChainConfig \<Rightarrow> bool" where
  "not_yet cc \<longleftrightarrow> (case cc_valInfo cc of None \<Rightarrow> True | Some vi \<Rightarrow> vi_Moniker vi = ''not connected'')"

text \<open>
  One second of the first loop: the chain as it was before the sleep and as it is after it. \<open>None\<close>
  is the end of the loop.
\<close>

definition wait_step :: "gotime \<Rightarrow> ChainConfig \<Rightarrow> ChainConfig \<Rightarrow> int \<times> sys \<Rightarrow> (int \<times> sys) option" where
  "wait_step now before cc st =
     (case st of (noNodesSec, s) \<Rightarrow>
        if not_yet before then
          let alertID = ''NoRPCEndpoints_'' @ cc_ValAddress cc;
              s' = (if boolVal (ac_AlertIfNoServers (cc_Alerts cc)) \<and> (cc_noNodes cc \<or> cc_noWsNodes cc) \<and>
                      wrap64 (60 * cfg_NodeDownMin (td s)) \<le> noNodesSec \<and> \<not> exist (alarms s) (cc_name cc) alertID
                    then alert now (cc_name cc) (''no RPC endpoints are working for '' @ cc_ChainId cc) ''critical''
                           False (Some alertID) s
                    else s)
          in Some (wrap64 (noNodesSec + 1), s')
        else None)"

fun wait_run :: "string \<Rightarrow> (gotime \<times> ChainConfig) list \<Rightarrow> int \<times> sys \<Rightarrow> (int \<times> sys) option" where
  "wait_run k [] st = Some st"
| "wait_run k ((now, cc) # obs) st =
     do { (sec, s) \<leftarrow> wait_step now cc cc (fst st, put_chain k cc (snd st)); wait_run k obs (sec, s) }"

section \<open>One round\<close>

record watch_world =
  ww_ops :: dec_ops
  ww_getPrice :: "gotime \<Rightarrow> string \<Rightarrow> cached TenderdutyCache \<Rightarrow> (string + CryptoPrice) \<times> cached TenderdutyCache"
  ww_zone :: int

type_synonym evaluator = "ChainConfig \<Rightarrow> sys \<Rightarrow> verdict option"

text \<open>An evaluator works on the chain \<^verbatim>\<open>td.Chains\<close> points to.\<close>

definition run_eval :: "string \<Rightarrow> evaluator \<Rightarrow> sys \<Rightarrow> sys option" where
  "run_eval k ev s = do { cc \<leftarrow> chain_of s k; (r, cc', s') \<leftarrow> ev cc s; Some (put_chain k cc' s') }"

fun pass :: "string \<Rightarrow> ((AlertConfig \<Rightarrow> bool) \<times> evaluator) list \<Rightarrow> sys \<Rightarrow> sys option" where
  "pass k [] s = Some s"
| "pass k ((on, ev) # evs) s =
     do { cc \<leftarrow> chain_of s k;
          s' \<leftarrow> (if on (cc_Alerts cc) then run_eval k ev s else Some s);
          pass k evs s' }"

definition threshold_evaluators :: "gotime \<Rightarrow> ((AlertConfig \<Rightarrow> bool) \<times> evaluator) list" where
  "threshold_evaluators now =
    [(\<lambda>a. boolVal (ac_StalledAlerts a), \<lambda>cc s. Some (evaluateChainStalledAlert now cc s)),
     (\<lambda>a. boolVal (ac_AlertIfInactive a), evaluateValidatorInactiveAlert now),
     (\<lambda>a. boolVal (ac_ConsecutiveAlerts a), evaluateConsecutiveBlocksMissedAlert now),
     (\<lambda>a. boolVal (ac_PercentageAlerts a), evaluatePercentageBlocksMissedAlert now),
     (\<lambda>a. boolVal (ac_ConsecutiveEmptyAlerts a), evaluateConsecutiveEmptyBlocksAlert now),
     (\<lambda>a. boolVal (ac_EmptyPercentageAlerts a), evaluatePercentageEmptyBlocksAlert now),
     (\<lambda>a. True, \<lambda>cc s. Some (evaluateRPCNodeDownAlert now cc s)),
     (\<lambda>a. True, \<lambda>cc s. Some (evaluateRPCNodeLaggingAlert now cc s)),
     (\<lambda>a. boolVal (ac_StakeChangeAlerts a), evaluateStakeChangeAlert now),
     (\<lambda>a. boolVal (ac_CommissionChangeAlerts a), evaluateCommissionChangeAlert now)]"

definition endpoints_round :: "gotime \<Rightarrow> string \<Rightarrow> int \<times> sys \<Rightarrow> (int \<times> sys) option" where
  "endpoints_round now k st =
     (case st of (noNodesSec, s) \<Rightarrow>
        do { cc \<leftarrow> chain_of s k;
             (if boolVal (ac_AlertIfNoServers (cc_Alerts cc)) then
                case evaluateNoRPCEndpointsAlert now cc noNodesSec s of
                  (sec, r, cc', s') \<Rightarrow> Some (sec, put_chain k cc' s')
              else Some (noNodesSec, s)) })"

definition rewards_round ::
  "watch_world \<Rightarrow> gotime \<Rightarrow> string \<Rightarrow> cached TenderdutyCache \<times> sys \<Rightarrow> (cached TenderdutyCache \<times> sys) option" where
  "rewards_round w now k st =
     (case st of (cache, s) \<Rightarrow>
        do { cc \<leftarrow> chain_of s k;
             (if boolVal (ac_UnclaimedRewardsAlerts (cc_Alerts cc)) \<and> pc_Enabled (cfg_PriceConversion (td s)) then
                do { vi \<leftarrow> cc_valInfo cc;
                     (if vi_SelfDelegationRewards vi \<noteq> None \<and> vi_Commission vi \<noteq> None then
                        do { ((r, cc', s'), cache') \<leftarrow>
                               evaluateUnclaimedRewardsAlert (ww_ops w) (ww_getPrice w) now cc s cache;
                             Some (cache', put_chain k cc' s') }
                      else Some (cache, s)) }
              else Some (cache, s)) })"

definition tick_stats :: "gotime \<Rightarrow> string \<Rightarrow> sys \<Rightarrow> sys option" where
  "tick_stats now k s =
     (if cfg_Prom (td s) then
        do { cc \<leftarrow> chain_of s k;
             u \<leftarrow> mkUpdate cc metricLastBlockSecondsNotFinal (dur_Seconds (time_Sub now (cc_lastBlockTime cc))) [];
             us \<leftarrow> those (map (\<lambda>n. mkUpdate cc metricNodeDownSeconds (dur_Seconds (time_Sub now (nd_downSince n))) (nd_Url n))
                     (filter (\<lambda>n. nd_down n \<and> \<not> IsZero (nd_downSince n)) (cc_Nodes cc)));
             Some (s\<lparr>statsChan := statsChan s @ u # us\<rparr>) }
      else Some s)"

definition watch_tick ::
  "watch_world \<Rightarrow> string \<Rightarrow> gotime \<Rightarrow> int \<times> cached TenderdutyCache \<times> sys \<Rightarrow> (int \<times> cached TenderdutyCache \<times> sys) option" where
  "watch_tick w k now st =
     (case st of (noNodesSec, cache, s) \<Rightarrow>
        do { (sec, s1) \<leftarrow> endpoints_round now k (noNodesSec, s);
             s2 \<leftarrow> pass k (threshold_evaluators now) s1;
             (cache', s3) \<leftarrow> rewards_round w now k (cache, s2);
             s4 \<leftarrow> pass k [(\<lambda>a. boolVal (ac_GovernanceAlerts a),
                            \<lambda>cc s. Some (evaluateUnvotedGovernanceProposalAlert (ww_zone w) now cc s))] s3;
             s5 \<leftarrow> tick_stats now k s4;
             Some (sec, cache', s5) })"

section \<open>What an evaluator may touch\<close>

definition about :: "string \<Rightarrow> alertMsg \<Rightarrow> bool" where
  "about k m \<longleftrightarrow> (\<exists>i. m_chain m = k @ '' ('' @ i @ '')'')"

definition touches_only :: "string \<Rightarrow> sys \<Rightarrow> sys \<Rightarrow> bool" where
  "touches_only k s s' \<longleftrightarrow>
     (\<forall>j. j \<noteq> k \<longrightarrow> chain_of s' j = chain_of s j) \<and>
     (\<forall>j i. j \<noteq> k \<longrightarrow> gm2_get (AllAlarms (alarms s')) j i = gm2_get (AllAlarms (alarms s)) j i) \<and>
     (\<forall>d. sent_of d (alarms s') = sent_of d (alarms s)) \<and>
     (\<exists>ms. alertChan s' = alertChan s @ ms \<and> (\<forall>m\<in>set ms. about k m)) \<and>
     (\<exists>us. statsChan s' = statsChan s @ us \<and> (\<forall>u\<in>set us. pu_name u = k)) \<and>
     updateChan s' = updateChan s"

lemma touches_refl [simp]: "touches_only k s s"
  by (simp add: touches_only_def)

lemma touches_trans: "touches_only k s s1 \<Longrightarrow> touches_only k s1 s2 \<Longrightarrow> touches_only k s s2"
  by (fastforce simp: touches_only_def)

lemma touches_put_chain [simp]: "touches_only k s (put_chain k cc s)"
  by (simp add: touches_only_def)

lemma gm2_get_alert_other:
  "j \<noteq> k \<Longrightarrow> gm2_get (AllAlarms (alarms (alert now k msg sev r i s))) j a = gm2_get (AllAlarms (alarms s)) j a"
  by (auto simp: alert_def Let_def split: option.splits prod.splits)

lemma touches_alert [simp]: "touches_only k s (alert now k msg sev r i s)"
proof -
  have "\<exists>ms. alertChan (alert now k msg sev r i s) = alertChan s @ ms \<and> (\<forall>m\<in>set ms. about k m)"
    by (auto simp: alert_def buildAlertMsg_def recordAlertHistory_def about_def Let_def split: option.splits)
  then show ?thesis by (simp add: touches_only_def gm2_get_alert_other)
qed

lemma touches_alert_to: "touches_only k s0 s \<Longrightarrow> touches_only k s0 (alert now k msg sev r i s)"
  by (erule touches_trans) (rule touches_alert)

text \<open>The contract of an evaluator.\<close>

locale chain_local =
  fixes ev :: evaluator
  assumes local: "ev cc s = Some (r, cc', s') \<Longrightarrow> touches_only (cc_name cc) s s' \<and> cc_name cc' = cc_name cc"
begin

lemma step:
  assumes "chain_of s k = Some cc" "cc_name cc = k" "run_eval k ev s = Some s'"
  shows "touches_only k s s' \<and> (\<exists>cc'. chain_of s' k = Some cc' \<and> cc_name cc' = k)"
proof -
  obtain r cc' s1 where e: "ev cc s = Some (r, cc', s1)" "s' = put_chain k cc' s1"
    using assms by (auto simp: run_eval_def bind_eq_Some_conv)
  with local [OF e(1)] assms(2) show ?thesis
    by (auto intro: touches_trans)
qed

end

lemma touches_raise_or_clear:
  "raise_or_clear now cc b i sev msg s = Some (r, s') \<Longrightarrow> touches_only (cc_name cc) s s'"
  by (auto simp: raise_or_clear_def bind_eq_Some_conv split: if_splits)

lemma finish_parts: "finish r cc s = (r', cc', s') \<Longrightarrow> s' = s \<and> cc_name cc' = cc_name cc"
  by (auto simp: finish_def)

lemma local_raise_or_clear:
  "do { (r, s') \<leftarrow> raise_or_clear now cc b i sev msg s; Some (finish r cc s') } = Some (r, cc', s') \<Longrightarrow>
   touches_only (cc_name cc) s s' \<and> cc_name cc' = cc_name cc"
  by (auto simp: bind_eq_Some_conv dest!: touches_raise_or_clear finish_parts)

lemma touches_clearNoBlocks_at: "touches_only (cc_name cc) s (clearNoBlocks_at now cc ks s)"
  by (induction now cc ks s rule: clearNoBlocks_at.induct) (auto intro: touches_trans [OF touches_alert])

lemma touches_clearNoBlocks [simp]: "touches_only (cc_name cc) s (clearNoBlocks now cc s)"
  by (simp add: clearNoBlocks_def touches_clearNoBlocks_at split: option.split)

lemma touches_node_loop:
  assumes "\<And>n s. touches_only k s (snd (snd (step n s)))"
  shows "node_loop step ns s = (r, ns', s') \<Longrightarrow> touches_only k s s'"
proof (induction ns arbitrary: s r ns' s')
  case (Cons n ns)
  obtain q n1 s1 where st: "step n s = (q, n1, s1)" by (metis prod.collapse)
  obtain q2 ns2 s2 where lp: "node_loop step ns s1 = (q2, ns2, s2)" by (metis prod.collapse)
  have "touches_only k s s1" using assms [of s n] st by simp
  moreover have "touches_only k s1 s2" by (rule Cons.IH [OF lp])
  ultimately show ?case using Cons.prems st lp by (auto simp: split_def intro: touches_trans)
qed simp

lemma touches_node_edge: "touches_only (cc_name cc) s (snd (node_edge now cc due up i msg s))"
  by (simp add: node_edge_def)

lemma touches_raise_unvoted: "touches_only (cc_name cc) s (snd (raise_unvoted now cc ps (al, s)))"
  by (induction now cc ps "(al, s)" arbitrary: al s rule: raise_unvoted.induct)
    (auto intro: touches_trans [OF touches_alert])

lemma touches_resolve_voted: "touches_only (cc_name cc) s (snd (resolve_voted zone now cc rps (res, s)))"
  by (induction zone now cc rps "(res, s)" arbitrary: res s rule: resolve_voted.induct)
    (auto intro: touches_trans [OF touches_alert])

section \<open>All evaluators are local\<close>

interpretation l_endpoints: chain_local "\<lambda>cc s. Some (snd (evaluateNoRPCEndpointsAlert now cc n s))"
  by unfold_locales (auto simp: evaluateNoRPCEndpointsAlert_def Let_def finish_def split: if_splits)

interpretation l_stalled: chain_local "\<lambda>cc s. Some (evaluateChainStalledAlert now cc s)"
  by unfold_locales (auto simp: evaluateChainStalledAlert_def Let_def finish_def split: if_splits)

interpretation l_inactive: chain_local "evaluateValidatorInactiveAlert now"
  by unfold_locales
    (auto simp: evaluateValidatorInactiveAlert_def Let_def finish_def bind_eq_Some_conv split: if_splits option.splits)

interpretation l_missed: chain_local "evaluateConsecutiveBlocksMissedAlert now"
  by unfold_locales (simp add: evaluateConsecutiveBlocksMissedAlert_def local_raise_or_clear)

interpretation l_missed_share: chain_local "evaluatePercentageBlocksMissedAlert now"
  by unfold_locales
    (auto simp: evaluatePercentageBlocksMissedAlert_def bind_eq_Some_conv dest!: touches_raise_or_clear finish_parts)

interpretation l_empty: chain_local "evaluateConsecutiveEmptyBlocksAlert now"
  by unfold_locales (simp add: evaluateConsecutiveEmptyBlocksAlert_def local_raise_or_clear)

interpretation l_empty_share: chain_local "evaluatePercentageEmptyBlocksAlert now"
  by unfold_locales (simp add: evaluatePercentageEmptyBlocksAlert_def Let_def local_raise_or_clear)

interpretation l_down: chain_local "\<lambda>cc s. Some (evaluateRPCNodeDownAlert now cc s)"
proof unfold_locales
  fix cc s r cc' s'
  assume "Some (evaluateRPCNodeDownAlert now cc s) = Some (r, cc', s')"
  moreover obtain q ns s1 where lp: "node_loop (node_down_step now cc) (cc_Nodes cc) s = (q, ns, s1)" by (metis prod.collapse)
  moreover have "touches_only (cc_name cc) s s1"
    by (rule touches_node_loop [OF _ lp]) (simp add: node_down_step_def Let_def split_def touches_node_edge)
  ultimately show "touches_only (cc_name cc) s s' \<and> cc_name cc' = cc_name cc"
    by (auto simp: evaluateRPCNodeDownAlert_def finish_def)
qed

interpretation l_lag: chain_local "\<lambda>cc s. Some (evaluateRPCNodeLaggingAlert now cc s)"
proof unfold_locales
  fix cc s r cc' s'
  assume "Some (evaluateRPCNodeLaggingAlert now cc s) = Some (r, cc', s')"
  moreover obtain q ns s1 where lp: "node_loop (node_lag_step now cc) (cc_Nodes cc) s = (q, ns, s1)" by (metis prod.collapse)
  moreover have "touches_only (cc_name cc) s s1"
    by (rule touches_node_loop [OF _ lp]) (simp add: node_lag_step_def Let_def split_def touches_node_edge)
  ultimately show "touches_only (cc_name cc) s s' \<and> cc_name cc' = cc_name cc"
    by (auto simp: evaluateRPCNodeLaggingAlert_def finish_def)
qed

interpretation l_stake: chain_local "evaluateStakeChangeAlert now"
  by unfold_locales
    (auto simp: evaluateStakeChangeAlert_def Let_def bind_eq_Some_conv split: option.splits if_splits
      dest!: touches_raise_or_clear finish_parts)

interpretation l_commission: chain_local "evaluateCommissionChangeAlert now"
  by unfold_locales
    (auto simp: evaluateCommissionChangeAlert_def Let_def bind_eq_Some_conv split: option.splits
      dest!: touches_raise_or_clear finish_parts)

interpretation l_governance: chain_local "\<lambda>cc s. Some (evaluateUnvotedGovernanceProposalAlert zone now cc s)"
proof unfold_locales
  fix cc s r cc' s'
  assume e: "Some (evaluateUnvotedGovernanceProposalAlert zone now cc s) = Some (r, cc', s')"
  obtain al s1 where a: "raise_unvoted now cc (cc_unvotedOpenGovProposals cc) (False, s) = (al, s1)" by force
  obtain res s2 where b: "resolve_voted zone now cc (gov_to_resolve cc s1) (False, s1) = (res, s2)" by force
  have "touches_only (cc_name cc) s s1" "touches_only (cc_name cc) s1 s2"
    using touches_raise_unvoted [of cc s now "cc_unvotedOpenGovProposals cc" False] a
      touches_resolve_voted [of cc s1 zone now "gov_to_resolve cc s1" False] b by simp_all
  with e show "touches_only (cc_name cc) s s' \<and> cc_name cc' = cc_name cc"
    by (auto simp: evaluateUnvotedGovernanceProposalAlert_def a b finish_def intro: touches_trans)
qed

lemma native_coins_chain: "native_coins ops cc vi = Some (cc1, x) \<Longrightarrow> cc1 = cc \<or> cc1 = snd (native_denoms cc)"
proof -
  assume "native_coins ops cc vi = Some (cc1, x)"
  moreover obtain ds d c where "native_denoms cc = ((ds, d), c)" by (metis prod.collapse)
  ultimately show ?thesis
    by (auto simp: native_coins_def Let_def bind_eq_Some_conv split: option.splits if_splits)
qed

lemma native_coins_name: "native_coins ops cc vi = Some (cc1, x) \<Longrightarrow> cc_name cc1 = cc_name cc"
  by (drule native_coins_chain) (auto simp: native_denoms_def split: option.split)

lemma rewards_edge_local: "rewards_edge now cc who v s = (r, cc', s') \<Longrightarrow> touches_only (cc_name cc) s s' \<and> cc_name cc' = cc_name cc"
  by (auto simp: rewards_edge_def Let_def finish_def split: if_splits)

lemma unclaimed_local:
  assumes "evaluateUnclaimedRewardsAlert ops getPrice now cc s cache = Some ((r, cc', s'), cache')"
  shows "touches_only (cc_name cc) s s' \<and> cc_name cc' = cc_name cc"
proof -
  obtain vi cc1 coins where vi: "cc_valInfo cc = Some vi" and n: "native_coins ops cc vi = Some (cc1, coins)"
    using assms by (auto simp: evaluateUnclaimedRewardsAlert_def bind_eq_Some_conv)
  obtain p cache1 where g: "getPrice now (cc_Slug cc1) cache = (p, cache1)" by force
  have "s' = s \<and> cc' = cc1 \<or> (\<exists>v. rewards_edge now cc1 (vi_Moniker vi) v s = (r, cc', s'))"
    using assms by (auto simp: evaluateUnclaimedRewardsAlert_def vi n g bind_eq_Some_conv
        split: option.splits if_splits sum.splits)
  then show ?thesis
  proof
    assume "s' = s \<and> cc' = cc1"
    then show ?thesis using native_coins_name [OF n] by simp
  next
    assume "\<exists>v. rewards_edge now cc1 (vi_Moniker vi) v s = (r, cc', s')"
    then obtain v where "rewards_edge now cc1 (vi_Moniker vi) v s = (r, cc', s')" ..
    from rewards_edge_local [OF this] native_coins_name [OF n] show ?thesis by simp
  qed
qed

section \<open>A round touches one chain\<close>

definition here :: "string \<Rightarrow> sys \<Rightarrow> bool" where
  "here k s \<longleftrightarrow> (\<exists>cc. chain_of s k = Some cc \<and> cc_name cc = k)"

lemma pass_local:
  assumes "\<forall>ev\<in>snd ` set evs. chain_local ev"
  shows "here k s \<Longrightarrow> pass k evs s = Some s' \<Longrightarrow> touches_only k s s' \<and> here k s'"
  using assms
proof (induction k evs s arbitrary: s' rule: pass.induct)
  case (2 k on ev evs s)
  obtain cc s1 where cc: "chain_of s k = Some cc" "cc_name cc = k"
      and s1: "(if on (cc_Alerts cc) then run_eval k ev s else Some s) = Some s1" "pass k evs s1 = Some s'"
    using 2 by (auto simp: here_def bind_eq_Some_conv)
  have one: "touches_only k s s1 \<and> here k s1"
  proof (cases "on (cc_Alerts cc)")
    case True
    then show ?thesis using chain_local.step [of ev s k cc s1] 2 cc s1(1) by (auto simp: here_def)
  next
    case False
    then show ?thesis using 2 s1(1) by simp
  qed
  then show ?case using "2.IH" [OF cc(1) s1(1)] 2 s1(2) by (auto intro: touches_trans)
qed simp

lemma threshold_evaluators_local: "\<forall>ev\<in>snd ` set (threshold_evaluators now). chain_local ev"
  by (simp add: threshold_evaluators_def l_stalled.chain_local_axioms l_inactive.chain_local_axioms
      l_missed.chain_local_axioms l_missed_share.chain_local_axioms l_empty.chain_local_axioms
      l_empty_share.chain_local_axioms l_down.chain_local_axioms l_lag.chain_local_axioms
      l_stake.chain_local_axioms l_commission.chain_local_axioms)

lemma endpoints_local:
  assumes "here k s" "endpoints_round now k (n, s) = Some (sec, s')"
  shows "touches_only k s s' \<and> here k s'"
proof -
  obtain cc where cc: "chain_of s k = Some cc" "cc_name cc = k" using assms(1) by (auto simp: here_def)
  obtain sec' r cc' s1 where e: "evaluateNoRPCEndpointsAlert now cc n s = (sec', r, cc', s1)" by (metis prod.collapse)
  have "touches_only k s s1 \<and> cc_name cc' = k"
    using l_endpoints.local [where now = now and n = n and cc = cc and s = s] e cc(2) by simp
  then show ?thesis using assms e cc
    by (auto simp: endpoints_round_def here_def intro: touches_trans split: if_splits)
qed

lemma rewards_local:
  assumes "here k s" "rewards_round w now k (cache, s) = Some (cache', s')"
  shows "touches_only k s s' \<and> here k s'"
proof -
  obtain cc where cc: "chain_of s k = Some cc" "cc_name cc = k" using assms(1) by (auto simp: here_def)
  have "s' = s \<or> (\<exists>r cc' s1. evaluateUnclaimedRewardsAlert (ww_ops w) (ww_getPrice w) now cc s cache = Some ((r, cc', s1), cache') \<and>
      s' = put_chain k cc' s1)"
    using assms(2) by (auto simp: rewards_round_def cc bind_eq_Some_conv split: if_splits)
  then show ?thesis
    using assms(1) cc(2) by (auto simp: here_def dest!: unclaimed_local intro: touches_trans)
qed

lemma mkUpdate_name: "mkUpdate cc m v u = Some p \<Longrightarrow> pu_name p = cc_name cc"
  by (auto simp: mkUpdate_def bind_eq_Some_conv)

lemma stats_local:
  assumes "here k s" "tick_stats now k s = Some s'"
  shows "touches_only k s s' \<and> here k s'"
proof (cases "cfg_Prom (td s)")
  case True
  obtain cc where cc: "chain_of s k = Some cc" "cc_name cc = k" using assms(1) by (auto simp: here_def)
  let ?ns = "filter (\<lambda>n. nd_down n \<and> \<not> IsZero (nd_downSince n)) (cc_Nodes cc)"
  obtain u us where u: "mkUpdate cc metricLastBlockSecondsNotFinal (dur_Seconds (time_Sub now (cc_lastBlockTime cc))) [] = Some u"
      "map (\<lambda>n. mkUpdate cc metricNodeDownSeconds (dur_Seconds (time_Sub now (nd_downSince n))) (nd_Url n)) ?ns = map Some us"
      "s' = s\<lparr>statsChan := statsChan s @ u # us\<rparr>"
    using assms(2) True by (auto simp: tick_stats_def cc bind_eq_Some_conv those_Some)
  have "pu_name x = k" if "x \<in> set us" for x
  proof -
    from that have "Some x \<in> set (map Some us)" by simp
    then have "Some x \<in> (\<lambda>n. mkUpdate cc metricNodeDownSeconds (dur_Seconds (time_Sub now (nd_downSince n))) (nd_Url n)) ` set ?ns"
      unfolding u(2) [symmetric] by (simp only: set_map)
    then obtain n :: NodeConfig where "Some x = mkUpdate cc metricNodeDownSeconds (dur_Seconds (time_Sub now (nd_downSince n))) (nd_Url n)"
      by (rule imageE) (rule that)
    from mkUpdate_name [OF this [symmetric]] cc(2) show ?thesis by simp
  qed
  then show ?thesis using assms(1) u(3) mkUpdate_name [OF u(1)] cc(2)
    by (auto simp: touches_only_def here_def)
next
  case False
  then show ?thesis using assms by (simp add: tick_stats_def)
qed

text \<open>
  C16: The monitors of different chains do not disturb each other. Whatever a round of \<^verbatim>\<open>watch\<close> finds,
  it leaves every other chain, every alarm recorded under another name and every notification
  record as they were, and all it sends are messages and metrics about its own chain.
\<close>

theorem watch_tick_touches_only_its_chain:
  assumes "chain_of s k = Some cc" "cc_name cc = k"
    and "watch_tick w k now (noNodesSec, cache, s) = Some (sec, cache', s')"
  shows "(\<forall>j. j \<noteq> k \<longrightarrow> chain_of s' j = chain_of s j) \<and>
    (\<forall>j i. j \<noteq> k \<longrightarrow> gm2_get (AllAlarms (alarms s')) j i = gm2_get (AllAlarms (alarms s)) j i) \<and>
    (\<forall>d. sent_of d (alarms s') = sent_of d (alarms s)) \<and>
    (\<exists>ms. alertChan s' = alertChan s @ ms \<and> (\<forall>m\<in>set ms. about k m)) \<and>
    (\<exists>us. statsChan s' = statsChan s @ us \<and> (\<forall>u\<in>set us. pu_name u = k)) \<and> updateChan s' = updateChan s"
proof -
  obtain s1 s2 s3 s4 where r: "endpoints_round now k (noNodesSec, s) = Some (sec, s1)"
      "pass k (threshold_evaluators now) s1 = Some s2" "rewards_round w now k (cache, s2) = Some (cache', s3)"
      "pass k [(\<lambda>a. boolVal (ac_GovernanceAlerts a),
          \<lambda>cc s. Some (evaluateUnvotedGovernanceProposalAlert (ww_zone w) now cc s))] s3 = Some s4"
      "tick_stats now k s4 = Some s'"
    using assms(3) by (auto simp: watch_tick_def bind_eq_Some_conv simp del: pass.simps)
  have "here k s" using assms(1,2) by (simp add: here_def)
  then have a: "touches_only k s s1 \<and> here k s1" using r(1) by (rule endpoints_local)
  then have b: "touches_only k s1 s2 \<and> here k s2" using r(2) pass_local [OF threshold_evaluators_local] by blast
  then have c: "touches_only k s2 s3 \<and> here k s3" using r(3) rewards_local by blast
  then have d: "touches_only k s3 s4 \<and> here k s4"
    using r(4) by (intro pass_local) (simp_all add: l_governance.chain_local_axioms del: pass.simps)
  then have e: "touches_only k s4 s'" using r(5) stats_local by blast
  have "touches_only k s s'" using a b c d e by (blast intro: touches_trans)
  then show ?thesis by (simp add: touches_only_def)
qed

section \<open>A round always ends\<close>

text \<open>
  With validator info an evaluator does not panic, and it leaves the info in place.
\<close>

locale chain_total = chain_local +
  assumes total: "cc_valInfo cc \<noteq> None \<Longrightarrow> \<exists>r cc' s'. ev cc s = Some (r, cc', s') \<and> cc_valInfo cc' = cc_valInfo cc"
begin

lemma runs:
  assumes "chain_of s k = Some cc" "cc_valInfo cc \<noteq> None"
  shows "\<exists>s' cc'. run_eval k ev s = Some s' \<and> chain_of s' k = Some cc' \<and> cc_valInfo cc' = cc_valInfo cc"
  using total [OF assms(2), of s] assms(1) by (auto simp: run_eval_def)

end

lemma finish_total: "\<exists>q cc' s'. Some (finish r cc s) = Some (q, cc', s') \<and> cc_valInfo cc' = cc_valInfo cc"
  by (simp add: finish_def)

lemma edge_total:
  "\<exists>q cc' s'. (let k = f cc; i = g cc in if b k i then Some (finish r1 cc (s1 k i)) else Some (finish r2 cc (s2 k i))) = Some (q, cc', s') \<and>
     cc_valInfo cc' = cc_valInfo cc"
  by (simp add: finish_def Let_def)

interpretation t_stalled: chain_total "\<lambda>cc s. Some (evaluateChainStalledAlert now cc s)"
  by unfold_locales (auto simp: evaluateChainStalledAlert_def Let_def finish_def)

interpretation t_inactive: chain_total "evaluateValidatorInactiveAlert now"
  by unfold_locales (auto simp: evaluateValidatorInactiveAlert_def Let_def finish_def split: option.split)

interpretation t_missed: chain_total "evaluateConsecutiveBlocksMissedAlert now"
  by unfold_locales (subst missed_row.eval_edge, assumption, rule edge_total)

interpretation t_missed_share: chain_total "evaluatePercentageBlocksMissedAlert now"
  by unfold_locales (subst missed_share.eval_edge, assumption, rule edge_total)

interpretation t_empty: chain_total "evaluateConsecutiveEmptyBlocksAlert now"
  by unfold_locales (subst empty_row.eval_edge, assumption, rule edge_total)

interpretation t_empty_share: chain_total "evaluatePercentageEmptyBlocksAlert now"
  by unfold_locales (subst empty_share.eval_edge, assumption, rule edge_total)

interpretation t_down: chain_total "\<lambda>cc s. Some (evaluateRPCNodeDownAlert now cc s)"
  by unfold_locales (simp add: evaluateRPCNodeDownAlert_def Let_def split_def finish_def)

interpretation t_lag: chain_total "\<lambda>cc s. Some (evaluateRPCNodeLaggingAlert now cc s)"
  by unfold_locales (simp add: evaluateRPCNodeLaggingAlert_def Let_def split_def finish_def)

interpretation t_stake: chain_total "evaluateStakeChangeAlert now"
proof unfold_locales
  fix cc :: ChainConfig and s
  assume vi: "cc_valInfo cc \<noteq> None"
  show "\<exists>r cc' s'. evaluateStakeChangeAlert now cc s = Some (r, cc', s') \<and> cc_valInfo cc' = cc_valInfo cc"
  proof (cases "stake_ready cc")
    case True
    then show ?thesis by (subst stake.eval_edge) (assumption, rule edge_total)
  next
    case False
    then have "evaluateStakeChangeAlert now cc s = Some ((False, False), cc, s)"
      using vi by (auto simp: evaluateStakeChangeAlert_def stake_ready_def split: option.splits)
    then show ?thesis by auto
  qed
qed

interpretation t_commission: chain_total "evaluateCommissionChangeAlert now"
proof unfold_locales
  fix cc :: ChainConfig and s
  assume vi: "cc_valInfo cc \<noteq> None"
  show "\<exists>r cc' s'. evaluateCommissionChangeAlert now cc s = Some (r, cc', s') \<and> cc_valInfo cc' = cc_valInfo cc"
  proof (cases "cc_lastValInfo cc")
    case None
    then show ?thesis using vi by (auto simp: evaluateCommissionChangeAlert_def)
  next
    case (Some prev)
    with vi have "cc_valInfo cc \<noteq> None \<and> cc_lastValInfo cc \<noteq> None" by simp
    then show ?thesis by (subst commission.eval_edge) (assumption, rule edge_total)
  qed
qed

interpretation t_governance: chain_total "\<lambda>cc s. Some (evaluateUnvotedGovernanceProposalAlert zone now cc s)"
  by unfold_locales (simp add: evaluateUnvotedGovernanceProposalAlert_def Let_def split_def finish_def)

definition informed :: "string \<Rightarrow> sys \<Rightarrow> bool" where
  "informed k s \<longleftrightarrow> (\<exists>cc. chain_of s k = Some cc \<and> cc_valInfo cc \<noteq> None)"

lemma pass_total:
  assumes "\<forall>ev\<in>snd ` set evs. chain_total ev"
  shows "informed k s \<Longrightarrow> \<exists>s'. pass k evs s = Some s' \<and> informed k s'"
  using assms
proof (induction k evs s rule: pass.induct)
  case (2 k on ev evs s)
  obtain cc where cc: "chain_of s k = Some cc" "cc_valInfo cc \<noteq> None" using "2.prems"(1) by (auto simp: informed_def)
  have t: "chain_total ev" "\<forall>ev\<in>snd ` set evs. chain_total ev" using "2.prems"(2) by auto
  obtain s1 where s1: "(if on (cc_Alerts cc) then run_eval k ev s else Some s) = Some s1" "informed k s1"
  proof (cases "on (cc_Alerts cc)")
    case True
    with chain_total.runs [OF t(1) cc] cc(2) that show ?thesis by (auto simp: informed_def)
  qed (use that "2.prems"(1) in simp)
  show ?case using "2.IH" [OF cc(1) s1(1) s1(2) t(2)] cc(1) s1(1) by simp
qed simp

lemma threshold_evaluators_total: "\<forall>ev\<in>snd ` set (threshold_evaluators now). chain_total ev"
  by (simp add: threshold_evaluators_def t_stalled.chain_total_axioms t_inactive.chain_total_axioms
      t_missed.chain_total_axioms t_missed_share.chain_total_axioms t_empty.chain_total_axioms
      t_empty_share.chain_total_axioms t_down.chain_total_axioms t_lag.chain_total_axioms
      t_stake.chain_total_axioms t_commission.chain_total_axioms)

lemma endpoints_total: "informed k s \<Longrightarrow> \<exists>sec s'. endpoints_round now k (n, s) = Some (sec, s') \<and> informed k s'"
  by (auto simp: endpoints_round_def informed_def evaluateNoRPCEndpointsAlert_def Let_def finish_def)

text \<open>Decimals that never overflow.\<close>

definition dec_total :: "dec_ops \<Rightarrow> bool" where
  "dec_total ops \<longleftrightarrow> (\<forall>a b. dec_MulInt64 ops a b \<noteq> None \<and> dec_Quo ops a b \<noteq> None \<and> dec_Mul ops a b \<noteq> None \<and>
     dec_Add ops a b \<noteq> None)"

lemma dec_total_defined:
  assumes "dec_total ops"
  obtains mi qu mu ad where "dec_MulInt64 ops = (\<lambda>a b. Some (mi a b))" "dec_Quo ops = (\<lambda>a b. Some (qu a b))"
    "dec_Mul ops = (\<lambda>a b. Some (mu a b))" "dec_Add ops = (\<lambda>a b. Some (ad a b))"
proof
  show "dec_MulInt64 ops = (\<lambda>a b. Some (the (dec_MulInt64 ops a b)))" "dec_Quo ops = (\<lambda>a b. Some (the (dec_Quo ops a b)))"
    "dec_Mul ops = (\<lambda>a b. Some (the (dec_Mul ops a b)))" "dec_Add ops = (\<lambda>a b. Some (the (dec_Add ops a b)))"
    using assms by (auto simp: dec_total_def)
qed

lemma power_of_ten_total: "dec_total ops \<Longrightarrow> \<exists>r. power_of_ten ops n d = Some r"
  by (erule dec_total_defined, induction n arbitrary: d) simp_all

lemma convert_coin_total:
  assumes "dec_total ops"
  shows "convert_coin ops md e coin \<noteq> None"
proof -
  obtain mi qu mu ad where "dec_Quo ops = (\<lambda>a b. Some (qu a b))" "dec_Mul ops = (\<lambda>a b. Some (mu a b))"
    using assms by (rule dec_total_defined)
  moreover obtain r where "\<And>n d. power_of_ten ops n d = Some (r n d)"
    using power_of_ten_total [OF assms] by metis
  ultimately show ?thesis by (simp add: convert_coin_def split: option.split)
qed

lemma convert_total: "dec_total ops \<Longrightarrow> \<exists>r. ConvertDecCoinToDisplayUnit ops coins md = Some r"
  using those_total [of coins "convert_coin ops md _"] convert_coin_total
  by (fastforce simp: ConvertDecCoinToDisplayUnit_def split: option.split)

lemma total_amount_total: "dec_total ops \<Longrightarrow> \<exists>r. total_amount ops coins t = Some r"
  by (erule dec_total_defined, induction coins arbitrary: t) simp_all

lemma native_coins_total: "dec_total ops \<Longrightarrow> \<exists>cc1 x. native_coins ops cc vi = Some (cc1, x) \<and> cc_valInfo cc1 = cc_valInfo cc"
proof -
  assume ops: "dec_total ops"
  obtain ds d c where n: "native_denoms cc = ((ds, d), c)" by (metis prod.collapse)
  have c: "cc_valInfo c = cc_valInfo cc"
    using n by (auto simp: native_denoms_def split: option.splits if_splits)
  obtain conv where "\<And>coins md. ConvertDecCoinToDisplayUnit ops coins md = Some (conv coins md)"
    using convert_total [OF ops] by metis
  with c show ?thesis
    by (auto simp: native_coins_def n Let_def split: option.split)
qed

lemma rewards_total:
  assumes "dec_total (ww_ops w)" "informed k s"
  shows "\<exists>cache' s'. rewards_round w now k (cache, s) = Some (cache', s') \<and> informed k s'"
proof -
  obtain cc vi where cc: "chain_of s k = Some cc" "cc_valInfo cc = Some vi" using assms(2) by (auto simp: informed_def)
  obtain cc1 x where n: "native_coins (ww_ops w) cc vi = Some (cc1, x)" "cc_valInfo cc1 = Some vi"
    using native_coins_total [OF assms(1)] cc(2) by metis
  have "\<exists>r cc' s' cache'. evaluateUnclaimedRewardsAlert (ww_ops w) (ww_getPrice w) now cc s cache = Some ((r, cc', s'), cache') \<and>
      cc_valInfo cc' = Some vi"
  proof (cases x)
    case (Some p)
    obtain coins b where p: "p = (coins, b)" by force
    obtain t where t: "total_amount (ww_ops w) coins 0 = Some t" using total_amount_total [OF assms(1)] by blast
    obtain price cache1 where g: "ww_getPrice w now (cc_Slug cc1) cache = (price, cache1)" by force
    show ?thesis
      using n(2) by (cases price) (auto simp: evaluateUnclaimedRewardsAlert_def cc n Some p t g rewards_edge_def finish_def Let_def)
  qed (auto simp: evaluateUnclaimedRewardsAlert_def cc n)
  then show ?thesis
    using assms(2) cc by (auto simp: rewards_round_def informed_def)
qed

lemma stats_total: "informed k s \<Longrightarrow> \<exists>s'. tick_stats now k s = Some s' \<and> informed k s'"
proof -
  assume i: "informed k s"
  then obtain cc vi where cc: "chain_of s k = Some cc" "cc_valInfo cc = Some vi" by (auto simp: informed_def)
  obtain us where us: "those (map (\<lambda>n. mkUpdate cc metricNodeDownSeconds (dur_Seconds (time_Sub now (nd_downSince n))) (nd_Url n))
      (filter (\<lambda>n. nd_down n \<and> \<not> IsZero (nd_downSince n)) (cc_Nodes cc))) = Some us"
    using those_total [of "filter (\<lambda>n. nd_down n \<and> \<not> IsZero (nd_downSince n)) (cc_Nodes cc)"
        "\<lambda>n. mkUpdate cc metricNodeDownSeconds (dur_Seconds (time_Sub now (nd_downSince n))) (nd_Url n)"]
      by (auto simp: mkUpdate_def cc)
  then show ?thesis using i cc by (auto simp: tick_stats_def mkUpdate_def informed_def)
qed

lemma watch_tick_total:
  assumes "chain_of s k = Some cc" "cc_valInfo cc \<noteq> None" "dec_total (ww_ops w)"
  shows "\<exists>sec cache' s' cc'. watch_tick w k now (noNodesSec, cache, s) = Some (sec, cache', s') \<and>
    chain_of s' k = Some cc' \<and> cc_valInfo cc' \<noteq> None"
proof -
  have "informed k s" using assms(1,2) by (simp add: informed_def)
  then obtain sec s1 where 1: "endpoints_round now k (noNodesSec, s) = Some (sec, s1)" "informed k s1"
    using endpoints_total by blast
  obtain s2 where 2: "pass k (threshold_evaluators now) s1 = Some s2" "informed k s2"
    using pass_total [OF threshold_evaluators_total 1(2)] by blast
  obtain cache' s3 where 3: "rewards_round w now k (cache, s2) = Some (cache', s3)" "informed k s3"
    using rewards_total [OF assms(3) 2(2)] by blast
  let ?gov = "[(\<lambda>a. boolVal (ac_GovernanceAlerts a),
      \<lambda>cc s. Some (evaluateUnvotedGovernanceProposalAlert (ww_zone w) now cc s))]"
  have "\<forall>ev\<in>snd ` set ?gov. chain_total ev" by (simp add: t_governance.chain_total_axioms)
  then obtain s4 where 4: "pass k ?gov s3 = Some s4" "informed k s4"
    using pass_total 3(2) by blast
  obtain s5 where 5: "tick_stats now k s4 = Some s5" "informed k s5" using stats_total 4(2) by blast
  then show ?thesis
    by (auto simp: watch_tick_def 1(1) 2(1) 3(1) 4(1) informed_def simp del: pass.simps)
qed


section \<open>A chain that never connects\<close>

lemma wait_run_reports:
  assumes "\<forall>(now, cc)\<in>set obs. cc_name cc = k \<and> cc_ValAddress cc = v \<and> not_yet cc \<and> (cc_noNodes cc \<or> cc_noWsNodes cc) \<and>
      boolVal (ac_AlertIfNoServers (cc_Alerts cc)) \<and> \<not> silenced now cc \<and> \<not> IsZero now"
    and "alarms_ok (alarms s)" "cfg_NodeDownMin (td s) = m" "0 \<le> m" "m \<le> 10 ^ 8" "0 \<le> c" "c + int (length obs) < 2 ^ 63"
  shows "\<exists>s' out. wait_run k obs (c, s) = Some (c + int (length obs), s') \<and> alertChan s' = alertChan s @ out \<and>
    map (\<lambda>m. (m_uniqueId m, m_resolved m)) out =
      (if obs \<noteq> [] \<and> \<not> exist (alarms s) k (''NoRPCEndpoints_'' @ v) \<and> 60 * m < c + int (length obs)
       then [(''NoRPCEndpoints_'' @ v, False)] else [])"
  using assms
proof (induction obs arbitrary: s c)
  case (Cons o1 obs)
  obtain now cc where o1: "o1 = (now, cc)" by (cases o1)
  have cc: "cc_name cc = k" "cc_ValAddress cc = v" "not_yet cc" "cc_noNodes cc \<or> cc_noWsNodes cc"
      "boolVal (ac_AlertIfNoServers (cc_Alerts cc))" "\<not> silenced now cc" "\<not> IsZero now"
    using Cons.prems(1) by (auto simp: o1)
  let ?s = "put_chain k cc s" and ?i = "''NoRPCEndpoints_'' @ v"
  let ?due = "60 * m \<le> c \<and> \<not> exist (alarms s) k ?i"
  let ?s1 = "if ?due then alert now k (''no RPC endpoints are working for '' @ cc_ChainId cc) ''critical'' False (Some ?i) ?s else ?s"
  have c: "chain_of ?s k = Some cc" "alarms_ok (alarms ?s)" using Cons.prems(2) by simp_all
  have w: "wrap64 (60 * m) = 60 * m" "wrap64 (c + 1) = c + 1"
    using Cons.prems(4-7) by (auto intro!: wrap64_id simp: int64_def)
  have NodeDownMin: "cfg_NodeDownMin (td ?s) = m" using Cons.prems(3) by (simp add: put_chain_def)
  have step: "wait_step now cc cc (c, ?s) = Some (c + 1, ?s1)"
    by (simp add: wait_step_def Let_def Cons.prems(3) w cc)
  have ok: "alarms_ok (alarms ?s1)"
    using c(2) cc(7) by (auto intro: alert_alarms_ok simp: clock_ok_def)
  obtain out1 where out1: "alertChan ?s1 = alertChan s @ out1"
      "map (\<lambda>m. (m_uniqueId m, m_resolved m)) out1 = (if ?due then [(?i, False)] else [])"
  proof (cases ?due)
    case True
    show ?thesis
      by (rule that [of "[alert_message ?s k (''no RPC endpoints are working for '' @ cc_ChainId cc) ''critical'' False ?i]"])
        (use True cc(6) in \<open>simp_all add: alert_alertChan [OF c(1)] alert_message_simps [OF c(1)]\<close>)
  next
    case False
    show ?thesis by (rule that [of "[]"]) (use False in auto)
  qed
  have ex: "exist (alarms ?s1) k ?i \<longleftrightarrow> exist (alarms s) k ?i \<or> 60 * m \<le> c"
    using cc(6) by (auto simp: exist_alert [OF c])
  have rest: "\<forall>(now, cc)\<in>set obs. cc_name cc = k \<and> cc_ValAddress cc = v \<and> not_yet cc \<and> (cc_noNodes cc \<or> cc_noWsNodes cc) \<and>
      boolVal (ac_AlertIfNoServers (cc_Alerts cc)) \<and> \<not> silenced now cc \<and> \<not> IsZero now"
    using Cons.prems(1) by simp
  have m: "cfg_NodeDownMin (td ?s1) = m" using Cons.prems(3) by simp
  have bounds: "0 \<le> c + 1" "c + 1 + int (length obs) < 2 ^ 63" using Cons.prems(6,7) by simp_all
  obtain s' out where IH: "wait_run k obs (c + 1, ?s1) = Some (c + 1 + int (length obs), s')"
      "alertChan s' = alertChan ?s1 @ out" "map (\<lambda>m. (m_uniqueId m, m_resolved m)) out =
        (if obs \<noteq> [] \<and> \<not> exist (alarms ?s1) k ?i \<and> 60 * m < c + 1 + int (length obs) then [(?i, False)] else [])"
    using Cons.IH [OF rest ok m Cons.prems(4,5) bounds] by blast
  have "wait_run k (o1 # obs) (c, s) = Some (c + int (length (o1 # obs)), s')"
    using IH(1) step by (simp add: o1)
  moreover have "alertChan s' = alertChan s @ out1 @ out" using IH(2) out1(1) by simp
  moreover have "map (\<lambda>m. (m_uniqueId m, m_resolved m)) (out1 @ out) =
      (if o1 # obs \<noteq> [] \<and> \<not> exist (alarms s) k ?i \<and> 60 * m < c + int (length (o1 # obs)) then [(?i, False)] else [])"
    using out1(2) IH(3) ex by (cases obs) auto
  ultimately show ?case by blast
qed simp


section \<open>Examples\<close>

definition free_world :: watch_world where
  "free_world = \<lparr>ww_ops = \<lparr>dec_One = 10 ^ 18, dec_MulInt64 = (\<lambda>a b. Some (a * b)), dec_Quo = (\<lambda>a b. Some (nearest (a * 10 ^ 18) b)),
     dec_Mul = (\<lambda>a b. Some (nearest (a * b) (10 ^ 18))), dec_Add = (\<lambda>a b. Some (a + b)),
     dec_MustFloat64 = (\<lambda>a. f64_round (of_int a / 10 ^ 18))\<rparr>, ww_getPrice = ten_dollars, ww_zone = 0\<rparr>"

lemma free_world_total: "dec_total (ww_ops free_world)"
  by (simp add: free_world_def dec_total_def)

lemma sample_informed: "chain_of (sample_sys sample_chain no_alarms) ''net'' = Some sample_chain"
  "cc_name sample_chain = ''net''" "cc_valInfo sample_chain \<noteq> None"
  by (simp_all add: chain_of_def sample_sys_def sample_chain_def gm_get_def)


theorem watch_tick_touches_only_its_chain_witness:
  "\<exists>sec cache' s'. watch_tick free_world ''net'' noon (0, [], sample_sys sample_chain no_alarms) = Some (sec, cache', s') \<and>
     chain_of s' ''other'' = None \<and> updateChan s' = []"
proof -
  let ?s = "sample_sys sample_chain no_alarms"
  obtain sec cache' s' where t: "watch_tick free_world ''net'' noon (0, [], ?s) = Some (sec, cache', s')"
    using watch_tick_total [OF sample_informed(1,3) free_world_total] by blast
  from watch_tick_touches_only_its_chain [OF sample_informed(1,2) t] t show ?thesis
    by (simp add: chain_of_def sample_sys_def gm_get_def)
qed

definition lost_chain :: ChainConfig where
  "lost_chain = sample_chain\<lparr>cc_valInfo := Some not_connected, cc_noNodes := True,
     cc_Alerts := sample_alerts\<lparr>ac_AlertIfNoServers := Some True\<rparr>\<rparr>"


end
