(* ===== verification/Encryption.thy ===== *)
theory Encryption
  imports Base64
begin

text \<open>
  The encrypted configuration file (\<^verbatim>\<open>td2/encryption.go\<close>): the keys derived from the password, AES-256
  in CBC mode with padding and an outer HMAC, the base64 text on disk, and the half of
  \<^verbatim>\<open>loadConfig\<close> that fetches it (\<^verbatim>\<open>td2/types.go\<close>).

  The password validator, Argon2id, the AES block functions and HMAC-SHA256 are the fields of
  \<open>crypto_lib\<close>. CBC, the padding and the slices are spelled out: a slice expression may reach
  beyond the length of a slice up to its capacity, and panics beyond that.
\<close>

record crypto_lib =
  cl_Validate :: "string \<Rightarrow> string option"
  cl_IDKey :: "string \<Rightarrow> string \<Rightarrow> string"
  cl_Encrypt :: "string \<Rightarrow> string \<Rightarrow> string"
  cl_Decrypt :: "string \<Rightarrow> string \<Rightarrow> string"
  cl_HMAC :: "string \<Rightarrow> string \<Rightarrow> string"

definition idKeySize :: nat where "idKeySize = 32"
definition ivSize :: nat where "ivSize = 16"
definition macSize :: nat where "macSize = 32"
definition BlockSize :: nat where "BlockSize = 16"

abbreviation nul :: char where "nul \<equiv> CHR 0x00"

section \<open>Keys\<close>

text \<open>
  \<^verbatim>\<open>getKey\<close>: key, MAC key and salt, or an error. \<open>random\<close> is what \<^verbatim>\<open>rand.Read\<close> gives when no salt is
  known.
\<close>

definition getKey ::
  "crypto_lib \<Rightarrow> string \<Rightarrow> string option \<Rightarrow> string + string \<Rightarrow> string + (string \<times> string \<times> string)" where
  "getKey lib pass knownSalt random =
     (case cl_Validate lib pass of
        Some err \<Rightarrow> Inl err
      | None \<Rightarrow>
          (case (case knownSalt of
                   None \<Rightarrow> random
                 | Some salt \<Rightarrow>
                     if length salt \<noteq> idKeySize \<or> salt = replicate idKeySize nul
                     then Inl ''salt must be 32 bytes and non-zero'' else Inr salt) of
             Inl err \<Rightarrow> Inl err
           | Inr salt \<Rightarrow>
               let keys = cl_IDKey lib pass salt
               in if length keys \<noteq> idKeySize * 2 \<or> keys = replicate (idKeySize * 2) nul
                  then Inl ''invalid key, was all zeros''
                  else Inr (take idKeySize keys, drop idKeySize keys, salt)))"

definition aes_NewCipher :: "string \<Rightarrow> string option" where
  "aes_NewCipher key =
     (if length key \<in> {16, 24, 32} then None else Some (''crypto/aes: invalid key size '' @ utoa (length key)))"

section \<open>Cipher block chaining\<close>

fun xor_char :: "char \<Rightarrow> char \<Rightarrow> char" where
  "xor_char (Char a0 a1 a2 a3 a4 a5 a6 a7) (Char b0 b1 b2 b3 b4 b5 b6 b7) =
     Char (a0 \<noteq> b0) (a1 \<noteq> b1) (a2 \<noteq> b2) (a3 \<noteq> b3) (a4 \<noteq> b4) (a5 \<noteq> b5) (a6 \<noteq> b6) (a7 \<noteq> b7)"

definition xor_bytes :: "string \<Rightarrow> string \<Rightarrow> string" where
  "xor_bytes a b = map2 xor_char a b"

lemmas sizes [simp] = idKeySize_def ivSize_def macSize_def BlockSize_def

function cbc_encrypt :: "(string \<Rightarrow> string) \<Rightarrow> string \<Rightarrow> string \<Rightarrow> string" where
  "cbc_encrypt E iv src =
     (if src = [] then []
      else let c = E (xor_bytes iv (take BlockSize src)) in c @ cbc_encrypt E c (drop BlockSize src))"
  by pat_completeness auto
termination by (relation "measure (\<lambda>(E, iv, src). length src)") auto

function cbc_decrypt :: "(string \<Rightarrow> string) \<Rightarrow> string \<Rightarrow> string \<Rightarrow> string" where
  "cbc_decrypt D iv src =
     (if src = [] then []
      else xor_bytes (D (take BlockSize src)) iv @ cbc_decrypt D (take BlockSize src) (drop BlockSize src))"
  by pat_completeness auto
termination by (relation "measure (\<lambda>(D, iv, src). length src)") auto

declare cbc_encrypt.simps [simp del] cbc_decrypt.simps [simp del]

text \<open>\<^verbatim>\<open>CryptBlocks\<close> panics on input that is not a whole number of blocks.\<close>

definition CryptBlocks :: "(string \<Rightarrow> string \<Rightarrow> string) \<Rightarrow> string \<Rightarrow> string \<Rightarrow> string option" where
  "CryptBlocks mode iv src = (if length src mod BlockSize \<noteq> 0 then None else Some (mode iv src))"

section \<open>encrypt and decrypt\<close>

text \<open>
  \<open>None\<close> is a panic, \<open>Inl\<close> an error. \<open>salt\<close> and \<open>iv\<close> are the answers of \<^verbatim>\<open>rand.Read\<close>.
\<close>

definition encrypt ::
  "crypto_lib \<Rightarrow> string + string \<Rightarrow> string + string \<Rightarrow> string \<Rightarrow> string \<Rightarrow> (string + string) option" where
  "encrypt lib saltR ivR plainText password =
     (if plainText = [] then Some (Inl ''invalid config file'')
      else case getKey lib password None saltR of
             Inl err \<Rightarrow> Some (Inl err)
           | Inr (key, macKey, salt) \<Rightarrow>
               (case (aes_NewCipher key, ivR) of
                  (Some err, _) \<Rightarrow> Some (Inl err)
                | (None, Inl err) \<Rightarrow> Some (Inl err)
                | (None, Inr iv) \<Rightarrow>
                    let padLen = BlockSize - length plainText mod BlockSize
                    in if 255 < padLen then Some (Inl (''padding length too large for uint8: '' @ utoa padLen))
                       else do {
                         cipherText \<leftarrow> CryptBlocks (cbc_encrypt (cl_Encrypt lib key)) iv
                                         (plainText @ replicate padLen (char_of padLen));
                         (if cipherText = [] then Some (Inl ''invalid ciphertext, nothing encrypted'')
                          else let buf = salt @ iv @ cipherText
                               in Some (Inr (b64_encode (buf @ cl_HMAC lib macKey buf)))) }))"

text \<open>
  The loop of \<^verbatim>\<open>decrypt\<close> that cuts null bytes off; on a slice of nothing else it ends with an index
  out of range.
\<close>

definition cut_nulls :: "string \<Rightarrow> string option" where
  "cut_nulls s = (if \<forall>c\<in>set s. c = nul then None else Some (rev (dropWhile (\<lambda>c. c = nul) (rev s))))"

text \<open>\<open>buf\<close> is the whole buffer, \<open>cipherText\<close> the slice that is left of it.\<close>

definition unpad :: "string \<Rightarrow> string + string" where
  "unpad plainText =
     (if plainText = [] then Inl ''plaintext was empty''
      else let padLen = of_char (last plainText)
           in if padLen \<le> 0 \<or> BlockSize < padLen \<or> length plainText < padLen then Inl ''invalid padding''
              else Inr (take (length plainText - padLen) plainText))"

definition open_box :: "crypto_lib \<Rightarrow> string \<Rightarrow> string \<Rightarrow> string \<Rightarrow> (string + string) option" where
  "open_box lib password buf cipherText =
     (case getKey lib password (Some (take idKeySize buf)) (Inl []) of
        Inl err \<Rightarrow> Some (Inl err)
      | Inr (key, macKey, _) \<Rightarrow>
          if length cipherText < macSize then None
          else
            let authText = take (length cipherText - macSize) cipherText
            in if drop (length cipherText - macSize) cipherText \<noteq> cl_HMAC lib macKey authText
               then Some (Inl ''HMAC authentication failed'')
               else case aes_NewCipher key of
                      Some err \<Rightarrow> Some (Inl err)
                    | None \<Rightarrow>
                        if length authText < ivSize + idKeySize then None
                        else do {
                          plainText \<leftarrow> CryptBlocks (cbc_decrypt (cl_Decrypt lib key))
                                         (take ivSize (drop idKeySize buf)) (drop (ivSize + idKeySize) authText);
                          Some (unpad plainText) })"

definition decrypt :: "crypto_lib \<Rightarrow> string \<Rightarrow> string \<Rightarrow> (string + string) option" where
  "decrypt lib encodedFile password =
     (case b64_decode encodedFile of
        None \<Rightarrow> Some (Inl ''illegal base64 data'')
      | Some bytes \<Rightarrow>
          let buf = bytes @ replicate (DecodedLen (length encodedFile) - length bytes) nul
          in do { cipherText \<leftarrow> cut_nulls buf;
                  (if length bytes \<le> 2 * idKeySize + ivSize then Some (Inl ''ciphertext is too short'')
                   else open_box lib password buf cipherText) })"


text \<open>
  \<^verbatim>\<open>EncryptedConfig\<close>: the error it returns and the files it leaves. \<open>unwritable\<close> is the error of opening
  or writing a file.
\<close>

definition EncryptedConfig ::
  "crypto_lib \<Rightarrow> string + string \<Rightarrow> string + string \<Rightarrow> (string \<Rightarrow> string option) \<Rightarrow> string \<Rightarrow> string \<Rightarrow> string \<Rightarrow>
   bool \<Rightarrow> (string, string) gomap \<Rightarrow> (string option \<times> (string, string) gomap) option" where
  "EncryptedConfig lib saltR ivR unwritable plaintext ciphertext pass decrypting files =
     (let (infile, outfile) = (if decrypting then (ciphertext, plaintext) else (plaintext, ciphertext))
      in case gm_get files infile of
           None \<Rightarrow> Some (Some (''open '' @ infile @ '': no such file or directory''), files)
         | Some inConfig \<Rightarrow>
             do { result \<leftarrow> (if decrypting then decrypt lib inConfig pass else encrypt lib saltR ivR inConfig pass);
                  case result of
                    Inl err \<Rightarrow> Some (Some err, files)
                  | Inr outConfig \<Rightarrow>
                      (case unwritable outfile of
                         Some err \<Rightarrow> Some (Some err, files)
                       | None \<Rightarrow> Some (None, gm_set outfile outConfig files)) })"

text \<open>
  How \<^verbatim>\<open>loadConfig\<close> gets the configuration: a remote one is always an encrypted file and needs a
  password, a local one is read as it is. \<open>get\<close> and \<open>read_file\<close> give the body or an error, \<open>unmarshal\<close>
  is the YAML decoder.
\<close>

definition read_config ::
  "crypto_lib \<Rightarrow> (string \<Rightarrow> string + string) \<Rightarrow> (string \<Rightarrow> string + string) \<Rightarrow> (string \<Rightarrow> string + 'c) \<Rightarrow>
   string \<Rightarrow> string \<Rightarrow> (string + 'c) option" where
  "read_config lib get read_file unmarshal yamlFile password =
     (if HasPrefix yamlFile ''http://'' \<or> HasPrefix yamlFile ''https://'' then
        if password = [] then Some (Inl ''a password is required if loading a remote configuration'')
        else case get yamlFile of
               Inl err \<Rightarrow> Some (Inl err)
             | Inr b \<Rightarrow> do { decrypted \<leftarrow> decrypt lib b password;
                             Some (case decrypted of Inl err \<Rightarrow> Inl err | Inr plain \<Rightarrow> unmarshal plain) }
      else Some (case read_file yamlFile of Inl err \<Rightarrow> Inl err | Inr b \<Rightarrow> unmarshal b))"

section \<open>What decrypt gives back\<close>

text \<open>What is relied on of AES and HMAC-SHA256: the block functions invert each other, and the lengths.\<close>

definition lib_ok :: "crypto_lib \<Rightarrow> bool" where
  "lib_ok lib \<longleftrightarrow>
     (\<forall>k b. length k = 32 \<and> length b = 16 \<longrightarrow>
        length (cl_Encrypt lib k b) = 16 \<and> cl_Decrypt lib k (cl_Encrypt lib k b) = b) \<and>
     (\<forall>k m. length (cl_HMAC lib k m) = 32)"

lemma xor_char_cancel [simp]: "xor_char (xor_char a b) a = b" "xor_char (xor_char a b) b = a"
  by (cases a; cases b; auto)+

lemma xor_bytes_cancel: "length a = length b \<Longrightarrow> xor_bytes (xor_bytes a b) a = b"
  by (induction a b rule: list_induct2) (simp_all add: xor_bytes_def)

lemma length_xor_bytes [simp]: "length (xor_bytes a b) = min (length a) (length b)"
  by (simp add: xor_bytes_def)

lemma cbc_simps [simp]: "cbc_encrypt E iv [] = []" "cbc_decrypt D iv [] = []"
  by (simp_all add: cbc_encrypt.simps [of E iv "[]"] cbc_decrypt.simps [of D iv "[]"])

lemma blocks_drop: "length src mod 16 = 0 \<Longrightarrow> src \<noteq> [] \<Longrightarrow> 16 \<le> length src \<and> (length src - 16) mod 16 = 0"
  by (cases "length src < 16") (auto simp: mod_eq_0_iff_dvd dvd_diff_nat)

lemma cbc_roundtrip:
  assumes "\<And>b. length b = 16 \<Longrightarrow> length (E b) = 16 \<and> D (E b) = b" "length src mod 16 = 0" "length iv = 16"
  shows "length (cbc_encrypt E iv src) = length src \<and> cbc_decrypt D iv (cbc_encrypt E iv src) = src"
  using assms(2,3)
proof (induction "length src" arbitrary: src iv rule: less_induct)
  case less
  show ?case
  proof (cases "src = []")
    case False
    let ?c = "E (xor_bytes iv (take 16 src))" and ?r = "drop 16 src"
    have l: "16 \<le> length src" "(length src - 16) mod 16 = 0" using blocks_drop [OF less.prems(1) False] by auto
    have c: "length ?c = 16" "D ?c = xor_bytes iv (take 16 src)" using assms(1) l(1) less.prems(2) by simp_all
    have IH: "length (cbc_encrypt E ?c ?r) = length ?r" "cbc_decrypt D ?c (cbc_encrypt E ?c ?r) = ?r"
      using less.hyps [of ?r ?c] l c(1) False by auto
    have e: "cbc_encrypt E iv src = ?c @ cbc_encrypt E ?c ?r" using False by (subst cbc_encrypt.simps) (simp add: Let_def)
    have "cbc_decrypt D iv (cbc_encrypt E iv src) = xor_bytes (D ?c) iv @ cbc_decrypt D ?c (cbc_encrypt E ?c ?r)"
      using c(1) by (subst cbc_decrypt.simps) (auto simp: e)
    then show ?thesis using e c l(1) IH less.prems(2) by (simp add: xor_bytes_cancel)
  qed simp
qed

lemma cbc_decrypt_length:
  "length src mod 16 = 0 \<Longrightarrow> length iv \<le> 16 \<Longrightarrow> length (cbc_decrypt D iv src) \<le> length src"
proof (induction "length src" arbitrary: src iv rule: less_induct)
  case less
  show ?case
  proof (cases "src = []")
    case False
    have l: "16 \<le> length src" "(length src - 16) mod 16 = 0" using blocks_drop [OF less.prems(1) False] by auto
    have "length (cbc_decrypt D (take 16 src) (drop 16 src)) \<le> length src - 16"
      using less.hyps [of "drop 16 src" "take 16 src"] l False by simp
    then show ?thesis using False less.prems(2) l(1) by (subst cbc_decrypt.simps) simp
  qed simp
qed

lemma unpad_pad: "plain \<noteq> [] \<Longrightarrow> 0 < n \<Longrightarrow> n \<le> 16 \<Longrightarrow> unpad (plain @ replicate n (char_of n)) = Inr plain"
  by (cases n) (auto simp: unpad_def Let_def of_char_of)

lemma cut_nulls_Some: "cut_nulls s = Some t \<Longrightarrow> \<exists>k. s = t @ replicate k nul \<and> t \<noteq> [] \<and> last t \<noteq> nul"
proof -
  assume "cut_nulls s = Some t"
  then have ex: "\<exists>c\<in>set s. c \<noteq> nul" and t: "t = rev (dropWhile (\<lambda>c. c = nul) (rev s))"
    by (auto simp: cut_nulls_def split: if_splits)
  have d: "dropWhile (\<lambda>c. c = nul) (rev s) \<noteq> []" using ex by auto
  have "rev s = takeWhile (\<lambda>c. c = nul) (rev s) @ rev t" by (simp add: t)
  moreover have "takeWhile (\<lambda>c. c = nul) (rev s) = replicate (length (takeWhile (\<lambda>c. c = nul) (rev s))) nul"
    by (metis (full_types) replicate_length_same set_takeWhileD)
  ultimately have "s = t @ replicate (length (takeWhile (\<lambda>c. c = nul) (rev s))) nul"
    by (metis rev_append rev_replicate rev_rev_ident)
  then show ?thesis using d hd_dropWhile [OF d] by (auto simp: t last_rev)
qed

lemma cut_nulls_id: "t \<noteq> [] \<Longrightarrow> last t \<noteq> nul \<Longrightarrow> cut_nulls (t @ replicate k nul) = Some t"
  by (cases t rule: rev_cases) (auto simp: cut_nulls_def dropWhile_append3)


lemma getKey_known:
  assumes "getKey lib password None (Inr salt) = Inr (key, macKey, salt')" "length salt = 32" "salt \<noteq> replicate 32 nul"
  shows "salt' = salt \<and> length key = 32 \<and> getKey lib password (Some salt) r = Inr (key, macKey, salt)"
  using assms by (auto simp: getKey_def Let_def split: option.splits if_splits)

lemma getKey_sizes: "getKey lib password k r = Inr (key, macKey, salt) \<Longrightarrow> length key = 32 \<and> aes_NewCipher key = None"
  by (auto simp: getKey_def aes_NewCipher_def Let_def split: option.splits if_splits sum.splits)

lemma open_box_shorter:
  assumes "open_box lib password buf t = Some (Inr p)" "48 \<le> length buf"
  shows "80 \<le> length t \<and> (length t - 80) mod 16 = 0 \<and> length p < length t - 80"
proof -
  let ?a = "take (length t - 32) t"
  obtain key plain where k: "32 \<le> length t" "48 \<le> length ?a"
      "CryptBlocks (cbc_decrypt (cl_Decrypt lib key)) (take 16 (drop 32 buf)) (drop 48 ?a) = Some plain"
      "unpad plain = Inr p"
    using assms(1) by (auto simp: open_box_def Let_def bind_eq_Some_conv split: sum.splits if_splits option.splits)
  then have l: "80 \<le> length t" "(length t - 80) mod 16 = 0" "plain = cbc_decrypt (cl_Decrypt lib key) (take 16 (drop 32 buf)) (drop 48 ?a)"
    by (auto simp: CryptBlocks_def split: if_splits)
  then have "length plain \<le> length t - 80"
    using cbc_decrypt_length [of "drop 48 ?a" "take 16 (drop 32 buf)" "cl_Decrypt lib key"] by simp
  moreover have "length p < length plain" using k(4) by (auto simp: unpad_def Let_def split: if_splits)
  ultimately show ?thesis using l by simp
qed

text \<open>What \<^verbatim>\<open>encrypt\<close> writes, and that it opens again when nothing is cut off.\<close>

lemma encrypt_sealed:
  assumes "lib_ok lib" "length salt = 32" "salt \<noteq> replicate 32 nul" "length iv = 16"
    "encrypt lib (Inr salt) (Inr iv) plain password = Some (Inr file)"
  obtains bytes n where "b64_decode file = Some bytes" "file = b64_encode bytes" "length bytes = 80 + n" "0 < n"
    "n < length plain + 17" "n mod 16 = 0" "\<And>pad. open_box lib password (bytes @ pad) bytes = Some (Inr plain)"
proof -
  let ?pad = "16 - length plain mod 16"
  let ?src = "plain @ replicate ?pad (char_of ?pad)"
  obtain key macKey salt' where k: "getKey lib password None (Inr salt) = Inr (key, macKey, salt')" "plain \<noteq> []"
    using assms(5) by (auto simp: encrypt_def split: if_splits sum.splits)
  note known = getKey_known [OF k(1) assms(2,3)] getKey_sizes [OF k(1)]
  have pad: "0 < ?pad" "?pad \<le> 16" by auto
  have "16 * (length plain div 16) + length plain mod 16 = length plain" "length plain mod 16 < 16" by simp_all
  then have "length plain + (16 - length plain mod 16) = 16 * (length plain div 16 + 1)" by presburger
  then have "length ?src = 16 * (length plain div 16 + 1)" by (simp only: length_append length_replicate)
  then have m: "length ?src mod 16 = 0" by presburger
  let ?ct = "cbc_encrypt (cl_Encrypt lib key) iv ?src"
  have law: "length b = 16 \<Longrightarrow> length (cl_Encrypt lib key b) = 16 \<and> cl_Decrypt lib key (cl_Encrypt lib key b) = b" for b
    using assms(1) known by (simp add: lib_ok_def)
  have ct: "length ?ct = length ?src" "cbc_decrypt (cl_Decrypt lib key) iv ?ct = ?src"
    using cbc_roundtrip [OF law m assms(4)] by auto
  let ?buf = "salt @ iv @ ?ct" let ?mac = "cl_HMAC lib macKey ?buf"
  have mac: "length ?mac = 32" using assms(1) by (simp add: lib_ok_def)
  have sealed: "file = b64_encode (?buf @ ?mac)"
    using assms(5) k known m by (auto simp: encrypt_def Let_def CryptBlocks_def split: if_splits)
  have opens: "open_box lib password ((?buf @ ?mac) @ pad) (?buf @ ?mac) = Some (Inr plain)" for pad
    using known m ct mac assms(2,4) unpad_pad [OF k(2) pad]
    by (simp add: open_box_def Let_def CryptBlocks_def)
  show thesis
  proof (rule that [of "?buf @ ?mac" "length ?src"])
    show "b64_decode file = Some (?buf @ ?mac)" unfolding sealed by (rule b64_decode_encode)
    show "length (?buf @ ?mac) = 80 + length ?src" using mac ct(1) assms(2,4) by simp
    show "0 < length ?src" "length ?src < length plain + 17" using pad by simp_all
    show "length ?src mod 16 = 0" by (rule m)
  qed (rule sealed, rule opens)
qed

lemma decrypt_encrypt:
  assumes "lib_ok lib" "length salt = 32" "salt \<noteq> replicate 32 nul" "length iv = 16"
    "encrypt lib (Inr salt) (Inr iv) plain password = Some (Inr file)"
  shows "\<exists>bytes. b64_decode file = Some bytes \<and>
    (decrypt lib file password = Some (Inr plain) \<longleftrightarrow> last bytes \<noteq> nul)"
proof -
  obtain bytes n where b: "b64_decode file = Some bytes" "file = b64_encode bytes" "length bytes = 80 + n" "0 < n"
      "n < length plain + 17" "n mod 16 = 0" "\<And>pad. open_box lib password (bytes @ pad) bytes = Some (Inr plain)"
    using encrypt_sealed [OF assms] by blast
  let ?buf = "bytes @ replicate (DecodedLen (length file) - length bytes) nul"
  have d: "decrypt lib file password = do { t \<leftarrow> cut_nulls ?buf; open_box lib password ?buf t }"
    using b(1,3,4) by (simp add: decrypt_def Let_def cong: option.case_cong)
  show ?thesis
  proof (cases "last bytes = nul")
    case False
    then have "cut_nulls ?buf = Some bytes" using b(3) by (intro cut_nulls_id) auto
    then show ?thesis using b(1,7) False d by simp
  next
    case True
    have "\<not> open_box lib password ?buf t = Some (Inr plain)" if t: "cut_nulls ?buf = Some t" for t
    proof
      assume o: "open_box lib password ?buf t = Some (Inr plain)"
      obtain k where k: "?buf = t @ replicate k nul" "t \<noteq> []" "last t \<noteq> nul" using cut_nulls_Some [OF t] by blast
      have "length t < length bytes"
      proof (rule ccontr)
        assume "\<not> length t < length bytes"
        then obtain us where "t = bytes @ us" "set us \<subseteq> {nul}"
          using k(1) by (auto simp: append_eq_append_conv2) (metis Un_upper1 set_append set_replicate_conv_if subset_trans empty_subsetI order_refl)
        then show False using k(3) True by (cases us rule: rev_cases) auto
      qed
      moreover have "80 \<le> length t" "(length t - 80) mod 16 = 0" "length plain < length t - 80"
        using open_box_shorter [OF o] b(3) by simp_all
      moreover obtain i j where "length t - 80 = 16 * i" "n = 16 * j"
        using b(6) calculation(3) by (auto elim!: dvdE simp: mod_eq_0_iff_dvd)
      ultimately have "16 * i < 16 * j" "16 * j < length plain + 17" "length plain < 16 * i" using b(3,5) by linarith+
      moreover from this have "16 * i + 16 \<le> 16 * j" by presburger
      ultimately show False by linarith
    qed
    then show ?thesis using b(1) True d by (auto simp: bind_eq_Some_conv)
  qed
qed


section \<open>The encrypted file\<close>

text \<open>
  C4: An encrypted configuration can be opened again only if the last byte of its MAC is not null.
  After \<^verbatim>\<open>EncryptedConfig\<close> has written the encrypted file, decrypting it with the same password
  gives the original text back when the MAC of the file ends in another byte, whatever the text,
  the password and the random salt and IV; when it ends in a null byte, the null is cut off with
  the ones the decoder leaves, and the original text is lost.
\<close>

theorem encrypted_config_roundtrip:
  assumes "lib_ok lib" "length salt = 32" "salt \<noteq> replicate 32 nul" "length iv = 16"
    "EncryptedConfig lib (Inr salt) (Inr iv) unwritable p c password False files = Some (None, files1)"
    "unwritable p = None" "p \<noteq> c"
  shows "\<exists>bytes. gm_get files1 c = Some (b64_encode bytes) \<and> gm_get files1 p = gm_get files p \<and>
    ((\<exists>files2. EncryptedConfig lib r r' unwritable p c password True (gm_del p files1) = Some (None, files2) \<and>
       gm_get files2 p = gm_get files p) \<longleftrightarrow> last bytes \<noteq> nul)"
proof -
  obtain plain result where r: "gm_get files p = Some plain" "encrypt lib (Inr salt) (Inr iv) plain password = Some result"
      "(case result of Inl err \<Rightarrow> Some (Some err, files)
        | Inr out \<Rightarrow> (case unwritable c of Some err \<Rightarrow> Some (Some err, files) | None \<Rightarrow> Some (None, gm_set c out files))) =
       Some (None, files1)"
    using assms(5) by (cases "gm_get files p") (auto simp: EncryptedConfig_def bind_eq_Some_conv)
  then obtain enc where "result = Inr enc" "files1 = gm_set c enc files"
    by (auto split: sum.split_asm option.split_asm)
  with r have f: "gm_get files p = Some plain" "files1 = gm_set c enc files"
      "encrypt lib (Inr salt) (Inr iv) plain password = Some (Inr enc)" by simp_all
  obtain bytes where bytes: "enc = b64_encode bytes" "b64_decode enc = Some bytes"
    using encrypt_sealed [OF assms(1-4) f(3)] by metis
  then have D: "decrypt lib enc password = Some (Inr plain) \<longleftrightarrow> last bytes \<noteq> nul"
    using decrypt_encrypt [OF assms(1-4) f(3)] by auto
  let ?run = "EncryptedConfig lib r r' unwritable p c password True (gm_del p files1)"
  have E: "?run = do { x \<leftarrow> decrypt lib enc password;
           case x of Inl err \<Rightarrow> Some (Some err, gm_del p files1)
           | Inr out \<Rightarrow> Some (None, gm_set p out (gm_del p files1)) }"
    unfolding f(2) using assms(6,7) by (simp add: EncryptedConfig_def)
  have "(\<exists>files2. ?run = Some (None, files2) \<and> gm_get files2 p = Some plain) \<longleftrightarrow>
      decrypt lib enc password = Some (Inr plain)"
  proof (cases "decrypt lib enc password")
    case (Some x)
    then show ?thesis unfolding E by (cases x) simp_all
  qed (simp add: E)
  then show ?thesis unfolding D f(1) using f(1,2) bytes(1) assms(7) by (intro exI [of _ bytes]) simp
qed

definition demo_lib :: "char \<Rightarrow> crypto_lib" where
  "demo_lib tag = \<lparr>cl_Validate = (\<lambda>_. None), cl_IDKey = (\<lambda>_ _. replicate 64 CHR ''k''),
     cl_Encrypt = (\<lambda>_ b. b), cl_Decrypt = (\<lambda>_ b. b), cl_HMAC = (\<lambda>_ _. replicate 31 CHR ''m'' @ [tag])\<rparr>"

lemma demo_lib_ok: "lib_ok (demo_lib tag)"
  by (simp add: lib_ok_def demo_lib_def)

lemma demo_encrypt:
  "\<exists>box. encrypt (demo_lib tag) (Inr (replicate 32 CHR ''s'')) (Inr (replicate 16 CHR ''i'')) ''chains:'' ''4G*vk90x'' =
     Some (Inr box)"
proof -
  have "iv \<noteq> [] \<Longrightarrow> cbc_encrypt (\<lambda>b. b) iv src = [] \<longleftrightarrow> src = []" for iv src
    by (subst cbc_encrypt.simps) (auto simp: Let_def xor_bytes_def)
  then show ?thesis
    by (simp add: encrypt_def getKey_def demo_lib_def aes_NewCipher_def CryptBlocks_def)
qed

theorem encrypted_config_roundtrip_witness:
  "\<exists>files1 bytes. gm_get files1 ''config.yml.asc'' = Some (b64_encode bytes) \<and>
    ((\<exists>files2. EncryptedConfig (demo_lib CHR ''m'') (Inl []) (Inl []) (\<lambda>_. None) ''config.yml'' ''config.yml.asc'' ''4G*vk90x'' True
         (gm_del ''config.yml'' files1) = Some (None, files2) \<and>
       gm_get files2 ''config.yml'' = Some ''chains:'') \<longleftrightarrow> last bytes \<noteq> nul)"
proof -
  obtain box where f: "encrypt (demo_lib CHR ''m'') (Inr (replicate 32 CHR ''s'')) (Inr (replicate 16 CHR ''i'')) ''chains:'' ''4G*vk90x'' =
     Some (Inr box)" using demo_encrypt by blast
  have "EncryptedConfig (demo_lib CHR ''m'') (Inr (replicate 32 CHR ''s'')) (Inr (replicate 16 CHR ''i'')) (\<lambda>_. None) ''config.yml''
      ''config.yml.asc'' ''4G*vk90x'' False [(''config.yml'', ''chains:'')] =
      Some (None, gm_set ''config.yml.asc'' box [(''config.yml'', ''chains:'')])"
    using f by (simp add: EncryptedConfig_def gm_get_def)
  from encrypted_config_roundtrip [OF demo_lib_ok _ _ _ this, of "Inl []" "Inl []"] show ?thesis
    by (fastforce simp: gm_get_def numeral_eq_Suc)
qed

text \<open>The authenticated part: nothing is given back unless the MAC over everything before it is right.\<close>

lemma decrypt_authenticated:
  assumes "decrypt lib enc password = Some (Inr plain)"
  shows "\<exists>t key macKey. getKey lib password (Some (take 32 t)) (Inl []) = Inr (key, macKey, take 32 t) \<and>
    80 < length t \<and> drop (length t - 32) t = cl_HMAC lib macKey (take (length t - 32) t)"
proof -
  obtain bytes t where t: "80 < length bytes" "cut_nulls (bytes @ replicate (DecodedLen (length enc) - length bytes) nul) = Some t"
      "open_box lib password (bytes @ replicate (DecodedLen (length enc) - length bytes) nul) t = Some (Inr plain)"
    using assms unfolding decrypt_def Let_def by (auto simp: bind_eq_Some_conv split: option.splits if_splits) (metis linorder_not_le)
  let ?buf = "bytes @ replicate (DecodedLen (length enc) - length bytes) nul"
  have l: "80 < length t" using open_box_shorter [OF t(3)] t(1) by (simp, linarith)
  obtain k where "?buf = t @ replicate k nul" using cut_nulls_Some [OF t(2)] by blast
  then have "take 32 ?buf = take 32 t" using l by simp
  then obtain key macKey salt where k: "getKey lib password (Some (take 32 t)) (Inl []) = Inr (key, macKey, salt)"
      "drop (length t - 32) t = cl_HMAC lib macKey (take (length t - 32) t)"
    using t(3) l by (auto simp: open_box_def Let_def split: sum.split_asm if_split_asm)
  moreover have "salt = take 32 t"
    using k(1) by (auto simp: getKey_def Let_def split: option.split_asm if_split_asm)
  ultimately show ?thesis using l by auto
qed

text \<open>
  Files that crash \<^verbatim>\<open>decrypt\<close> instead of failing: one whose base64 text stands for null bytes only
  (the empty file among them), and a longer one that is null after the salt.
\<close>

lemma decrypt_nulls_panics: "decrypt lib (b64_encode (replicate n nul)) password = None"
  by (auto simp: decrypt_def cut_nulls_def Let_def)

lemma decrypt_short_panics:
  assumes "length salt = 31" "last salt \<noteq> nul" "getKey lib password (Some (salt @ [nul])) (Inl []) = Inr k" "49 < n"
  shows "decrypt lib (b64_encode (salt @ replicate n nul)) password = None"
proof -
  let ?b = "salt @ replicate n nul"
  let ?z = "replicate (DecodedLen (length (b64_encode ?b)) - length ?b) nul"
  have "cut_nulls (salt @ replicate (n + m) nul) = Some salt" for m
    using assms(1,2) by (intro cut_nulls_id) auto
  then have cut: "cut_nulls (?b @ ?z) = Some salt" by (simp only: append_assoc replicate_add)
  have "take 32 (?b @ ?z) = salt @ [nul]" using assms(1,4) by (cases n) simp_all
  then have "open_box lib password (?b @ ?z) salt = None"
    using assms(1,3) by (cases k) (simp add: open_box_def)
  then show ?thesis unfolding decrypt_def Let_def using cut assms(1,4) by simp
qed

lemma remote_null_body_panics:
  "HasPrefix url ''https://'' \<Longrightarrow> password \<noteq> [] \<Longrightarrow> get url = Inr (b64_encode (replicate n nul)) \<Longrightarrow>
   read_config lib get read_file unmarshal url password = None"
  by (simp add: read_config_def decrypt_nulls_panics)

end
