(* ===== verification/FloatRead.thy ===== *)
theory FloatRead
  imports FloatText
begin

text \<open>
  Decimals as text and back: rounding to a number of bits as \<^verbatim>\<open>big.Float\<close> does it,
  \<^verbatim>\<open>strconv.ParseFloat\<close> on plain decimals, and what the shortest decimal of a number reads as.
\<close>

definition rnd_bits :: "nat \<Rightarrow> rat \<Rightarrow> rat" where
  "rnd_bits p x =
     (if x \<le> 0 then 0 else let q = 2 powi (flog2 x - int p + 1) in of_int (rhe (x / q)) * q)"

text \<open>\<^verbatim>\<open>strconv.ParseFloat\<close> on digits with at most one point, which is what the two texts are.\<close>

definition digits_value :: "string \<Rightarrow> nat option" where
  "digits_value s =
     (if s = [] then None
      else fold (\<lambda>c acc. do { n \<leftarrow> acc; d \<leftarrow> digit_val c; Some (n * 10 + d) }) s (Some 0))"

definition ParseFloat :: "string \<Rightarrow> f64 option" where
  "ParseFloat s =
     (case Split s ''.'' of
        [a] \<Rightarrow> map_option (\<lambda>n. f64_round (of_nat n)) (digits_value a)
      | [a, b] \<Rightarrow> map_option (\<lambda>n. f64_round (of_nat n / 10 ^ length b)) (digits_value (a @ b))
      | _ \<Rightarrow> None)"

section \<open>Rounding to a number of bits\<close>

lemma rnd_bits_err:
  assumes "0 < x"
  shows "\<bar>rnd_bits p x - x\<bar> \<le> x / 2 ^ p"
proof -
  let ?q = "2 powi (flog2 x - int p + 1) :: rat"
  have "rnd_bits p x - x = (of_int (rhe (x / ?q)) - x / ?q) * ?q"
    using assms by (simp add: rnd_bits_def Let_def left_diff_distrib)
  then have "\<bar>rnd_bits p x - x\<bar> = \<bar>of_int (rhe (x / ?q)) - x / ?q\<bar> * ?q" by (simp add: abs_mult)
  also have "\<dots> \<le> 1 / 2 * ?q" using rhe_err by (intro mult_right_mono) simp_all
  also have "\<dots> = 2 powi flog2 x / 2 ^ p" by (simp add: power_int_add power_int_diff)
  also have "\<dots> \<le> x / 2 ^ p" using flog2_bounds [OF assms] by (simp add: divide_right_mono)
  finally show ?thesis .
qed

lemma rnd_bits_pos: "0 < x \<Longrightarrow> 1 \<le> p \<Longrightarrow> 0 < rnd_bits p x"
proof -
  assume x: "0 < x" "1 \<le> p"
  have "(2::rat) ^ 1 \<le> 2 ^ p" using x(2) by (rule power_increasing) simp
  then have "x / 2 ^ p \<le> x / 2" using x(1) by (intro divide_left_mono) simp_all
  moreover have "x - x / 2 ^ p \<le> rnd_bits p x" using rnd_bits_err [OF x(1), of p] by (simp only: abs_le_iff) linarith
  ultimately show ?thesis using x(1) by linarith
qed

lemma f64_round_near:
  assumes "2 powi (- 1022) \<le> t" "t < 2 ^ 1000"
  obtains f where "f64_round t = Fin f" "\<bar>f - t\<bar> \<le> t / 2 ^ 53"
proof -
  have t: "0 < t" using assms(1) powi_2_pos [of "- 1022"] by linarith
  have "(2::rat) powi (- 1022) < 2 powi (flog2 t + 1)" using assms(1) flog2_bounds [OF t] by linarith
  then have "- 1022 \<le> flog2 t" by (simp only: powi_2_less_iff)
  then have err: "\<bar>rnd t - t\<bar> \<le> t / 2 ^ 53" by (rule rnd_err [OF t])
  have "t / 2 ^ 53 \<le> t" using t by (simp add: field_simps)
  then have "\<bar>rnd t - t\<bar> \<le> t" using err by linarith
  then have "\<bar>rnd t\<bar> \<le> 2 * t" by linarith
  also have "\<dots> < 2 ^ 1024" using assms(2) by simp
  finally show thesis using that [of "rnd t"] err by (simp add: f64_round_def)
qed

section \<open>The shortest decimal\<close>

lemma utoa_bounds: "n < 10 ^ length (utoa n) \<and> (0 < n \<longrightarrow> 10 ^ (length (utoa n) - 1) \<le> n)"
proof (induction n rule: utoa.induct)
  case (1 n)
  show ?case
  proof (cases "n < 10")
    case True
    then show ?thesis by (simp add: utoa.simps [of n])
  next
    case False
    let ?l = "length (utoa (n div 10))"
    have IH: "n div 10 < 10 ^ ?l" "10 ^ (?l - 1) \<le> n div 10" using 1 False by auto
    have "0 < ?l" by simp
    then have "10 ^ ?l = 10 * (10 :: nat) ^ (?l - 1)" by (simp flip: power_Suc)
    then have "10 ^ ?l \<le> n" using IH(2) by linarith
    moreover have "n < 10 * 10 ^ ?l" using IH(1) by linarith
    ultimately show ?thesis using False by (simp add: utoa.simps [of n])
  qed
qed

lemma flog10_le:
  assumes "0 < a"
  shows "10 powi flog10 a \<le> a"
proof -
  obtain p q where pq: "quotient_of a = (p, q)" by fastforce
  then have q: "0 < q" and a: "a = of_int p / of_int q"
    by (auto dest: quotient_of_denom_pos quotient_of_div)
  with assms have p: "0 < p" by (simp add: zero_less_divide_iff)
  let ?k = "length (itoa p)" and ?l = "length (itoa q)"
  have P: "(10::nat) ^ (?k - 1) \<le> nat p" and Q: "nat q < 10 ^ ?l"
    using utoa_bounds [of "nat p"] utoa_bounds [of "nat q"] p q by (simp_all add: itoa_def)
  have "(10::int) ^ (?k - 1) \<le> p" using P p by (simp add: le_nat_iff)
  moreover have "q < (10::int) ^ ?l" using Q q by (simp add: nat_less_iff)
  ultimately have P': "(10::rat) ^ (?k - 1) \<le> of_int p" and Q': "of_int q < (10::rat) ^ ?l"
    by (simp_all only: of_int_le_iff [symmetric, where 'a = rat] of_int_less_iff [symmetric, where 'a = rat]
        of_int_power of_int_numeral)
  have "0 < ?k" by simp
  then have "10 powi (int ?k - int ?l - 1) = (10::rat) ^ (?k - 1) / 10 ^ ?l"
    by (cases ?k) (simp_all add: power_int_diff)
  also have "\<dots> \<le> a" unfolding a using P' Q' p q by (intro frac_le) auto
  finally show ?thesis by (simp add: flog10_def pq Let_def)
qed

lemma decimal_of_length_reads:
  assumes "decimal_of_length rd x n = Some (c, k)" "0 < n" "0 < x"
  shows "0 \<le> c \<and> rd (of_int c * 10 powi k) = x"
proof -
  define j where "j = flog10 x - int n + 1"
  define lo where "lo = \<lfloor>x / 10 powi j\<rfloor>"
  have lo: "0 \<le> lo" using assms(3) by (simp add: lo_def)
  consider "c = lo" "k = j" "rd (of_int lo * 10 powi j) = x"
    | "(c, k) = (if lo + 1 = 10 ^ n then (10 ^ (n - 1), j + 1) else (lo + 1, j))" "rd (of_int (lo + 1) * 10 powi j) = x"
    using assms(1) unfolding decimal_of_length_def Let_def j_def [symmetric] lo_def [symmetric] by (auto split: if_split_asm)
  then show ?thesis
  proof cases
    case 2
    show ?thesis
    proof (cases "lo + 1 = 10 ^ n")
      case True
      have "(10::rat) ^ (n - 1) * 10 powi (j + 1) = 10 ^ n * 10 powi j"
        using assms(2) by (cases n) (simp_all add: power_int_add)
      then have "of_int (10 ^ (n - 1)) * (10::rat) powi (j + 1) = of_int (lo + 1) * 10 powi j"
        by (simp only: True of_int_power of_int_numeral)
      then show ?thesis using 2 True by simp
    qed (use 2 lo in auto)
  qed (use lo in simp)
qed

lemma shortest_near:
  assumes "shortest_decimal rd x = (c, k)" "0 < x"
  shows "0 \<le> c \<and> (rd (of_int c * 10 powi k) = x \<or> \<bar>of_int c * 10 powi k - x\<bar> \<le> x / 10 ^ 16)"
proof (cases "List.find (\<lambda>n. decimal_of_length rd x n \<noteq> None) [1..<17]")
  case None
  let ?k = "flog10 x - 16" and ?q = "10 powi (flog10 x - 16) :: rat"
  have c: "c = rhe (x / ?q)" "k = ?k" using assms(1) None by (auto simp: shortest_decimal_def Let_def)
  have q: "0 < ?q" by simp
  have "0 \<le> x / ?q" using assms(2) by simp
  then have "0 \<le> c" using rhe_ge_int [of 0 "x / ?q"] by (simp add: c)
  moreover have "of_int c * ?q - x = (of_int c - x / ?q) * ?q" by (simp add: algebra_simps)
  then have "\<bar>of_int c * ?q - x\<bar> = \<bar>of_int c - x / ?q\<bar> * ?q" by (simp add: abs_mult)
  then have "\<bar>of_int c * ?q - x\<bar> \<le> 1 / 2 * ?q"
    unfolding c(1) using mult_right_mono [OF rhe_err, of ?q "x / ?q"] by simp
  moreover have "?q \<le> x / 10 ^ 16" using flog10_le [OF assms(2)] by (simp add: power_int_diff divide_right_mono)
  ultimately show ?thesis unfolding c(2) using q by linarith
next
  case (Some n)
  then obtain i where i: "n = [1..<17] ! i" "i < length [1..<17]" "decimal_of_length rd x n \<noteq> None"
    by (auto simp: find_Some_iff)
  then have "0 < n" by (simp add: nth_upt del: upt_Suc)
  moreover have "decimal_of_length rd x n = Some (c, k)"
    using assms(1) i(3) unfolding shortest_decimal_def Some by auto
  ultimately show ?thesis using decimal_of_length_reads assms(2) by blast
qed

section \<open>Reading plain decimals\<close>

lemma digits_fold_utoa:
  "fold (\<lambda>c acc. do { n \<leftarrow> acc; d \<leftarrow> digit_val c; Some (n * 10 + d) }) (utoa n) (Some m) =
    Some (m * 10 ^ length (utoa n) + n)"
proof (induction n arbitrary: m rule: utoa.induct)
  case (1 n)
  show ?case
  proof (cases "n < 10")
    case True
    then show ?thesis by (simp add: utoa.simps [of n])
  next
    case False
    have "m * (10 * 10 ^ length (utoa (n div 10))) + 10 * (n div 10) + n mod 10 = m * (10 * 10 ^ length (utoa (n div 10))) + n"
      by simp
    then show ?thesis using 1 False by (simp add: utoa.simps [of n] algebra_simps)
  qed
qed

lemma digits_value_pad:
  "0 \<le> c \<Longrightarrow> digits_value (replicate z CHR ''0'' @ itoa c) = Some (nat c)"
proof -
  have "digit_val CHR ''0'' = Some 0" by (simp add: digit_val_def)
  then have "fold (\<lambda>c acc. do { n \<leftarrow> acc; d \<leftarrow> digit_val c; Some (n * 10 + d) }) (replicate z CHR ''0'') (Some 0) = Some 0"
    by (induction z) simp_all
  then show "0 \<le> c \<Longrightarrow> ?thesis" by (simp add: digits_value_def itoa_def digits_fold_utoa)
qed

lemma no_point: "0 \<le> c \<Longrightarrow> CHR ''.'' \<notin> set (replicate z CHR ''0'' @ itoa c)"
  by (auto simp: itoa_def dest!: utoa_digits)

lemma ParseFloat_plain:
  assumes "0 \<le> c"
  shows "ParseFloat (plain_decimal (c, k)) = Some (f64_round (of_int c * 10 powi k))"
proof (cases "0 \<le> k")
  case True
  let ?n = "c * 10 ^ nat k"
  have n: "0 \<le> ?n" using assms by simp
  have "ParseFloat (itoa ?n) = Some (f64_round (of_nat (nat ?n)))"
    using digits_value_pad [OF n, of 0] no_point [OF n, of 0] by (simp add: ParseFloat_def Split_single_absent)
  moreover have "(of_nat (nat ?n) :: rat) = of_int c * 10 powi k"
    using n True by (simp add: of_nat_nat power_int_def)
  ultimately show ?thesis using True by (simp add: plain_decimal_def)
next
  case False
  define m where "m = nat (- k)"
  have k: "k = - int m" "0 < m" using False by (simp_all add: m_def)
  define t where "t = pad0 (Suc m) c"
  have t: "t = replicate (Suc m - length (itoa c)) CHR ''0'' @ itoa c" by (simp add: t_def pad0_def Let_def)
  have len: "m < length t" by (simp add: t)
  have pt: "CHR ''.'' \<notin> set t" unfolding t by (rule no_point [OF assms])
  let ?a = "take (length t - m) t" and ?b = "drop (length t - m) t"
  have "CHR ''.'' \<notin> set ?a" "CHR ''.'' \<notin> set ?b" using pt by (auto dest: in_set_takeD in_set_dropD)
  then have "Split (?a @ CHR ''.'' # ?b) [CHR ''.''] = [?a, ?b]"
    by (simp add: Split_single_append Split_single_absent)
  moreover have "digits_value (?a @ ?b) = Some (nat c)"
    unfolding append_take_drop_id t by (rule digits_value_pad [OF assms])
  moreover have "length ?b = m" using len by simp
  ultimately have "ParseFloat (?a @ CHR ''.'' # ?b) = Some (f64_round (of_nat (nat c) / 10 ^ m))"
    by (simp add: ParseFloat_def del: append_take_drop_id)
  moreover have "(of_nat (nat c) / 10 ^ m :: rat) = of_int c * 10 powi k"
    using assms by (simp add: k power_int_minus of_nat_nat field_simps)
  moreover have "plain_decimal (c, k) = ?a @ CHR ''.'' # ?b"
    using False k(2) by (simp add: plain_decimal_def put_point_def flip: m_def t_def)
  ultimately show ?thesis by (simp only:)
qed

lemma ParseFloat_itoa: "0 \<le> n \<Longrightarrow> ParseFloat (itoa n) = Some (f64_of_int n)"
  using ParseFloat_plain [of n 0] by (simp add: plain_decimal_def f64_of_int_def)

end
