(* ===== verification/Providers.thy ===== *)
theory Providers
  imports Units Governance
begin

text \<open>
  Where the validator's data comes from: the interface \<^verbatim>\<open>ChainProvider\<close> (\<^verbatim>\<open>td2/types.go\<close>) and its
  implementation for chains of the Cosmos SDK (\<^verbatim>\<open>td2/provider-default.go\<close>).

  A node's answer to an ABCI query is an \<open>abci\<close>: the query failed, the answer has no value, the
  value could not be decoded, or it was decoded. Protobuf encoding and bech32 are outside. A
  method returns an error, a result, or panics (\<open>None\<close>).
\<close>

datatype 'a abci = Failed string | Absent | Undecodable string | Answer 'a

type_synonym 'a outcome = "(string + 'a) option"

record gov_Proposal =
  pr_ProposalId :: nat
  pr_VotingStartTime :: gotime
  pr_VotingEndTime :: gotime

record SigningInfo =
  si_Tombstoned :: bool
  si_MissedBlocksCounter :: int

record SlashingParams =
  sp_SignedBlocksWindow :: int
  sp_MinSignedPerWindow :: int

text \<open>
  \<^verbatim>\<open>ChainProvider\<close>. The methods read the chain they belong to. A pointer result that may be nil is an
  option; the validator is its key, moniker, jailed and bonded flags, stake and commission rate.
\<close>

record ChainProvider =
  cp_UnvotedOpenProposals :: "ChainConfig \<Rightarrow> govProposal list outcome"
  cp_ChainInfo :: "ChainConfig \<Rightarrow> (f64 \<times> f64 \<times> f64) outcome"
  cp_ValidatorInfo :: "ChainConfig \<Rightarrow> (string \<times> string \<times> bool \<times> bool \<times> f64 \<times> f64) outcome"
  cp_SigningInfo :: "ChainConfig \<Rightarrow> SigningInfo outcome"
  cp_SlashingParams :: "ChainConfig \<Rightarrow> SlashingParams outcome"
  cp_StakingParams :: "ChainConfig \<Rightarrow> string outcome"
  cp_VotingPool :: "ChainConfig \<Rightarrow> int option outcome"
  cp_RewardsAndCommission :: "ChainConfig \<Rightarrow> (DecCoin list \<times> DecCoin list) outcome"
  cp_DenomMetadata :: "ChainConfig \<Rightarrow> string \<Rightarrow> Metadata outcome"

section \<open>Addresses\<close>

text \<open>\<^verbatim>\<open>bech32.DecodeAndConvert\<close>, \<^verbatim>\<open>bech32.ConvertAndEncode\<close>, and the addresses of consensus keys, which panic on a key of the wrong size.\<close>

record sdk_lib =
  sdk_Decode :: "string \<Rightarrow> string + (string \<times> string)"
  sdk_Encode :: "string \<Rightarrow> string \<Rightarrow> string + string"
  sdk_ed25519_Address :: "string \<Rightarrow> string option"
  sdk_secp256k1_Address :: "string \<Rightarrow> string option"

definition stop_sign :: string where "stop_sign = [CHR 0xF0, CHR 0x9F, CHR 0x9B, CHR 0x91]"

text \<open>\<^verbatim>\<open>strings.Replace(s, old, new, 1)\<close> for an \<^verbatim>\<open>old\<close> that is not empty.\<close>

fun replace_first :: "string \<Rightarrow> string \<Rightarrow> string \<Rightarrow> string" where
  "replace_first [] old new = []"
| "replace_first (c # cs) old new =
     (if HasPrefix (c # cs) old then new @ drop (length old) (c # cs) else c # replace_first cs old new)"

definition ConvertValopertToAccAddress :: "sdk_lib \<Rightarrow> string \<Rightarrow> string + string" where
  "ConvertValopertToAccAddress lib valoperAddr =
     (if \<not> Contains valoperAddr ''valoper'' then Inr valoperAddr
      else case sdk_Decode lib valoperAddr of
             Inl err \<Rightarrow> Inl (stop_sign @ '' failed to decode valoper address: '' @ err)
           | Inr (prefix, bytes) \<Rightarrow>
               (case sdk_Encode lib (replace_first prefix ''valoper'' []) bytes of
                  Inl err \<Rightarrow> Inl (stop_sign @ '' failed to encode account address: '' @ err)
                | Inr accAddress \<Rightarrow> Inr accAddress))"

text \<open>\<^verbatim>\<open>ToBytes\<close> of \<^verbatim>\<open>td2/validator.go\<close>: what \<^verbatim>\<open>hex.DecodeString\<close> returns beside an error it ignores; and \<^verbatim>\<open>%X\<close>.\<close>

definition hex_val :: "char \<Rightarrow> nat option" where
  "hex_val c =
     (let n = of_char c :: nat
      in if 48 \<le> n \<and> n \<le> 57 then Some (n - 48) else if 97 \<le> n \<and> n \<le> 102 then Some (n - 87)
         else if 65 \<le> n \<and> n \<le> 70 then Some (n - 55) else None)"

fun hex_decode :: "string \<Rightarrow> string" where
  "hex_decode (a # b # rest) =
     (case (hex_val a, hex_val b) of
        (Some x, Some y) \<Rightarrow> char_of (x * 16 + y) # hex_decode rest
      | _ \<Rightarrow> [])"
| "hex_decode _ = []"

definition ToBytes :: "string \<Rightarrow> string" where
  "ToBytes address = hex_decode (ToLower address)"

definition hex_digit :: "nat \<Rightarrow> char" where
  "hex_digit n = char_of (if n < 10 then 48 + n else 55 + n)"

definition hex_upper :: "string \<Rightarrow> string" where
  "hex_upper bz = concat (map (\<lambda>c. [hex_digit (of_char c div 16), hex_digit (of_char c mod 16)]) bz)"

section \<open>The provider for the Cosmos SDK\<close>

text \<open>The answers of the node that is asked.\<close>

record queryValidator =
  qv_ConsensusPubkey :: "(string \<times> (string + string)) option"
  qv_Moniker :: string
  qv_Jailed :: bool
  qv_Status :: int
  qv_Tokens :: int
  qv_CommissionRate :: int

record abci_world =
  aw_Vote :: "nat \<Rightarrow> string \<Rightarrow> unit abci"
  aw_Proposals :: "(string \<times> gov_Proposal list) abci"
  aw_titles :: "string \<Rightarrow> v1ProposalTitleFields option list option"
  aw_DenomMetadata :: "string \<Rightarrow> Metadata abci"
  aw_DelegationRewards :: "string \<Rightarrow> string \<Rightarrow> DecCoin list abci"
  aw_ValidatorCommission :: "string \<Rightarrow> DecCoin list abci"
  aw_Pool :: "int abci"
  aw_Validator :: "string \<Rightarrow> queryValidator abci"
  aw_SigningInfo :: "string \<Rightarrow> SigningInfo abci"
  aw_SlashingParams :: "SlashingParams abci"
  aw_StakingParams :: "string abci"
  aw_SupplyOf :: "string \<Rightarrow> int abci"
  aw_CommunityTax :: "int abci"
  aw_Inflation :: "int abci"

text \<open>The shape most methods share: what an error, a missing value and a decoding error are turned into.\<close>

definition answered :: "(string \<Rightarrow> string) \<Rightarrow> string \<Rightarrow> (string \<Rightarrow> string) \<Rightarrow> 'a abci \<Rightarrow> string + 'a" where
  "answered failed absent undecodable r =
     (case r of
        Failed err \<Rightarrow> Inl (failed err)
      | Absent \<Rightarrow> Inl absent
      | Undecodable err \<Rightarrow> Inl (undecodable err)
      | Answer v \<Rightarrow> Inr v)"

definition CheckIfValidatorVoted :: "abci_world \<Rightarrow> ChainConfig \<Rightarrow> nat \<Rightarrow> string \<Rightarrow> string + bool" where
  "CheckIfValidatorVoted w cc proposalID accAddress =
     (case aw_Vote w proposalID accAddress of
        Failed err \<Rightarrow> Inl (stop_sign @ '' failed to query vote for proposal '' @ utoa proposalID @ '' on '' @ cc_name cc @
                          '', error: '' @ err)
      | Absent \<Rightarrow> Inr False
      | _ \<Rightarrow> Inr True)"

definition wasPreviouslyUnvoted :: "ChainConfig \<Rightarrow> nat \<Rightarrow> bool" where
  "wasPreviouslyUnvoted cc proposalID \<longleftrightarrow> (\<exists>p\<in>set (cc_unvotedOpenGovProposals cc). gp_ProposalId p = proposalID)"

text \<open>One round of the loop over the open proposals.\<close>

definition unvoted_entry ::
  "sdk_lib \<Rightarrow> abci_world \<Rightarrow> ChainConfig \<Rightarrow> (nat, string \<times> string) gomap \<Rightarrow> gov_Proposal \<Rightarrow> govProposal list" where
  "unvoted_entry lib w cc titles proposal =
     (case ConvertValopertToAccAddress lib (cc_ValAddress cc) of
        Inl _ \<Rightarrow> []
      | Inr accAddress \<Rightarrow>
          let hasVoted = (case CheckIfValidatorVoted w cc (pr_ProposalId proposal) accAddress of
                            Inl _ \<Rightarrow> \<not> wasPreviouslyUnvoted cc (pr_ProposalId proposal)
                          | Inr voted \<Rightarrow> voted);
              (title, summary) = (case gm_get titles (pr_ProposalId proposal) of None \<Rightarrow> ([], []) | Some t \<Rightarrow> t)
          in if \<not> hasVoted
             then [\<lparr>gp_ProposalId = pr_ProposalId proposal, gp_VotingEndTime = pr_VotingEndTime proposal,
                    gp_Title = title, gp_Summary = summary\<rparr>]
             else [])"

text \<open>
  The error of decoding the proposals is assigned to a variable of the inner block, so the method
  returns neither proposals nor an error then.
\<close>

definition QueryUnvotedOpenProposals :: "sdk_lib \<Rightarrow> abci_world \<Rightarrow> ChainConfig \<Rightarrow> string + govProposal list" where
  "QueryUnvotedOpenProposals lib w cc =
     (case aw_Proposals w of
        Failed err \<Rightarrow> Inl (stop_sign @ '' failed to query proposals for '' @ cc_name cc @ '', error: '' @ err)
      | Absent \<Rightarrow> Inl (stop_sign @ '' failed to query proposals for '' @ cc_name cc @ '', error: <nil>'')
      | Undecodable _ \<Rightarrow> Inr []
      | Answer (raw, proposals) \<Rightarrow>
          Inr (concat (map (unvoted_entry lib w cc (extractProposalTitles (aw_titles w) raw)) proposals)))"

definition QueryDenomMetadata :: "abci_world \<Rightarrow> string \<Rightarrow> string + Metadata" where
  "QueryDenomMetadata w denom = answered (\<lambda>e. e) ''could not find denom metadata'' (\<lambda>e. e) (aw_DenomMetadata w denom)"

definition QueryValidatorSelfDelegationRewardsAndCommission ::
  "sdk_lib \<Rightarrow> abci_world \<Rightarrow> ChainConfig \<Rightarrow> string + (DecCoin list \<times> DecCoin list)" where
  "QueryValidatorSelfDelegationRewardsAndCommission lib w cc =
     (case ConvertValopertToAccAddress lib (cc_ValAddress cc) of
        Inl err \<Rightarrow> Inl (stop_sign @ '' failed to decode valoper address: '' @ err)
      | Inr accAddress \<Rightarrow>
          (case answered (\<lambda>e. e) (''could not query self-delegation rewards for validator '' @ cc_ValAddress cc) (\<lambda>e. e)
                  (aw_DelegationRewards w accAddress (cc_ValAddress cc)) of
             Inl err \<Rightarrow> Inl err
           | Inr rewards \<Rightarrow>
               (case answered (\<lambda>e. e) (''could not query commission for validator '' @ cc_ValAddress cc) (\<lambda>e. e)
                       (aw_ValidatorCommission w (cc_ValAddress cc)) of
                  Inl err \<Rightarrow> Inl err
                | Inr commission \<Rightarrow> Inr (rewards, commission))))"

definition QueryValidatorVotingPool :: "abci_world \<Rightarrow> ChainConfig \<Rightarrow> string + int" where
  "QueryValidatorVotingPool w cc =
     answered (\<lambda>e. e) (''could not query the staking pool information for validator '' @ cc_ValAddress cc) (\<lambda>e. e)
       (aw_Pool w)"

text \<open>\<^verbatim>\<open>ToDec\<close> of a whole number.\<close>

definition ToDec :: "int \<Rightarrow> int" where
  "ToDec n = n * 10 ^ 18"

text \<open>The consensus address of a validator: empty when the type of its key is not known.\<close>

definition consensus_address :: "sdk_lib \<Rightarrow> string \<times> (string + string) \<Rightarrow> string outcome" where
  "consensus_address lib key =
     (case key of (typeUrl, decoded) \<Rightarrow>
        if typeUrl = ''/cosmos.crypto.ed25519.PubKey'' then
          (case decoded of Inl err \<Rightarrow> Some (Inl err) | Inr pk \<Rightarrow> map_option Inr (sdk_ed25519_Address lib pk))
        else if typeUrl = ''/cosmos.crypto.secp256k1.PubKey'' then
          (case decoded of Inl err \<Rightarrow> Some (Inl err) | Inr pk \<Rightarrow> map_option Inr (sdk_secp256k1_Address lib pk))
        else Some (Inr []))"

definition QueryValidatorInfo ::
  "dec_ops \<Rightarrow> sdk_lib \<Rightarrow> abci_world \<Rightarrow> ChainConfig \<Rightarrow> (string \<times> string \<times> bool \<times> bool \<times> f64 \<times> f64) outcome" where
  "QueryValidatorInfo ops lib w cc =
     (if Contains (cc_ValAddress cc) ''valcons'' then
        (case sdk_Decode lib (cc_ValAddress cc) of
           Inl _ \<Rightarrow> Some (Inl (''could not decode and convert your address'' @ cc_ValAddress cc))
         | Inr (_, bz) \<Rightarrow> Some (Inr (ToBytes (hex_upper bz), cc_ValAddress cc, False, True, Fin 0, Fin 0)))
      else case answered (\<lambda>e. e) (''could not find validator '' @ cc_ValAddress cc) (\<lambda>e. e)
                  (aw_Validator w (cc_ValAddress cc)) of
             Inl err \<Rightarrow> Some (Inl err)
           | Inr val \<Rightarrow>
               (case qv_ConsensusPubkey val of
                  None \<Rightarrow> Some (Inl (''got invalid consensus pubkey for '' @ cc_ValAddress cc))
                | Some key \<Rightarrow>
                    do { address \<leftarrow> consensus_address lib key;
                         Some (case address of
                             Inl err \<Rightarrow> Inl err
                           | Inr pubBytes \<Rightarrow>
                               if pubBytes = [] then Inl (''could not get pubkey for'' @ cc_ValAddress cc)
                               else Inr (pubBytes, qv_Moniker val, qv_Jailed val, qv_Status val = 3,
                                         dec_MustFloat64 ops (ToDec (qv_Tokens val)),
                                         dec_MustFloat64 ops (qv_CommissionRate val))) }))"

definition QuerySigningInfo :: "abci_world \<Rightarrow> ChainConfig \<Rightarrow> SigningInfo outcome" where
  "QuerySigningInfo w cc =
     do { vi \<leftarrow> cc_valInfo cc;
          Some (answered (\<lambda>e. ''query signing info: '' @ e) ''query signing info: %!w(<nil>)''
                  (\<lambda>e. ''unmarshal signing info response: '' @ e) (aw_SigningInfo w (vi_Valcons vi))) }"

definition QuerySlashingParams :: "abci_world \<Rightarrow> string + SlashingParams" where
  "QuerySlashingParams w =
     answered (\<lambda>e. ''query slashing params: '' @ e) (stop_sign @ '' could not query slashing params, got empty response'')
       (\<lambda>e. ''unmarshal slashing params: '' @ e) (aw_SlashingParams w)"

definition QueryStakingParams :: "abci_world \<Rightarrow> string + string" where
  "QueryStakingParams w =
     answered (\<lambda>e. ''query staking params: '' @ e) (stop_sign @ '' could not query staking params, got empty response'')
       (\<lambda>e. ''unmarshal staking params: '' @ e) (aw_StakingParams w)"

text \<open>An answer without a value counts as no inflation.\<close>

definition QueryChainInfo :: "dec_ops \<Rightarrow> abci_world \<Rightarrow> ChainConfig \<Rightarrow> (f64 \<times> f64 \<times> f64) outcome" where
  "QueryChainInfo ops w cc =
     do { md \<leftarrow> cc_denomMetadata cc;
          Some (case answered (\<lambda>e. ''query total supply: '' @ e) ''could not query total supply''
                       (\<lambda>e. ''unmarshal total supply response: '' @ e) (aw_SupplyOf w (md_Base md)) of
              Inl err \<Rightarrow> Inl err
            | Inr supply \<Rightarrow>
                (case answered (\<lambda>e. ''query distribution params: '' @ e) ''could not query distribution params''
                         (\<lambda>e. ''unmarshal distribution params response: '' @ e) (aw_CommunityTax w) of
                   Inl err \<Rightarrow> Inl err
                 | Inr tax \<Rightarrow>
                     (case aw_Inflation w of
                        Failed err \<Rightarrow> Inl (''query inflation: '' @ err)
                      | Undecodable err \<Rightarrow> Inl (''unmarshal inflation response: '' @ err)
                      | Absent \<Rightarrow> Inr (dec_MustFloat64 ops (ToDec supply), dec_MustFloat64 ops tax, Fin 0)
                      | Answer inflation \<Rightarrow>
                          Inr (dec_MustFloat64 ops (ToDec supply), dec_MustFloat64 ops tax,
                               dec_MustFloat64 ops inflation)))) }"

definition DefaultProvider :: "dec_ops \<Rightarrow> sdk_lib \<Rightarrow> abci_world \<Rightarrow> ChainProvider" where
  "DefaultProvider ops lib w =
     \<lparr>cp_UnvotedOpenProposals = (\<lambda>cc. Some (QueryUnvotedOpenProposals lib w cc)),
      cp_ChainInfo = QueryChainInfo ops w,
      cp_ValidatorInfo = QueryValidatorInfo ops lib w,
      cp_SigningInfo = QuerySigningInfo w,
      cp_SlashingParams = (\<lambda>cc. Some (QuerySlashingParams w)),
      cp_StakingParams = (\<lambda>cc. Some (QueryStakingParams w)),
      cp_VotingPool = (\<lambda>cc. Some (map_sum id Some (QueryValidatorVotingPool w cc))),
      cp_RewardsAndCommission = (\<lambda>cc. Some (QueryValidatorSelfDelegationRewardsAndCommission lib w cc)),
      cp_DenomMetadata = (\<lambda>cc denom. Some (QueryDenomMetadata w denom))\<rparr>"

section \<open>Hex\<close>

lemma hex_val_digit: "n < 16 \<Longrightarrow> hex_val (lower_char (hex_digit n)) = Some n"
  by (auto simp: hex_val_def lower_char_def hex_digit_def Let_def)

text \<open>The detour over the hex text gives the bytes of a consensus address back.\<close>

lemma ToBytes_hex_upper: "ToBytes (hex_upper bz) = bz"
proof (induction bz)
  case (Cons c bz)
  have "of_char c < (256 :: nat)" by (cases c) (simp add: of_char_def)
  then have "of_char c div 16 < (16 :: nat)" by (simp add: less_mult_imp_div_less)
  moreover have "of_char c div 16 * 16 + of_char c mod 16 = (of_char c :: nat)" by simp
  ultimately show ?case using Cons by (simp add: ToBytes_def hex_upper_def ToLower_def hex_val_digit)
qed (simp add: ToBytes_def hex_upper_def ToLower_def)

section \<open>Polling the proposals\<close>

text \<open>What \<^verbatim>\<open>GetValInfo\<close> makes of one poll (\<^verbatim>\<open>td2/validator.go\<close>).\<close>

definition poll :: "sdk_lib \<Rightarrow> abci_world \<Rightarrow> ChainConfig \<Rightarrow> ChainConfig" where
  "poll lib aw cc =
     (case QueryUnvotedOpenProposals lib aw cc of
        Inl _ \<Rightarrow> cc
      | Inr unvoted \<Rightarrow> cc\<lparr>cc_unvotedOpenGovProposals := unvoted\<rparr>)"

fun poll_run :: "sdk_lib \<Rightarrow> abci_world list \<Rightarrow> ChainConfig \<Rightarrow> ChainConfig" where
  "poll_run lib [] cc = cc"
| "poll_run lib (aw # aws) cc = poll_run lib aws (poll lib aw cc)"

text \<open>Whether a proposal counts as unvoted after a poll that found it open.\<close>

definition owes_vote :: "abci_world \<Rightarrow> ChainConfig \<Rightarrow> string \<Rightarrow> nat \<Rightarrow> bool" where
  "owes_vote aw cc acc pid =
     (case aw_Vote aw pid acc of Failed _ \<Rightarrow> wasPreviouslyUnvoted cc pid | Absent \<Rightarrow> True | _ \<Rightarrow> False)"

lemma unvoted_entry_ids:
  assumes "ConvertValopertToAccAddress lib (cc_ValAddress cc) = Inr acc"
  shows "map (\<lambda>p. (gp_ProposalId p, gp_VotingEndTime p)) (unvoted_entry lib aw cc titles p) =
    (if owes_vote aw cc acc (pr_ProposalId p) then [(pr_ProposalId p, pr_VotingEndTime p)] else [])"
  by (simp add: unvoted_entry_def assms owes_vote_def CheckIfValidatorVoted_def Let_def split: abci.split prod.split)

lemma unvoted_ids:
  assumes "ConvertValopertToAccAddress lib (cc_ValAddress cc) = Inr acc"
  shows "map (\<lambda>p. (gp_ProposalId p, gp_VotingEndTime p)) (concat (map (unvoted_entry lib aw cc titles) ps)) =
    map (\<lambda>p. (pr_ProposalId p, pr_VotingEndTime p)) (filter (\<lambda>p. owes_vote aw cc acc (pr_ProposalId p)) ps)"
  by (induction ps) (simp_all add: unvoted_entry_ids [OF assms])

lemma poll_simps [simp]: "cc_ValAddress (poll lib aw cc) = cc_ValAddress cc" "cc_name (poll lib aw cc) = cc_name cc"
  by (simp_all add: poll_def split: sum.split)

lemma poll_unvoted:
  assumes "ConvertValopertToAccAddress lib (cc_ValAddress cc) = Inr acc"
  shows "wasPreviouslyUnvoted (poll lib aw cc) pid \<longleftrightarrow>
    (case aw_Proposals aw of
       Answer (raw, ps) \<Rightarrow> pid \<in> pr_ProposalId ` set ps \<and> owes_vote aw cc acc pid
     | Undecodable _ \<Rightarrow> False
     | _ \<Rightarrow> wasPreviouslyUnvoted cc pid)"
proof (cases "aw_Proposals aw")
  case (Answer rp)
  obtain raw ps where rp: "rp = (raw, ps)" by fastforce
  let ?us = "concat (map (unvoted_entry lib aw cc (extractProposalTitles (aw_titles aw) raw)) ps)"
  have "gp_ProposalId ` set ?us = fst ` set (map (\<lambda>p. (gp_ProposalId p, gp_VotingEndTime p)) ?us)" by force
  also have "\<dots> = pr_ProposalId ` {p \<in> set ps. owes_vote aw cc acc (pr_ProposalId p)}"
    unfolding unvoted_ids [OF assms] by force
  finally have ids: "gp_ProposalId ` set ?us = pr_ProposalId ` {p \<in> set ps. owes_vote aw cc acc (pr_ProposalId p)}" .
  have "wasPreviouslyUnvoted (poll lib aw cc) pid \<longleftrightarrow> pid \<in> gp_ProposalId ` set ?us"
    by (auto simp: poll_def QueryUnvotedOpenProposals_def wasPreviouslyUnvoted_def Answer rp image_iff simp del: set_concat)
  then show ?thesis unfolding ids by (auto simp: Answer rp)
qed (simp_all add: poll_def QueryUnvotedOpenProposals_def wasPreviouslyUnvoted_def)

text \<open>
  C13: A vote query that fails now and then does not make a proposal flap. Once a proposal counts as
  voted on, it stays so over any sequence of polls in which the node, when it answers, has the
  vote on record; and while it counts as unvoted, it stays so over any sequence in which the list
  of open proposals, when it is answered, can be decoded and holds it and no vote is on record.
  Failures of either query, in any number and order, change nothing.
\<close>

theorem proposals_never_flap:
  assumes "ConvertValopertToAccAddress lib (cc_ValAddress cc) = Inr acc"
  shows "(\<not> wasPreviouslyUnvoted cc pid \<and> (\<forall>aw\<in>set aws. aw_Vote aw pid acc \<noteq> Absent) \<longrightarrow>
      \<not> wasPreviouslyUnvoted (poll_run lib aws cc) pid) \<and>
    (wasPreviouslyUnvoted cc pid \<and>
      (\<forall>aw\<in>set aws. (aw_Vote aw pid acc = Absent \<or> (\<exists>err. aw_Vote aw pid acc = Failed err)) \<and>
         (case aw_Proposals aw of Answer (raw, ps) \<Rightarrow> pid \<in> pr_ProposalId ` set ps | Undecodable _ \<Rightarrow> False | _ \<Rightarrow> True)) \<longrightarrow>
      wasPreviouslyUnvoted (poll_run lib aws cc) pid)"
  using assms
proof (induction aws arbitrary: cc)
  case (Cons aw aws)
  have IH: "(\<not> wasPreviouslyUnvoted (poll lib aw cc) pid \<and> (\<forall>aw\<in>set aws. aw_Vote aw pid acc \<noteq> Absent) \<longrightarrow>
      \<not> wasPreviouslyUnvoted (poll_run lib aws (poll lib aw cc)) pid) \<and>
    (wasPreviouslyUnvoted (poll lib aw cc) pid \<and>
      (\<forall>aw\<in>set aws. (aw_Vote aw pid acc = Absent \<or> (\<exists>err. aw_Vote aw pid acc = Failed err)) \<and>
         (case aw_Proposals aw of Answer (raw, ps) \<Rightarrow> pid \<in> pr_ProposalId ` set ps | Undecodable _ \<Rightarrow> False | _ \<Rightarrow> True)) \<longrightarrow>
      wasPreviouslyUnvoted (poll_run lib aws (poll lib aw cc)) pid)"
    using Cons.prems by (intro Cons.IH) simp
  have "\<not> wasPreviouslyUnvoted (poll lib aw cc) pid" if "\<not> wasPreviouslyUnvoted cc pid" "aw_Vote aw pid acc \<noteq> Absent"
    using that by (auto simp: poll_unvoted [OF Cons.prems] owes_vote_def split: abci.split)
  moreover have "wasPreviouslyUnvoted (poll lib aw cc) pid"
    if "wasPreviouslyUnvoted cc pid" "aw_Vote aw pid acc = Absent \<or> (\<exists>err. aw_Vote aw pid acc = Failed err)"
      "case aw_Proposals aw of Answer (raw, ps) \<Rightarrow> pid \<in> pr_ProposalId ` set ps | Undecodable _ \<Rightarrow> False | _ \<Rightarrow> True"
    using that by (auto simp: poll_unvoted [OF Cons.prems] owes_vote_def split: abci.splits)
  ultimately show ?case using IH by simp
qed simp

text \<open>
  An answer that cannot be decoded resolves every governance alert. \<^verbatim>\<open>QueryUnvotedOpenProposals\<close>
  then returns an empty list without an error, the chain counts as having no unvoted proposal, and
  the next evaluation sends a resolution for each active governance alert, although nobody voted.
\<close>

lemma undecodable_proposals_resolve_alerts:
  assumes "aw_Proposals aw = Undecodable err" "chain_of s k = Some cc" "cc_name cc = k" "alarms_ok (alarms s)"
    "\<not> IsZero now" "\<not> silenced now cc"
  shows "let cc1 = poll lib aw cc in
    \<exists>cc' s' closed out. evaluateUnvotedGovernanceProposalAlert zone now cc1 (put_chain k cc1 s) = ((False, closed \<noteq> []), cc', s') \<and>
      alertChan s' = alertChan s @ out \<and> map (\<lambda>m. (m_uniqueId m, m_resolved m)) out = map (\<lambda>i. (i, True)) closed \<and>
      distinct closed \<and> set closed = {i. exist (alarms s) k i \<and> parse_gov_id i \<noteq> None} \<and>
      (\<forall>i. exist (alarms s') k i \<longleftrightarrow> exist (alarms s) k i \<and> parse_gov_id i = None)"
proof -
  let ?cc1 = "poll lib aw cc"
  have u: "?cc1 = cc\<lparr>cc_unvotedOpenGovProposals := []\<rparr>"
    by (simp add: poll_def QueryUnvotedOpenProposals_def assms(1))
  have stale: "gov_stale ?cc1 i \<longleftrightarrow> parse_gov_id i \<noteq> None" for i
    by (simp add: u gov_stale_def split: option.split)
  obtain cc' s' opened closed out1 out2 where
      e: "evaluateUnvotedGovernanceProposalAlert zone now ?cc1 (put_chain k ?cc1 s) = ((opened \<noteq> [], closed \<noteq> []), cc', s')"
      "alertChan s' = alertChan s @ out1 @ out2" "map (\<lambda>m. (m_uniqueId m, m_resolved m)) out1 = map (\<lambda>i. (i, False)) opened"
      "map (\<lambda>m. (m_uniqueId m, m_resolved m)) out2 = map (\<lambda>i. (i, True)) closed" "opened = []"
      "distinct closed" "set closed = {i. exist (alarms s) k i \<and> gov_stale ?cc1 i}"
      "activeAlarms (alarms s') k = {i \<in> activeAlarms (alarms s) k. \<not> gov_stale ?cc1 i}"
    using evaluateUnvotedGovernanceProposalAlert_effect(1) [of "put_chain k ?cc1 s" k ?cc1 now zone] assms(3-6)
    by (auto simp: u proposals_ok_def silenceStatus_def)
  then show ?thesis unfolding Let_def
    by (intro exI [of _ cc'] exI [of _ s'] exI [of _ closed] exI [of _ out2])
      (auto simp: stale activeAlarms_def set_eq_iff)
qed

section \<open>The theorems on a concrete node\<close>

definition demo_sdk :: sdk_lib where
  "demo_sdk = \<lparr>sdk_Decode = (\<lambda>a. Inr (''netvaloper'', replicate 20 CHR ''a'')), sdk_Encode = (\<lambda>p b. Inr (p @ ''1'' @ b)),
     sdk_ed25519_Address = (\<lambda>k. Some (replicate 20 CHR ''k'')), sdk_secp256k1_Address = (\<lambda>k. Some (replicate 20 CHR ''k''))\<rparr>"

text \<open>A node that does not answer.\<close>

definition silent_node :: abci_world where
  "silent_node = \<lparr>aw_Vote = (\<lambda>_ _. Failed ''timeout''), aw_Proposals = Failed ''timeout'', aw_titles = (\<lambda>_. None),
     aw_DenomMetadata = (\<lambda>_. Failed ''timeout''), aw_DelegationRewards = (\<lambda>_ _. Failed ''timeout''),
     aw_ValidatorCommission = (\<lambda>_. Failed ''timeout''), aw_Pool = Failed ''timeout'', aw_Validator = (\<lambda>_. Failed ''timeout''),
     aw_SigningInfo = (\<lambda>_. Failed ''timeout''), aw_SlashingParams = Failed ''timeout'', aw_StakingParams = Failed ''timeout'',
     aw_SupplyOf = (\<lambda>_. Failed ''timeout''), aw_CommunityTax = Failed ''timeout'', aw_Inflation = Failed ''timeout''\<rparr>"

definition demo_open :: "(string \<times> gov_Proposal list) abci" where
  "demo_open = Answer (''raw'', [\<lparr>pr_ProposalId = 7, pr_VotingStartTime = noon, pr_VotingEndTime = noon + 50 * Hour\<rparr>])"

lemma demo_acc: "\<exists>acc. ConvertValopertToAccAddress demo_sdk a = Inr acc"
  by (simp add: ConvertValopertToAccAddress_def demo_sdk_def)

theorem proposals_never_flap_witness:
  "\<not> wasPreviouslyUnvoted (poll_run demo_sdk [silent_node\<lparr>aw_Vote := \<lambda>_ _. Answer (), aw_Proposals := demo_open\<rparr>,
       silent_node\<lparr>aw_Proposals := demo_open\<rparr>, silent_node] sample_chain) 7 \<and>
   wasPreviouslyUnvoted (poll_run demo_sdk [silent_node\<lparr>aw_Proposals := demo_open\<rparr>, silent_node] gov_sample) 7"
proof -
  obtain acc acc' where "ConvertValopertToAccAddress demo_sdk (cc_ValAddress sample_chain) = Inr acc"
      "ConvertValopertToAccAddress demo_sdk (cc_ValAddress gov_sample) = Inr acc'" using demo_acc by metis
  moreover have "\<not> wasPreviouslyUnvoted sample_chain 7" "wasPreviouslyUnvoted gov_sample 7"
    by (simp_all add: wasPreviouslyUnvoted_def sample_chain_def sample_proposal_def)
  ultimately show ?thesis
    using proposals_never_flap [of demo_sdk sample_chain acc 7 "[silent_node\<lparr>aw_Vote := \<lambda>_ _. Answer (), aw_Proposals := demo_open\<rparr>,
        silent_node\<lparr>aw_Proposals := demo_open\<rparr>, silent_node]"]
      proposals_never_flap [of demo_sdk gov_sample acc' 7 "[silent_node\<lparr>aw_Proposals := demo_open\<rparr>, silent_node]"]
    by (simp add: silent_node_def demo_open_def del: poll_run.simps)
qed

definition gov_alarmed :: alarmCache where
  "gov_alarmed = no_alarms\<lparr>AllAlarms := [(''net'', [(gov_alert_id ''netvaloper1xyz'' 7 1700180000,
     \<lparr>amc_Message = ''open'', amc_SentTime = noon, amc_Severity = ''warning'', amc_Escalated = False\<rparr>)])]\<rparr>"

lemma undecodable_proposals_resolve_alerts_witness:
  "\<exists>cc' s' m. evaluateUnvotedGovernanceProposalAlert 0 noon (poll demo_sdk (silent_node\<lparr>aw_Proposals := Undecodable ''eof''\<rparr>) gov_sample)
      (put_chain ''net'' (poll demo_sdk (silent_node\<lparr>aw_Proposals := Undecodable ''eof''\<rparr>) gov_sample)
        (sample_sys gov_sample gov_alarmed)) = ((False, True), cc', s') \<and>
    alertChan s' = [m] \<and> m_resolved m"
proof -
  let ?s = "sample_sys gov_sample gov_alarmed" and ?i = "gov_alert_id ''netvaloper1xyz'' 7 1700180000"
  let ?cc1 = "poll demo_sdk (silent_node\<lparr>aw_Proposals := Undecodable ''eof''\<rparr>) gov_sample"
  have pid: "parse_gov_id ?i \<noteq> None" by (rule ccontr) (simp add: int64_def parse_gov_alert_id)
  have "exist gov_alarmed ''net'' i \<longleftrightarrow> i = ?i" for i
    by (auto simp: gov_alarmed_def exist_def gm2_get_def gm_get_def)
  then have act: "{i. exist gov_alarmed ''net'' i \<and> parse_gov_id i \<noteq> None} = {?i}" using pid by auto
  have ok: "alarms_ok gov_alarmed" by (simp add: gov_alarmed_def alarms_ok_def gm_get_def gm_ok_def)
  have c: "chain_of ?s ''net'' = Some gov_sample" "\<not> silenced noon gov_sample" by simp_all
  obtain cc' s' closed out where e: "evaluateUnvotedGovernanceProposalAlert 0 noon ?cc1 (put_chain ''net'' ?cc1 ?s) =
        ((False, closed \<noteq> []), cc', s')"
      "alertChan s' = out" "map (\<lambda>m. (m_uniqueId m, m_resolved m)) out = map (\<lambda>i. (i, True)) closed"
      "distinct closed" "set closed = {?i}"
    using undecodable_proposals_resolve_alerts [of "silent_node\<lparr>aw_Proposals := Undecodable ''eof''\<rparr>" "''eof''" ?s "''net''" gov_sample noon
        demo_sdk 0] ok c act unfolding Let_def by auto
  have "closed = [?i]" using e(4,5) by (cases closed rule: remdups_adj.cases) auto
  with e(3) obtain m where "out = [m]" "m_resolved m" by auto
  then show ?thesis using e(1,2) \<open>closed = [?i]\<close> by auto
qed

end
