(* ===== verification/NamadaTypes.thy ===== *)
theory NamadaTypes
  imports FloatRead Providers "HOL-Library.Word"
begin

text \<open>
  The types of the Namada chain (\<^verbatim>\<open>td2/namada/types.go\<close>): its 256-bit integers and decimals with
  their text, addresses, the answers of nodes and indexers, and the conversion of a proposal.

  The fields of type \<^verbatim>\<open>struct{}\<close> carry nothing and are left out. The bech32 encoder is a parameter.
  Borsh, the encoding of the node's answers, is outside.
\<close>

section \<open>Integers\<close>

text \<open>Four words, the lowest first.\<close>

type_synonym Uint = "64 word \<times> 64 word \<times> 64 word \<times> 64 word"

definition BigInt :: "Uint \<Rightarrow> int" where
  "BigInt u =
     (case u of (u0, u1, u2, u3) \<Rightarrow>
        fold (\<lambda>w result. push_bit 64 result + uint w) [u2, u1, u0] (uint u3))"

definition Uint_String :: "Uint \<Rightarrow> string" where
  "Uint_String u = itoa (BigInt u)"

lemma BigInt_sum:
  "BigInt (u0, u1, u2, u3) = uint u0 + 2 ^ 64 * uint u1 + 2 ^ 128 * uint u2 + 2 ^ 192 * uint u3"
  by (simp add: BigInt_def push_bit_eq_mult)

lemma BigInt_range: "0 \<le> BigInt u \<and> BigInt u < 2 ^ 256"
proof -
  obtain u0 u1 u2 u3 where u: "u = (u0, u1, u2, u3)" by (cases u)
  have "0 \<le> uint w \<and> uint w < 2 ^ 64" for w :: "64 word" using unsigned_less [of w, where ?'a = int] by simp
  from this [of u0] this [of u1] this [of u2] this [of u3] show ?thesis
    by (simp add: u BigInt_sum)
qed

section \<open>Decimals\<close>

text \<open>
  \<^verbatim>\<open>big.Float\<close>: a number rounded to a number of bits, to even on a tie. The quotient is taken at the
  precision of the operands, at least 64 bits; the precision set afterwards is \<^verbatim>\<open>decPrecision\<close>, the
  number of decimals of the type, used as a number of bits.
\<close>

definition decPrecision :: nat where "decPrecision = 12"

record Dec =
  Raw :: Uint

definition Dec_String :: "Dec \<Rightarrow> string" where
  "Dec_String d =
     (let n = BigInt (Raw d);
          dec = rnd_bits (max 64 (blen (nat n) + 1)) (of_int n / 10 ^ decPrecision);
          x = rnd_bits decPrecision dec
      in if x = 0 then ''0'' else plain_decimal (shortest_decimal (rnd_bits decPrecision) x))"

section \<open>Addresses\<close>

type_synonym AddressHash = string

datatype Discriminant =
  DiscriminantImplicit | DiscriminantEstablished | DiscriminantPos | DiscriminantSlashPool | DiscriminantParameters
| DiscriminantGovernance | DiscriminantIbc | DiscriminantEthBridge | DiscriminantBridgePool | DiscriminantMultitoken
| DiscriminantPgf | DiscriminantErc20 | DiscriminantNut | DiscriminantIbcToken | DiscriminantMasp

fun discriminant_byte :: "Discriminant \<Rightarrow> nat" where
  "discriminant_byte DiscriminantImplicit = 0"
| "discriminant_byte DiscriminantEstablished = 1"
| "discriminant_byte DiscriminantPos = 2"
| "discriminant_byte DiscriminantSlashPool = 3"
| "discriminant_byte DiscriminantParameters = 4"
| "discriminant_byte DiscriminantGovernance = 5"
| "discriminant_byte DiscriminantIbc = 6"
| "discriminant_byte DiscriminantEthBridge = 7"
| "discriminant_byte DiscriminantBridgePool = 8"
| "discriminant_byte DiscriminantMultitoken = 9"
| "discriminant_byte DiscriminantPgf = 10"
| "discriminant_byte DiscriminantErc20 = 11"
| "discriminant_byte DiscriminantNut = 12"
| "discriminant_byte DiscriminantIbcToken = 13"
| "discriminant_byte DiscriminantMasp = 14"

definition encodeBytes :: "(string \<Rightarrow> string \<Rightarrow> string + string) \<Rightarrow> string \<Rightarrow> string \<Rightarrow> string" where
  "encodeBytes enc hrp bs = (case enc hrp bs of Inl err \<Rightarrow> err | Inr result \<Rightarrow> result)"

definition getHumanAddress :: "(string \<Rightarrow> string \<Rightarrow> string + string) \<Rightarrow> Discriminant \<Rightarrow> AddressHash \<Rightarrow> string" where
  "getHumanAddress enc discriminant address = encodeBytes enc ''tnam'' (char_of (discriminant_byte discriminant) # address)"

definition DefaultAddress :: AddressHash where
  "DefaultAddress = replicate 20 (char_of (0 :: nat))"

record InternalAddress =
  ia_Enum :: nat
  ia_IbcToken :: AddressHash
  ia_Erc20 :: AddressHash
  ia_Nut :: AddressHash

definition InternalAddress_String :: "(string \<Rightarrow> string \<Rightarrow> string + string) \<Rightarrow> InternalAddress \<Rightarrow> string" where
  "InternalAddress_String enc ia =
     (let e = ia_Enum ia
      in if e = 0 then getHumanAddress enc DiscriminantPos DefaultAddress
         else if e = 1 then getHumanAddress enc DiscriminantSlashPool DefaultAddress
         else if e = 2 then getHumanAddress enc DiscriminantParameters DefaultAddress
         else if e = 3 then getHumanAddress enc DiscriminantIbc DefaultAddress
         else if e = 4 then getHumanAddress enc DiscriminantIbcToken (ia_IbcToken ia)
         else if e = 5 then getHumanAddress enc DiscriminantGovernance DefaultAddress
         else if e = 6 then getHumanAddress enc DiscriminantEthBridge DefaultAddress
         else if e = 7 then getHumanAddress enc DiscriminantBridgePool DefaultAddress
         else if e = 8 then getHumanAddress enc DiscriminantErc20 (ia_Erc20 ia)
         else if e = 9 then getHumanAddress enc DiscriminantNut (ia_Nut ia)
         else if e = 10 then getHumanAddress enc DiscriminantMultitoken DefaultAddress
         else if e = 11 then getHumanAddress enc DiscriminantPgf DefaultAddress
         else if e = 12 then getHumanAddress enc DiscriminantMasp DefaultAddress
         else [])"

record Address =
  ad_Enum :: nat
  ad_Established :: AddressHash
  ad_Implicit :: AddressHash
  ad_Internal :: InternalAddress

definition Address_String :: "(string \<Rightarrow> string \<Rightarrow> string + string) \<Rightarrow> Address \<Rightarrow> string" where
  "Address_String enc a =
     (if ad_Enum a = 0 then getHumanAddress enc DiscriminantEstablished (ad_Established a)
      else if ad_Enum a = 1 then getHumanAddress enc DiscriminantImplicit (ad_Implicit a)
      else if ad_Enum a = 2 then InternalAddress_String enc (ad_Internal a)
      else [])"

section \<open>Answers of the node\<close>

record ValidatorLiveness =
  vl_NativeAddress :: Address
  vl_CometAddress :: string
  vl_MissedVotes :: nat

record LivenessInfo =
  li_LivenessWindowLen :: nat
  li_LivenessThreshold :: Dec
  li_Validators :: "ValidatorLiveness list"

definition ValidatorStateConsensus :: nat where "ValidatorStateConsensus = 0"
definition ValidatorStateBelowCapacity :: nat where "ValidatorStateBelowCapacity = 1"
definition ValidatorStateBelowThreshold :: nat where "ValidatorStateBelowThreshold = 2"
definition ValidatorStateInactive :: nat where "ValidatorStateInactive = 3"
definition ValidatorStateJailed :: nat where "ValidatorStateJailed = 4"

definition ValidatorState_String :: "nat \<Rightarrow> string" where
  "ValidatorState_String v =
     (if v = ValidatorStateConsensus then ''Consensus''
      else if v = ValidatorStateBelowCapacity then ''BelowCapacity''
      else if v = ValidatorStateBelowThreshold then ''BelowThreshold''
      else if v = ValidatorStateInactive then ''Inactive''
      else if v = ValidatorStateJailed then ''Jailed''
      else ''Unknown'')"

record ValidatorStateInfo =
  vs_State :: "nat option"
  vs_Epoch :: nat

record MetaData =
  me_Email :: string
  me_Description :: "string option"
  me_Website :: "string option"
  me_DiscordHandle :: "string option"
  me_Avatar :: "string option"
  me_Name :: "string option"

record ValidatorMetaData =
  vm_Metadata :: "MetaData option"

record ValidatorCommissionPair =
  vc_CommissionRate :: "Dec option"
  vc_MaxCommissionChangePerEpoch :: "Dec option"
  vc_Epoch :: nat

section \<open>Answers of the indexers\<close>

record NamadaProposal =
  np_ID :: string
  np_Content :: string
  np_Type :: string
  np_TallyType :: string
  np_Data :: string
  np_Author :: string
  np_StartEpoch :: string
  np_EndEpoch :: string
  np_ActivationEpoch :: string
  np_StartTime :: string
  np_EndTime :: string
  np_CurrentTime :: string
  np_ActivationTime :: string
  np_Status :: string
  np_YayVotes :: string
  np_NayVotes :: string
  np_AbstainVotes :: string

record NamadaProposalResponse =
  nr_Results :: "NamadaProposal list"
  nr_Page :: int
  nr_PerPage :: int
  nr_TotalPages :: int
  nr_TotalItems :: int

record NamadaVotingPowerResponse =
  vp_TotalVotingPower :: string

record NamadaValidatorRewardsResponse =
  vr_MinDenomAmount :: string

text \<open>Conversion of a proposal, with the errors of \<^verbatim>\<open>strconv\<close>.\<close>

definition num_error_text :: "string \<Rightarrow> string \<Rightarrow> num_error \<Rightarrow> string" where
  "num_error_text f s e =
     ''strconv.'' @ f @ '': parsing '' @ quote s @
     (case e of ErrSyntax \<Rightarrow> '': invalid syntax'' | ErrRange \<Rightarrow> '': value out of range'')"

definition ToGovProposal :: "NamadaProposal \<Rightarrow> string + gov_Proposal" where
  "ToGovProposal np =
     (case ParseUint (np_ID np) of
        (_, Some err) \<Rightarrow> Inl (''failed to parse proposal ID: '' @ num_error_text ''ParseUint'' (np_ID np) err)
      | (proposalId, None) \<Rightarrow>
          (case ParseInt (np_StartTime np) of
             (_, Some err) \<Rightarrow> Inl (''failed to parse voting start time: '' @ num_error_text ''ParseInt'' (np_StartTime np) err)
           | (startTs, None) \<Rightarrow>
               (case ParseInt (np_EndTime np) of
                  (_, Some err) \<Rightarrow> Inl (''failed to parse voting end time: '' @ num_error_text ''ParseInt'' (np_EndTime np) err)
                | (endTs, None) \<Rightarrow>
                    Inr \<lparr>pr_ProposalId = proposalId, pr_VotingStartTime = time_Unix startTs,
                         pr_VotingEndTime = time_Unix endTs\<rparr>)))"


section \<open>What a decimal is read as\<close>

lemma max_64: "(2::rat) ^ 64 \<le> 2 ^ max 64 n"
  by (rule power_increasing) simp_all

text \<open>
  C37: A decimal of the chain, such as the commission rate, is read off by its text, which keeps twelve
  bits of it: the float is within one in two thousand of the decimal, and zero is read as zero.
\<close>

theorem decimal_read_near:
  "\<exists>f. ParseFloat (Dec_String d) = Some (Fin f) \<and>
     \<bar>f - of_int (BigInt (Raw d)) / 10 ^ 12\<bar> \<le> of_int (BigInt (Raw d)) / 10 ^ 12 / 2000"
proof (cases "BigInt (Raw d) = 0")
  case True
  have "ParseFloat ''0'' = Some (Fin 0)"
    using ParseFloat_itoa [of 0] by (simp add: itoa_def utoa.simps digit_simps f64_of_int_small)
  then show ?thesis by (simp add: Dec_String_def True rnd_bits_def Let_def)
next
  case False
  define n where "n = BigInt (Raw d)"
  have n: "1 \<le> n" "n < 2 ^ 256" using False BigInt_range [of "Raw d"] by (simp_all add: n_def)
  define r :: rat where "r = of_int n / 10 ^ 12"
  have r: "1 / 10 ^ 12 \<le> r" "r < 2 ^ 256"
  proof -
    have "(of_int n :: rat) < of_int (2 ^ 256)" using n(2) by (simp only: of_int_less_iff)
    then show "1 / 10 ^ 12 \<le> r" "r < 2 ^ 256" using n(1) by (simp_all add: r_def)
  qed
  define p where "p = max 64 (blen (nat n) + 1)"
  define y where "y = rnd_bits p r"
  define x where "x = rnd_bits 12 y"
  have r0: "0 < r" using r(1) by (simp add: less_le_trans [rotated])
  have "\<bar>y - r\<bar> \<le> r / 2 ^ p" unfolding y_def using r0 by (rule rnd_bits_err)
  also have "\<dots> \<le> r / 2 ^ 64" unfolding p_def by (intro divide_left_mono max_64) (use r0 in simp_all)
  finally have y: "\<bar>y - r\<bar> \<le> r / 2 ^ 64" .
  have y0: "0 < y" unfolding y_def using r0 by (rule rnd_bits_pos) (simp add: p_def)
  have x: "\<bar>x - y\<bar> \<le> y / 2 ^ 12" unfolding x_def using y0 by (rule rnd_bits_err)
  have x0: "0 < x" unfolding x_def using y0 by (rule rnd_bits_pos) simp
  obtain c k where ck: "shortest_decimal (rnd_bits 12) x = (c, k)" by fastforce
  define t :: rat where "t = of_int c * 10 powi k"
  have c: "0 \<le> c" "rnd_bits 12 t = x \<or> \<bar>t - x\<bar> \<le> x / 10 ^ 16"
    using shortest_near [OF ck x0] by (simp_all add: t_def)
  have t: "\<bar>t - x\<bar> \<le> t / 2 ^ 12 \<or> \<bar>t - x\<bar> \<le> x / 10 ^ 16"
    using c(2)
  proof
    assume "rnd_bits 12 t = x"
    moreover from this have "0 < t" using x0 by (auto simp: rnd_bits_def split: if_splits)
    ultimately have "\<bar>x - t\<bar> \<le> t / 2 ^ 12" using rnd_bits_err by blast
    then show ?thesis by (simp add: abs_minus_commute)
  qed simp
  have lin: "\<bar>y - r\<bar> \<le> r / 18446744073709551616" "\<bar>x - y\<bar> \<le> y / 4096" using x y by simp_all
  have t: "\<bar>t - x\<bar> \<le> t / 4096 \<or> \<bar>t - x\<bar> \<le> x / 10000000000000000" using t by simp
  have bounds: "r / 2 \<le> t" "t \<le> 2 * r"
    using t by (elim disjE; use lin r0 in linarith)+
  have "(2::rat) powi (- 1022) \<le> 2 powi (- 50)" by (rule powi_2_mono) simp
  also have "\<dots> \<le> t" using bounds(1) r(1) by (simp add: power_int_minus)
  finally have "2 powi (- 1022) \<le> t" .
  moreover have "t < 2 ^ 1000" using bounds(2) r(2) by simp
  ultimately obtain f where f: "f64_round t = Fin f" "\<bar>f - t\<bar> \<le> t / 2 ^ 53" by (rule f64_round_near)
  have "rnd_bits decPrecision (rnd_bits (max 64 (blen (nat (BigInt (Raw d))) + 1)) (of_int (BigInt (Raw d)) / 10 ^ decPrecision)) = x"
    by (simp only: decPrecision_def n_def p_def r_def y_def x_def)
  then have "Dec_String d = plain_decimal (c, k)"
    unfolding Dec_String_def Let_def using x0 ck by (simp add: decPrecision_def)
  then have "ParseFloat (Dec_String d) = Some (Fin f)" using ParseFloat_plain [OF c(1)] f(1) by (simp add: t_def)
  moreover have "\<bar>f - t\<bar> \<le> t / 9007199254740992" using f(2) by simp
  then have "\<bar>f - r\<bar> \<le> r / 2000" using t by (elim disjE; use lin r0 in linarith)
  ultimately show ?thesis by (auto simp: r_def n_def)
qed

section \<open>Addresses and their text\<close>

text \<open>What an address stands for: the hash of the variants that carry one.\<close>

definition internal_hash :: "InternalAddress \<Rightarrow> AddressHash" where
  "internal_hash ia =
     (if ia_Enum ia = 4 then ia_IbcToken ia else if ia_Enum ia = 8 then ia_Erc20 ia
      else if ia_Enum ia = 9 then ia_Nut ia else DefaultAddress)"

definition address_key :: "Address \<Rightarrow> nat \<times> nat \<times> AddressHash" where
  "address_key a =
     (if ad_Enum a = 0 then (0, 0, ad_Established a)
      else if ad_Enum a = 1 then (1, 0, ad_Implicit a)
      else (2, ia_Enum (ad_Internal a), internal_hash (ad_Internal a)))"

text \<open>An address as it is decoded: a known variant, hashes of twenty bytes.\<close>

definition address_ok :: "Address \<Rightarrow> bool" where
  "address_ok a \<longleftrightarrow> ad_Enum a \<le> 2 \<and> ia_Enum (ad_Internal a) \<le> 12 \<and>
     length (ad_Established a) = 20 \<and> length (ad_Implicit a) = 20 \<and> length (ia_IbcToken (ad_Internal a)) = 20 \<and>
     length (ia_Erc20 (ad_Internal a)) = 20 \<and> length (ia_Nut (ad_Internal a)) = 20"

definition internal_bytes :: "nat list" where
  "internal_bytes = [2, 3, 4, 6, 13, 5, 7, 8, 11, 12, 9, 10, 14]"

definition address_bytes :: "Address \<Rightarrow> string" where
  "address_bytes a =
     (case address_key a of (v, e, h) \<Rightarrow>
        char_of (if v = 0 then 1 else if v = 1 then 0 else internal_bytes ! e) # h)"

lemma InternalAddress_String_bytes:
  assumes "ia_Enum ia \<le> 12"
  shows "InternalAddress_String enc ia = encodeBytes enc ''tnam'' (char_of (internal_bytes ! ia_Enum ia) # internal_hash ia)"
proof -
  have "ia_Enum ia = 0 \<or> ia_Enum ia = 1 \<or> ia_Enum ia = 2 \<or> ia_Enum ia = 3 \<or> ia_Enum ia = 4 \<or> ia_Enum ia = 5 \<or>
      ia_Enum ia = 6 \<or> ia_Enum ia = 7 \<or> ia_Enum ia = 8 \<or> ia_Enum ia = 9 \<or> ia_Enum ia = 10 \<or> ia_Enum ia = 11 \<or>
      ia_Enum ia = 12" using assms by presburger
  then show ?thesis
    by (elim disjE; simp add: InternalAddress_String_def getHumanAddress_def internal_hash_def internal_bytes_def)
qed

lemma Address_String_bytes:
  "address_ok a \<Longrightarrow> Address_String enc a = encodeBytes enc ''tnam'' (address_bytes a)"
  by (auto simp: Address_String_def address_ok_def address_bytes_def address_key_def getHumanAddress_def
      InternalAddress_String_bytes)

lemma internal_bytes_range: "e \<le> 12 \<Longrightarrow> 1 < internal_bytes ! e \<and> internal_bytes ! e < 256"
proof -
  assume "e \<le> 12"
  then have "internal_bytes ! e \<in> set internal_bytes" by (intro nth_mem) (simp add: internal_bytes_def)
  then show ?thesis by (auto simp: internal_bytes_def)
qed

lemma internal_bytes_inj: "e \<le> 12 \<Longrightarrow> e' \<le> 12 \<Longrightarrow> internal_bytes ! e = internal_bytes ! e' \<longleftrightarrow> e = e'"
  by (rule nth_eq_iff_index_eq) (simp_all add: internal_bytes_def)

lemma char_of_eq: "m < 256 \<Longrightarrow> n < 256 \<Longrightarrow> char_of m = char_of n \<longleftrightarrow> m = (n :: nat)"
  by (metis char_of_eq_iff mod_less of_char_of)

lemma address_bytes_inj:
  assumes "address_ok a" "address_ok b"
  shows "address_bytes a = address_bytes b \<longleftrightarrow> address_key a = address_key b"
proof -
  have e: "ia_Enum (ad_Internal a) \<le> 12" "ia_Enum (ad_Internal b) \<le> 12" using assms by (simp_all add: address_ok_def)
  show ?thesis
    using internal_bytes_range [OF e(1)] internal_bytes_range [OF e(2)] internal_bytes_inj [OF e]
    by (simp add: address_bytes_def address_key_def char_of_eq del: char_of_eq_iff)
qed

lemma address_bytes_length: "address_ok a \<Longrightarrow> length (address_bytes a) = 21"
  by (auto simp: address_ok_def address_bytes_def address_key_def internal_hash_def DefaultAddress_def)

text \<open>
  The text of an address identifies it. For addresses as they are decoded, two texts are the
  same exactly when the addresses are of the same variant and carry the same hash: the discriminants
  of the variants do not clash. It relies on bech32 encoding 21 bytes without an error and without
  mapping two byte strings to one text.
\<close>

lemma address_text_identifies:
  assumes "\<And>bs. length bs = 21 \<Longrightarrow> \<exists>t. enc ''tnam'' bs = Inr t \<and> dec t = bs" "address_ok a" "address_ok b"
  shows "Address_String enc a = Address_String enc b \<longleftrightarrow> address_key a = address_key b"
proof -
  obtain t u where tu: "enc ''tnam'' (address_bytes a) = Inr t" "dec t = address_bytes a"
      "enc ''tnam'' (address_bytes b) = Inr u" "dec u = address_bytes b"
    using assms(1) [OF address_bytes_length [OF assms(2)]] assms(1) [OF address_bytes_length [OF assms(3)]] by blast
  have "Address_String enc a = Address_String enc b \<longleftrightarrow> t = u"
    using tu by (simp add: Address_String_bytes assms(2,3) encodeBytes_def)
  also have "\<dots> \<longleftrightarrow> address_bytes a = address_bytes b" using tu by auto
  finally show ?thesis using address_bytes_inj [OF assms(2,3)] by simp
qed

definition internal_sample :: "nat \<Rightarrow> Address" where
  "internal_sample e =
     \<lparr>ad_Enum = 2, ad_Established = DefaultAddress, ad_Implicit = DefaultAddress,
      ad_Internal = \<lparr>ia_Enum = e, ia_IbcToken = DefaultAddress, ia_Erc20 = DefaultAddress, ia_Nut = DefaultAddress\<rparr>\<rparr>"

lemma address_text_identifies_witness:
  "Address_String (\<lambda>hrp bs. Inr (hrp @ ''1'' @ bs)) (internal_sample 8) \<noteq>
   Address_String (\<lambda>hrp bs. Inr (hrp @ ''1'' @ bs)) (internal_sample 9)"
proof -
  have "address_ok (internal_sample e)" if "e \<le> 12" for e
    using that by (simp add: address_ok_def internal_sample_def DefaultAddress_def)
  then show ?thesis
    using address_text_identifies [of "\<lambda>hrp bs. Inr (hrp @ ''1'' @ bs)" "drop 5" "internal_sample 8" "internal_sample 9"]
    by (simp add: address_key_def internal_sample_def)
qed

end
