(* ===== verification/ValidatorInfo.thy ===== *)
theory ValidatorInfo
  imports Providers Dashboard WatchLoop
begin

text \<open>
  The refresh of the validator info (\<^verbatim>\<open>td2/validator.go\<close>): \<^verbatim>\<open>GetValInfo\<close> in the stages it runs
  through, \<^verbatim>\<open>GetMinSignedPerWindow\<close> and \<^verbatim>\<open>fetchBankMetadataFromGitHub\<close>. Log lines are left out.

  The locale \<open>chain_provider\<close> is what \<^verbatim>\<open>GetValInfo\<close> relies on of a provider without checking it:
  a voting pool that is not nil and a key of at least 20 bytes. The provider for the Cosmos SDK
  keeps this contract.
\<close>

record valinfo_world =
  vw_ops :: dec_ops
  vw_lib :: sdk_lib
  vw_getPrice :: "gotime \<Rightarrow> string \<Rightarrow> cached TenderdutyCache \<Rightarrow> (string + CryptoPrice) \<times> cached TenderdutyCache"
  vw_metadata_json :: "(string, Metadata) gomap reply"
  vw_default :: ChainProvider
  vw_namada :: ChainProvider

definition provider_of :: "valinfo_world \<Rightarrow> ChainConfig \<Rightarrow> ChainProvider" where
  "provider_of w cc = (if pv_Name (cc_Provider cc) = ''namada'' then vw_namada w else vw_default w)"

definition GetMinSignedPerWindow :: "valinfo_world \<Rightarrow> ChainConfig \<Rightarrow> (string option \<times> ChainConfig) option" where
  "GetMinSignedPerWindow w cc =
     (if cc_client cc = None then Some (Some ''nil rpc client'', cc)
      else do { params \<leftarrow> cp_SlashingParams (provider_of w cc) cc;
                Some (case params of
                    Inl err \<Rightarrow> (Some err, cc)
                  | Inr sp \<Rightarrow> (None, cc\<lparr>cc_minSignedPerWindow := dec_MustFloat64 (vw_ops w) (sp_MinSignedPerWindow sp)\<rparr>)) })"

text \<open>The table of bank metadata in the repository, kept in the cache for twelve hours.\<close>

definition fetchBankMetadataFromGitHub ::
  "gotime \<Rightarrow> (string, Metadata) gomap reply \<Rightarrow> ChainConfig \<Rightarrow> cached TenderdutyCache \<Rightarrow>
   (string + Metadata) \<times> cached TenderdutyCache" where
  "fetchBankMetadataFromGitHub now resp cc cache =
     (let cacheKey = ''bank_metadata_map'';
          look = (\<lambda>m c. (case gm_get m (cc_Slug cc) of
                     Some md \<Rightarrow> (Inr md, c)
                   | None \<Rightarrow> (Inl (''no bank metadata found for '' @ cc_Slug cc @ '' in GitHub fallback''), c)))
      in case cache_Get now cacheKey cache of
           (Some (CachedBankMetadata m), c) \<Rightarrow> look m c
         | (_, c) \<Rightarrow>
             (case resp of
                NoReply err \<Rightarrow> (Inl (''failed to fetch bank metadata from GitHub: '' @ err), c)
              | Reply code status b \<Rightarrow>
                  if code \<noteq> 200 then
                    (Inl (''failed to fetch bank metadata from GitHub: unexpected status code '' @ itoa code), c)
                  else case b of
                         Inl err \<Rightarrow> (Inl err, c)
                       | Inr m \<Rightarrow> look m (cache_Set now cacheKey (CachedBankMetadata m) (12 * Hour) c)))"

section \<open>The stages of GetValInfo\<close>

definition new_ValInfo :: ValInfo where
  "new_ValInfo =
     \<lparr>vi_Moniker = [], vi_Bonded = False, vi_Jailed = False, vi_Tombstoned = False, vi_Missed = 0, vi_Window = 0,
      vi_Conspub = None, vi_Valcons = [], vi_DelegatedTokens = Fin 0, vi_VotingPowerPercent = Fin 0,
      vi_CommissionRate = Fin 0, vi_ValidatorAPR = Fin 0, vi_Projected30DRewards = Fin 0,
      vi_SelfDelegationRewards = None, vi_Commission = None\<rparr>"

definition with_valinfo :: "(ValInfo \<Rightarrow> ValInfo) \<Rightarrow> ChainConfig \<Rightarrow> ChainConfig" where
  "with_valinfo f cc = cc\<lparr>cc_valInfo := map_option f (cc_valInfo cc)\<rparr>"

definition store_validator :: "string \<times> string \<times> bool \<times> bool \<times> f64 \<times> f64 \<Rightarrow> ChainConfig \<Rightarrow> ChainConfig" where
  "store_validator info =
     (case info of (conspub, name, jailed, bonded, delegatedTokens, commissionRate) \<Rightarrow>
        with_valinfo (\<lambda>vi. vi\<lparr>vi_Conspub := Some conspub, vi_Moniker := name, vi_Jailed := jailed, vi_Bonded := bonded,
                              vi_DelegatedTokens := delegatedTokens, vi_CommissionRate := commissionRate\<rparr>))"

definition refresh_price ::
  "valinfo_world \<Rightarrow> gotime \<Rightarrow> Config \<Rightarrow> ChainConfig \<Rightarrow> cached TenderdutyCache \<Rightarrow> ChainConfig \<times> cached TenderdutyCache" where
  "refresh_price w now c cc cache =
     (if pc_Enabled (cfg_PriceConversion c) then
        (case vw_getPrice w now (cc_Slug cc) cache of
           (Inr price, cache') \<Rightarrow> (cc\<lparr>cc_cryptoPrice := Some price\<rparr>, cache')
         | (Inl _, cache') \<Rightarrow> (cc, cache'))
      else (cc, cache))"

definition question_mark :: string where "question_mark = [CHR 0xE2, CHR 0x9D, CHR 0x93]"

text \<open>
  The consensus address of the signing info query: the first 20 bytes of the key under the prefix of
  the network. On an error the empty string is stored.
\<close>

definition encode_valcons :: "sdk_lib \<Rightarrow> string \<Rightarrow> ChainConfig \<Rightarrow> (string option \<times> ChainConfig) option" where
  "encode_valcons lib prefix cc =
     do { vi \<leftarrow> cc_valInfo cc;
          let pub = (case vi_Conspub vi of None \<Rightarrow> [] | Some p \<Rightarrow> p);
          (if length pub < 20 then None
           else Some (case sdk_Encode lib prefix (take 20 pub) of
               Inl err \<Rightarrow> (Some err, with_valinfo (\<lambda>vi. vi\<lparr>vi_Valcons := []\<rparr>) cc)
             | Inr address \<Rightarrow> (None, with_valinfo (\<lambda>vi. vi\<lparr>vi_Valcons := address\<rparr>) cc))) }"

definition refresh_valcons :: "sdk_lib \<Rightarrow> bool \<Rightarrow> ChainConfig \<Rightarrow> (string option \<times> ChainConfig) option" where
  "refresh_valcons lib first cc =
     (if Contains (cc_ValAddress cc) ''valcons''
      then Some (None, with_valinfo (\<lambda>vi. vi\<lparr>vi_Valcons := cc_ValAddress cc\<rparr>) cc)
      else
        let parts = Split (cc_ValAddress cc) ''valoper'' in
        do { (err, cc') \<leftarrow>
               (if length parts \<noteq> 2 then
                  (case getAltPrefix (cc_ValAddress cc) of
                     (pre, True) \<Rightarrow> encode_valcons lib pre cc
                   | (_, False) \<Rightarrow>
                       Some (Some (question_mark @ '' could not determine bech32 prefix from valoper address: '' @
                                   cc_ValAddress cc), cc))
                else encode_valcons lib (hd parts @ ''valcons'') cc);
             (if err = None \<and> first \<and> length (cc_ValAddress cc) < 20 then None else Some (err, cc')) })"

definition refresh_pool :: "dec_ops \<Rightarrow> ChainProvider \<Rightarrow> ChainConfig \<Rightarrow> ChainConfig option" where
  "refresh_pool ops p cc =
     do { r \<leftarrow> cp_VotingPool p cc;
          (case r of
             Inl _ \<Rightarrow> Some cc
           | Inr None \<Rightarrow> None
           | Inr (Some bonded) \<Rightarrow>
               let total = dec_MustFloat64 ops (ToDec bonded)
               in Some (with_valinfo (\<lambda>vi. vi\<lparr>vi_VotingPowerPercent := f64_div (vi_DelegatedTokens vi) total\<rparr>)
                          (cc\<lparr>cc_totalBondedTokens := total\<rparr>))) }"

text \<open>The denom to look up: the staking parameters, else cosmos.directory, else the rewards.\<close>

definition bond_denom :: "ChainProvider \<Rightarrow> ChainConfig \<Rightarrow> DecCoin list \<Rightarrow> string option" where
  "bond_denom p cc rewards =
     do { params \<leftarrow> cp_StakingParams p cc;
          let d0 = (case params of Inl _ \<Rightarrow> [] | Inr d \<Rightarrow> d);
          let d1 = (if d0 \<noteq> [] then d0
                    else case cc_cosmosDirectoryData cc of
                           None \<Rightarrow> []
                         | Some data \<Rightarrow> if cdp_BondDenom (cd_Params data) \<noteq> [] then cdp_BondDenom (cd_Params data)
                                        else cd_Denom data);
          Some (if d1 = [] \<and> rewards \<noteq> [] then dc_Denom (hd rewards) else d1) }"

text \<open>Its metadata: from the node, else cosmos.directory, else the table on GitHub.\<close>

definition load_metadata ::
  "valinfo_world \<Rightarrow> ChainProvider \<Rightarrow> gotime \<Rightarrow> DecCoin list \<Rightarrow> ChainConfig \<Rightarrow> cached TenderdutyCache \<Rightarrow>
   (ChainConfig \<times> cached TenderdutyCache) option" where
  "load_metadata w p now rewards cc cache =
     do { denom \<leftarrow> bond_denom p cc rewards;
          (if denom = [] then Some (cc, cache)
           else do { r \<leftarrow> cp_DenomMetadata p cc denom;
                     Some (case r of
                         Inr md \<Rightarrow> (cc\<lparr>cc_denomMetadata := Some md\<rparr>, cache)
                       | Inl _ \<Rightarrow>
                           (case getBankMetadataFromCosmosDirectory cc denom of
                              Some md \<Rightarrow> (cc\<lparr>cc_denomMetadata := Some md\<rparr>, cache)
                            | None \<Rightarrow>
                                (case fetchBankMetadataFromGitHub now (vw_metadata_json w) cc cache of
                                   (Inr md, cache') \<Rightarrow> (cc\<lparr>cc_denomMetadata := Some md\<rparr>, cache')
                                 | (Inl _, cache') \<Rightarrow> (cc, cache')))) }) }"

definition displayed :: "dec_ops \<Rightarrow> ChainConfig \<Rightarrow> DecCoin list \<Rightarrow> DecCoin list option" where
  "displayed ops cc coins =
     (case cc_denomMetadata cc of
        None \<Rightarrow> Some coins
      | Some md \<Rightarrow> do { r \<leftarrow> ConvertDecCoinToDisplayUnit ops coins md;
                       Some (case r of Inl _ \<Rightarrow> coins | Inr converted \<Rightarrow> converted) })"

definition refresh_rewards ::
  "valinfo_world \<Rightarrow> ChainProvider \<Rightarrow> gotime \<Rightarrow> bool \<Rightarrow> ChainConfig \<Rightarrow> cached TenderdutyCache \<Rightarrow>
   (ChainConfig \<times> cached TenderdutyCache) option" where
  "refresh_rewards w p now first cc cache =
     do { r \<leftarrow> cp_RewardsAndCommission p cc;
          (case r of
             Inl _ \<Rightarrow> Some (cc, cache)
           | Inr (rewards, commission) \<Rightarrow>
               do { (cc1, cache1) \<leftarrow> (if first then load_metadata w p now rewards cc cache else Some (cc, cache));
                    rewards' \<leftarrow> displayed (vw_ops w) cc1 rewards;
                    commission' \<leftarrow> displayed (vw_ops w) cc1 commission;
                    Some (with_valinfo (\<lambda>vi. vi\<lparr>vi_SelfDelegationRewards := Some rewards', vi_Commission := Some commission'\<rparr>) cc1,
                          cache1) }) }"

definition validator_apr :: "ChainConfig \<Rightarrow> f64 \<Rightarrow> ChainConfig" where
  "validator_apr cc base =
     with_valinfo (\<lambda>vi. vi\<lparr>vi_ValidatorAPR := f64_mul base (f64_sub (Fin 1) (vi_CommissionRate vi))\<rparr>)
       (cc\<lparr>cc_baseAPR := base\<rparr>)"

definition refresh_apr :: "ChainProvider \<Rightarrow> ChainConfig \<Rightarrow> ChainConfig option" where
  "refresh_apr p cc =
     do { r \<leftarrow> cp_ChainInfo p cc;
          let cc1 = (case r of
                Inl _ \<Rightarrow> cc
              | Inr (totalSupply, communityTax, queried) \<Rightarrow>
                  let inflationRate = (if cc_InflationRateOverriding cc \<noteq> Fin 0 then cc_InflationRateOverriding cc else queried);
                      base = f64_div (f64_mul (f64_mul inflationRate (f64_sub (Fin 1) communityTax)) totalSupply)
                               (cc_totalBondedTokens cc)
                  in validator_apr (cc\<lparr>cc_totalSupply := totalSupply, cc_communityTax := communityTax,
                                       cc_inflationRate := inflationRate\<rparr>) base);
          Some (if isl r \<or> cc_baseAPR cc1 = Fin 0 then
                  (case getChainInfoFromCosmosDirectory cc1 of
                     (cdCommunityTax, cdAPR, ok) \<Rightarrow>
                       if ok \<and> f64_lt (Fin 0) cdAPR
                       then validator_apr (cc1\<lparr>cc_communityTax := cdCommunityTax\<rparr>) cdAPR else cc1)
                else cc1) }"

fun div_tens :: "nat \<Rightarrow> f64 \<Rightarrow> f64" where
  "div_tens 0 x = x"
| "div_tens (Suc n) x = div_tens n (f64_div x (Fin 10))"

definition project_rewards :: "ChainConfig \<Rightarrow> ChainConfig" where
  "project_rewards cc =
     (case (cc_denomMetadata cc, cc_cryptoPrice cc) of
        (Some md, Some price) \<Rightarrow>
          if f64_lt (Fin 0) (cc_baseAPR cc) then
            with_valinfo (\<lambda>vi.
              let baseUnits = f64_div (f64_mul (f64_mul (f64_mul (vi_DelegatedTokens vi) (vi_ValidatorAPR vi))
                                         (vi_CommissionRate vi)) (Fin 30)) (Fin 365);
                  displayExponent = (if md_Display md \<noteq> [] then
                                       (case unit_exponent md (md_Display md) of None \<Rightarrow> 0 | Some e \<Rightarrow> e) else 0)
              in vi\<lparr>vi_Projected30DRewards := f64_mul (div_tens displayExponent baseUnits) (cp_Price price)\<rparr>) cc
          else cc
      | _ \<Rightarrow> cc)"

definition refresh_proposals :: "ChainProvider \<Rightarrow> ChainConfig \<Rightarrow> sys \<Rightarrow> (ChainConfig \<times> sys) option" where
  "refresh_proposals p cc s =
     do { r \<leftarrow> cp_UnvotedOpenProposals p cc;
          (case r of
             Inl _ \<Rightarrow> Some (cc, s)
           | Inr unvoted \<Rightarrow>
               let cc1 = cc\<lparr>cc_unvotedOpenGovProposals := unvoted\<rparr>
               in if cfg_Prom (td s) then
                    do { u \<leftarrow> mkUpdate cc1 metricUnvotedProposals (f64_of_int (int (length unvoted))) [];
                         Some (cc1, s\<lparr>statsChan := statsChan s @ [u]\<rparr>) }
                  else Some (cc1, s)) }"

text \<open>The signing info, and the window as long as it is not known; an error of the latter is not reported.\<close>

definition refresh_window :: "ChainProvider \<Rightarrow> ChainConfig \<Rightarrow> sys \<Rightarrow> (ChainConfig \<times> sys) option" where
  "refresh_window p cc s =
     do { vi \<leftarrow> cc_valInfo cc;
          (if vi_Window vi \<noteq> 0 then Some (cc, s)
           else do { r \<leftarrow> cp_SlashingParams p cc;
                     (case r of
                        Inl _ \<Rightarrow> Some (cc, s)
                      | Inr params \<Rightarrow>
                          do { s1 \<leftarrow> (if cfg_Prom (td s) then
                                  do { u \<leftarrow> mkUpdate cc metricWindowSize (f64_of_int (sp_SignedBlocksWindow params)) [];
                                       v \<leftarrow> mkUpdate cc metricTotalNodes (f64_of_int (int (length (cc_Nodes cc)))) [];
                                       Some (s\<lparr>statsChan := statsChan s @ [u, v]\<rparr>) }
                                else Some s);
                               Some (with_valinfo (\<lambda>vi. vi\<lparr>vi_Window := sp_SignedBlocksWindow params\<rparr>) cc, s1) }) }) }"

definition refresh_signing :: "ChainProvider \<Rightarrow> ChainConfig \<Rightarrow> sys \<Rightarrow> (string option \<times> ChainConfig \<times> sys) option" where
  "refresh_signing p cc s =
     do { r \<leftarrow> cp_SigningInfo p cc;
          (case r of
             Inl err \<Rightarrow> Some (Some err, cc, s)
           | Inr info \<Rightarrow>
               let cc1 = with_valinfo (\<lambda>vi. vi\<lparr>vi_Tombstoned := si_Tombstoned info, vi_Missed := si_MissedBlocksCounter info\<rparr>) cc
               in do { s1 \<leftarrow> (if cfg_Prom (td s) then
                           do { u \<leftarrow> mkUpdate cc1 metricWindowMissed (f64_of_int (si_MissedBlocksCounter info)) [];
                                Some (s\<lparr>statsChan := statsChan s @ [u]\<rparr>) }
                         else Some s);
                       (cc2, s2) \<leftarrow> refresh_window p cc1 s1;
                       Some (None, cc2, s2) }) }"

text \<open>Everything after the validator itself has been found.\<close>

definition refresh_details ::
  "valinfo_world \<Rightarrow> gotime \<Rightarrow> bool \<Rightarrow> ChainProvider \<Rightarrow> ChainConfig \<Rightarrow> cached TenderdutyCache \<Rightarrow> sys \<Rightarrow>
   (string option \<times> ChainConfig \<times> cached TenderdutyCache \<times> sys) option" where
  "refresh_details w now first p cc cache s =
     do { cc1 \<leftarrow> refresh_pool (vw_ops w) p cc;
          (cc2, cache') \<leftarrow> refresh_rewards w p now first cc1 cache;
          cc3 \<leftarrow> (if cc_denomMetadata cc2 = None then Some cc2 else map_option project_rewards (refresh_apr p cc2));
          (cc4, s1) \<leftarrow> refresh_proposals p cc3 s;
          (err, cc5, s2) \<leftarrow> refresh_signing p cc4 s1;
          Some (err, cc5, cache', s2) }"

definition GetValInfo ::
  "valinfo_world \<Rightarrow> gotime \<Rightarrow> bool \<Rightarrow> ChainConfig \<Rightarrow> cached TenderdutyCache \<Rightarrow> sys \<Rightarrow>
   (string option \<times> ChainConfig \<times> cached TenderdutyCache \<times> sys) option" where
  "GetValInfo w now first cc0 cache s =
     (if cc_client cc0 = None then Some (Some ''nil rpc client'', cc0, cache, s)
      else
        let cc1 = (if cc_valInfo cc0 = None then cc0\<lparr>cc_valInfo := Some new_ValInfo\<rparr> else cc0);
            p = provider_of w cc1
        in do { info \<leftarrow> cp_ValidatorInfo p cc1;
                (case info of
                   Inl err \<Rightarrow> Some (Some err, cc1, cache, s)
                 | Inr v \<Rightarrow>
                     let (cc2, cache1) = refresh_price w now (td s) (store_validator v cc1) cache
                     in do { (err, cc3) \<leftarrow> refresh_valcons (vw_lib w) first cc2;
                             (if err \<noteq> None then Some (err, cc3, cache1, s)
                              else refresh_details w now first p cc3 cache1 s) }) })"


section \<open>The contract of a provider\<close>

lemma with_valinfo_simps [simp]:
  "cc_valInfo (with_valinfo f cc) = map_option f (cc_valInfo cc)"
  "cc_denomMetadata (with_valinfo f cc) = cc_denomMetadata cc" "cc_ValAddress (with_valinfo f cc) = cc_ValAddress cc"
  "cc_Provider (with_valinfo f cc) = cc_Provider cc" "cc_baseAPR (with_valinfo f cc) = cc_baseAPR cc"
  "cc_totalBondedTokens (with_valinfo f cc) = cc_totalBondedTokens cc" "cc_client (with_valinfo f cc) = cc_client cc"
  "cc_name (with_valinfo f cc) = cc_name cc" "cc_ChainId (with_valinfo f cc) = cc_ChainId cc"
  "cc_cryptoPrice (with_valinfo f cc) = cc_cryptoPrice cc" "cc_Alerts (with_valinfo f cc) = cc_Alerts cc"
  "cc_cosmosDirectoryData (with_valinfo f cc) = cc_cosmosDirectoryData cc" "cc_Nodes (with_valinfo f cc) = cc_Nodes cc"
  "cc_unvotedOpenGovProposals (with_valinfo f cc) = cc_unvotedOpenGovProposals cc"
  "cc_InflationRateOverriding (with_valinfo f cc) = cc_InflationRateOverriding cc"
  by (simp_all add: with_valinfo_def)

lemma outcomeE:
  assumes "do { r \<leftarrow> m; case r of Inl err \<Rightarrow> f err | Inr v \<Rightarrow> g v } = Some y"
  obtains err where "m = Some (Inl err)" "f err = Some y" | v where "m = Some (Inr v)" "g v = Some y"
  using assms by (cases m; cases "the m") auto

lemma mkUpdate_total: "cc_valInfo cc \<noteq> None \<Longrightarrow> \<exists>u. mkUpdate cc m v node = Some u"
  by (auto simp: mkUpdate_def)

lemma encode_valcons_total:
  assumes "cc_valInfo cc = Some vi" "vi_Conspub vi = Some pub" "20 \<le> length pub"
  shows "\<exists>e cc'. encode_valcons lib prefix cc = Some (e, cc') \<and> cc_valInfo cc' \<noteq> None"
  using assms by (cases "sdk_Encode lib prefix (take 20 pub)") (simp_all add: encode_valcons_def)

text \<open>The addresses whose prefix is known, so that the key of the validator is encoded under it.\<close>

definition needs_key :: "string \<Rightarrow> bool" where
  "needs_key addr \<longleftrightarrow>
     \<not> Contains addr ''valcons'' \<and> (length (Split addr ''valoper'') = 2 \<or> snd (getAltPrefix addr))"

lemma valcons_total:
  assumes "cc_valInfo cc = Some vi" "vi_Conspub vi = Some pub" "20 \<le> length (cc_ValAddress cc)"
    "needs_key (cc_ValAddress cc) \<Longrightarrow> 20 \<le> length pub"
  shows "\<exists>e cc'. refresh_valcons lib first cc = Some (e, cc') \<and> cc_valInfo cc' \<noteq> None"
proof (cases "Contains (cc_ValAddress cc) ''valcons''")
  case False
  let ?parts = "Split (cc_ValAddress cc) ''valoper''"
  define stage where "stage = (if length ?parts \<noteq> 2 then
                  (case getAltPrefix (cc_ValAddress cc) of
                     (pre, True) \<Rightarrow> encode_valcons lib pre cc
                   | (_, False) \<Rightarrow>
                       Some (Some (question_mark @ '' could not determine bech32 prefix from valoper address: '' @
                                   cc_ValAddress cc), cc))
                else encode_valcons lib (hd ?parts @ ''valcons'') cc)"
  have "\<exists>e cc'. stage = Some (e, cc') \<and> cc_valInfo cc' \<noteq> None"
    using encode_valcons_total [OF assms(1,2)] assms(1,4) False unfolding needs_key_def
    by (cases "getAltPrefix (cc_ValAddress cc)"; cases "snd (getAltPrefix (cc_ValAddress cc))") (simp_all add: stage_def)
  then show ?thesis using assms(3) False by (auto simp: refresh_valcons_def Let_def simp flip: stage_def)
qed (simp add: refresh_valcons_def assms(1))

lemma encode_valcons_shape:
  assumes "encode_valcons lib prefix cc = Some (e, cc')"
  obtains a where "cc' = with_valinfo (\<lambda>vi. vi\<lparr>vi_Valcons := a\<rparr>) cc"
  using assms by (auto simp: encode_valcons_def Let_def bind_eq_Some_conv split: if_split_asm sum.split_asm)

lemma with_valinfo_id: "with_valinfo (\<lambda>vi. vi) cc = cc"
  by (simp add: with_valinfo_def option.map_ident)

lemma valcons_shape:
  assumes "refresh_valcons lib first cc = Some (e, cc')"
  obtains f where "cc' = with_valinfo f cc" "\<And>vi. vi_Window (f vi) = vi_Window vi"
proof (cases "Contains (cc_ValAddress cc) ''valcons''")
  case True
  then show thesis using assms that [of "\<lambda>vi. vi\<lparr>vi_Valcons := cc_ValAddress cc\<rparr>"] by (simp add: refresh_valcons_def)
next
  case False
  obtain pre ok where alt: "getAltPrefix (cc_ValAddress cc) = (pre, ok)" by fastforce
  have "(\<exists>prefix. encode_valcons lib prefix cc = Some (e, cc')) \<or> cc' = cc"
    using assms False by (cases ok) (auto simp: refresh_valcons_def alt Let_def bind_eq_Some_conv split: if_split_asm)
  then show thesis
  proof (elim disjE exE)
    fix prefix assume "encode_valcons lib prefix cc = Some (e, cc')"
    then obtain a where "cc' = with_valinfo (\<lambda>vi. vi\<lparr>vi_Valcons := a\<rparr>) cc" by (rule encode_valcons_shape)
    then show thesis by (rule that) simp
  qed (use that [of "\<lambda>vi. vi"] in \<open>simp add: with_valinfo_id\<close>)
qed

lemma valcons_frame:
  "refresh_valcons lib first cc = Some (e, cc') \<Longrightarrow> cc_Provider cc' = cc_Provider cc \<and> cc_ValAddress cc' = cc_ValAddress cc"
  by (erule valcons_shape) simp

text \<open>The contract may depend on the settings of the provider and on the address of the validator.\<close>

locale chain_provider =
  fixes prov :: "'w \<Rightarrow> ChainProvider" and ok :: "'w \<Rightarrow> ProviderConfig \<Rightarrow> string \<Rightarrow> bool"
  assumes info: "ok x (cc_Provider cc) (cc_ValAddress cc) \<Longrightarrow> \<exists>r. cp_ValidatorInfo (prov x) cc = Some r \<and>
      (\<forall>v. r = Inr v \<and> needs_key (cc_ValAddress cc) \<longrightarrow> 20 \<le> length (fst v))"
    and pool: "ok x (cc_Provider cc) (cc_ValAddress cc) \<Longrightarrow> \<exists>r. cp_VotingPool (prov x) cc = Some r \<and> r \<noteq> Inr None"
    and proposals: "ok x pv va \<Longrightarrow> cp_UnvotedOpenProposals (prov x) cc \<noteq> None"
    and rewards: "ok x pv va \<Longrightarrow> cp_RewardsAndCommission (prov x) cc \<noteq> None"
    and staking: "ok x pv va \<Longrightarrow> cp_StakingParams (prov x) cc \<noteq> None"
    and slashing: "ok x pv va \<Longrightarrow> cp_SlashingParams (prov x) cc \<noteq> None"
    and denom: "ok x pv va \<Longrightarrow> cp_DenomMetadata (prov x) cc d \<noteq> None"
    and chain_info: "ok x pv va \<Longrightarrow> cc_denomMetadata cc \<noteq> None \<Longrightarrow> cp_ChainInfo (prov x) cc \<noteq> None"
    and signing: "ok x pv va \<Longrightarrow> cc_valInfo cc \<noteq> None \<Longrightarrow> cp_SigningInfo (prov x) cc \<noteq> None"
begin

lemma pool_total:
  assumes "ok x (cc_Provider cc) (cc_ValAddress cc)" "cc_valInfo cc \<noteq> None"
  shows "\<exists>cc'. refresh_pool ops (prov x) cc = Some cc' \<and> cc_valInfo cc' \<noteq> None"
proof -
  obtain r where "cp_VotingPool (prov x) cc = Some r" "r \<noteq> Inr None" using pool [OF assms(1)] by blast
  with assms(2) show ?thesis
    by (auto simp: refresh_pool_def Let_def split: sum.split option.split)
qed

lemma metadata_total: "ok x pv va \<Longrightarrow> \<exists>cc' c'. load_metadata w (prov x) now rs cc c = Some (cc', c') \<and> cc_valInfo cc' = cc_valInfo cc"
proof -
  assume x: "ok x pv va"
  obtain d where d: "bond_denom (prov x) cc rs = Some d"
    using staking [OF x, of cc] by (fastforce simp: bond_denom_def Let_def)
  obtain r where r: "cp_DenomMetadata (prov x) cc d = Some r" using denom [OF x] by blast
  let ?dir = "getBankMetadataFromCosmosDirectory cc d"
  let ?hub = "fetchBankMetadataFromGitHub now (vw_metadata_json w) cc c"
  let ?out = "if d = [] then (cc, c)
       else case r of
          Inr md \<Rightarrow> (cc\<lparr>cc_denomMetadata := Some md\<rparr>, c)
        | Inl _ \<Rightarrow> (case ?dir of
             Some md \<Rightarrow> (cc\<lparr>cc_denomMetadata := Some md\<rparr>, c)
           | None \<Rightarrow> (case ?hub of
                (Inr md, cache') \<Rightarrow> (cc\<lparr>cc_denomMetadata := Some md\<rparr>, cache')
              | (Inl _, cache') \<Rightarrow> (cc, cache')))"
  have A: "load_metadata w (prov x) now rs cc c = Some ?out"
    by (cases "d = []") (simp_all only: load_metadata_def d r Option.bind.simps if_True if_False simp_thms)
  have B: "cc_valInfo (fst ?out) = cc_valInfo cc"
  proof (cases r)
    case Inl
    obtain g c' where g: "?hub = (g, c')" by (cases ?hub)
    show ?thesis unfolding Inl g by (cases ?dir; cases g) simp_all
  qed simp
  show ?thesis
  proof (rule exI, rule exI, rule conjI)
    show "load_metadata w (prov x) now rs cc c = Some (fst ?out, snd ?out)"
      unfolding prod.collapse by (rule A)
  qed (rule B)
qed

lemma displayed_total: "dec_total ops \<Longrightarrow> \<exists>cs. displayed ops cc coins = Some cs"
proof (cases "cc_denomMetadata cc")
  case (Some md)
  assume "dec_total ops"
  then obtain r where "ConvertDecCoinToDisplayUnit ops coins md = Some r" using convert_total by metis
  then show ?thesis by (simp add: displayed_def Some)
qed (simp add: displayed_def)

lemma refresh_rewards_total:
  assumes "ok x pv va" "dec_total (vw_ops w)" "cc_valInfo cc \<noteq> None"
  shows "\<exists>cc' c'. refresh_rewards w (prov x) now first cc c = Some (cc', c') \<and> cc_valInfo cc' \<noteq> None"
proof -
  obtain r where r: "cp_RewardsAndCommission (prov x) cc = Some r" using rewards [OF assms(1)] by blast
  show ?thesis
  proof (cases r)
    case (Inr rc)
    obtain rs cs where rc: "rc = (rs, cs)" by fastforce
    obtain cc1 c1 where 1: "(if first then load_metadata w (prov x) now rs cc c else Some (cc, c)) = Some (cc1, c1)"
        "cc_valInfo cc1 = cc_valInfo cc"
      using metadata_total [OF assms(1), of w now rs cc c] by (cases first) auto
    obtain rs' cs' where "displayed (vw_ops w) cc1 rs = Some rs'" "displayed (vw_ops w) cc1 cs = Some cs'"
      using displayed_total [OF assms(2)] by metis
    then show ?thesis using 1 assms(3) by (simp add: refresh_rewards_def r Inr rc)
  qed (use r assms(3) in \<open>auto simp: refresh_rewards_def\<close>)
qed

lemma apr_total:
  assumes "ok x pv va" "cc_denomMetadata cc \<noteq> None" "cc_valInfo cc \<noteq> None"
  shows "\<exists>cc'. refresh_apr (prov x) cc = Some cc' \<and> cc_valInfo cc' \<noteq> None"
proof -
  obtain r where "cp_ChainInfo (prov x) cc = Some r" using chain_info [OF assms(1,2)] by blast
  then show ?thesis using assms(3)
    by (auto simp: refresh_apr_def validator_apr_def Let_def split: sum.split prod.split)
qed

lemma proposals_total:
  assumes "ok x pv va" "cc_valInfo cc \<noteq> None"
  shows "\<exists>cc' s'. refresh_proposals (prov x) cc s = Some (cc', s') \<and> cc_valInfo cc' \<noteq> None"
proof -
  obtain r where r: "cp_UnvotedOpenProposals (prov x) cc = Some r" using proposals [OF assms(1)] by blast
  show ?thesis
  proof (cases r)
    case (Inr us)
    obtain u where "mkUpdate (cc\<lparr>cc_unvotedOpenGovProposals := us\<rparr>) metricUnvotedProposals (f64_of_int (int (length us))) [] = Some u"
      using mkUpdate_total [of "cc\<lparr>cc_unvotedOpenGovProposals := us\<rparr>" metricUnvotedProposals "f64_of_int (int (length us))" "[]"] assms(2) by auto
    then show ?thesis using assms(2) by (simp add: refresh_proposals_def r Inr Let_def)
  qed (use r assms(2) in \<open>simp add: refresh_proposals_def\<close>)
qed

lemma window_total:
  assumes "ok x pv va" "cc_valInfo cc \<noteq> None"
  shows "\<exists>cc' s'. refresh_window (prov x) cc s = Some (cc', s') \<and> cc_valInfo cc' \<noteq> None"
proof -
  obtain r where r: "cp_SlashingParams (prov x) cc = Some r" using slashing [OF assms(1)] by blast
  obtain vi where vi: "cc_valInfo cc = Some vi" using assms(2) by blast
  then show ?thesis using r by (cases r) (simp_all add: refresh_window_def mkUpdate_def)
qed

lemma signing_total:
  assumes "ok x pv va" "cc_valInfo cc \<noteq> None"
  shows "\<exists>e cc' s'. refresh_signing (prov x) cc s = Some (e, cc', s') \<and> cc_valInfo cc' \<noteq> None"
proof -
  obtain r where r: "cp_SigningInfo (prov x) cc = Some r" using signing [OF assms] by blast
  show ?thesis
  proof (cases r)
    case (Inr i)
    let ?cc = "with_valinfo (\<lambda>vi. vi\<lparr>vi_Tombstoned := si_Tombstoned i, vi_Missed := si_MissedBlocksCounter i\<rparr>) cc"
    have v: "cc_valInfo ?cc \<noteq> None" using assms(2) by simp
    obtain u where u: "mkUpdate ?cc metricWindowMissed (f64_of_int (si_MissedBlocksCounter i)) [] = Some u"
      using mkUpdate_total [OF v] by blast
    let ?s = "if cfg_Prom (td s) then s\<lparr>statsChan := statsChan s @ [u]\<rparr> else s"
    obtain cc' s' where "refresh_window (prov x) ?cc ?s = Some (cc', s')" "cc_valInfo cc' \<noteq> None"
      using window_total [OF assms(1) v] by blast
    then show ?thesis using u by (cases "cfg_Prom (td s)") (simp_all add: refresh_signing_def r Inr Let_def)
  qed (use r assms(2) in \<open>simp add: refresh_signing_def\<close>)
qed

lemma details_total:
  assumes "ok x (cc_Provider cc) (cc_ValAddress cc)" "dec_total (vw_ops w)" "cc_valInfo cc \<noteq> None"
  shows "\<exists>e cc' c' s'. refresh_details w now first (prov x) cc c s = Some (e, cc', c', s') \<and> cc_valInfo cc' \<noteq> None"
proof -
  obtain cc1 where 1: "refresh_pool (vw_ops w) (prov x) cc = Some cc1" "cc_valInfo cc1 \<noteq> None"
    using pool_total [OF assms(1,3)] by blast
  obtain cc2 c2 where 2: "refresh_rewards w (prov x) now first cc1 c = Some (cc2, c2)" "cc_valInfo cc2 \<noteq> None"
    using refresh_rewards_total [OF assms(1,2) 1(2)] by blast
  obtain cc3 where 3: "(if cc_denomMetadata cc2 = None then Some cc2 else map_option project_rewards (refresh_apr (prov x) cc2)) = Some cc3"
      "cc_valInfo cc3 \<noteq> None"
  proof (cases "cc_denomMetadata cc2 = None")
    case False
    then obtain c3 where "refresh_apr (prov x) cc2 = Some c3" "cc_valInfo c3 \<noteq> None"
      using apr_total [OF assms(1) _ 2(2)] by blast
    then show thesis using that False by (auto simp: project_rewards_def split: option.split)
  qed (use that 2 in auto)
  obtain cc4 s4 where 4: "refresh_proposals (prov x) cc3 s = Some (cc4, s4)" "cc_valInfo cc4 \<noteq> None"
    using proposals_total [OF assms(1) 3(2)] by blast
  obtain e cc5 s5 where 5: "refresh_signing (prov x) cc4 s4 = Some (e, cc5, s5)" "cc_valInfo cc5 \<noteq> None"
    using signing_total [OF assms(1) 4(2)] by blast
  show ?thesis using 5(2) by (simp add: refresh_details_def 1(1) 2(1) 3(1) 4(1) 5(1))
qed

lemma GetValInfo_total:
  assumes "ok x (cc_Provider cc) (cc_ValAddress cc)" "cc_client cc \<noteq> None" "pv_Name (cc_Provider cc) = ''namada'' \<Longrightarrow> vw_namada w = prov x"
    "pv_Name (cc_Provider cc) \<noteq> ''namada'' \<Longrightarrow> vw_default w = prov x" "dec_total (vw_ops w)" "20 \<le> length (cc_ValAddress cc)"
  shows "\<exists>e cc' c' s'. GetValInfo w now first cc c s = Some (e, cc', c', s') \<and> cc_valInfo cc' \<noteq> None"
proof -
  define cc1 where "cc1 = (if cc_valInfo cc = None then cc\<lparr>cc_valInfo := Some new_ValInfo\<rparr> else cc)"
  have cc1: "cc_valInfo cc1 \<noteq> None" "cc_ValAddress cc1 = cc_ValAddress cc" "cc_Provider cc1 = cc_Provider cc"
    by (auto simp: cc1_def)
  have p: "provider_of w cc1 = prov x" using assms(3,4) by (auto simp: provider_of_def cc1_def)
  obtain r where r: "cp_ValidatorInfo (prov x) cc1 = Some r"
      "\<And>v. r = Inr v \<Longrightarrow> needs_key (cc_ValAddress cc) \<Longrightarrow> 20 \<le> length (fst v)"
    using info [of x cc1] assms(1) cc1(2,3) by auto
  show ?thesis
  proof (cases r)
    case (Inl err)
    then show ?thesis using assms(2) cc1(1) r(1) p by (auto simp: GetValInfo_def Let_def simp flip: cc1_def)
  next
    case (Inr v)
    obtain cc2 c2 where 2: "refresh_price w now (td s) (store_validator v cc1) c = (cc2, c2)"
      by (cases "refresh_price w now (td s) (store_validator v cc1) c")
    obtain vi where vi: "cc_valInfo cc2 = Some vi" "vi_Conspub vi = Some (fst v)" and a2: "cc_ValAddress cc2 = cc_ValAddress cc" "cc_Provider cc2 = cc_Provider cc"
      using 2 cc1 by (cases v) (auto simp: refresh_price_def store_validator_def split: if_splits prod.splits sum.splits)
    have "needs_key (cc_ValAddress cc2) \<Longrightarrow> 20 \<le> length (fst v)" using r(2) [OF Inr] a2 by simp
    then obtain e cc3 where 3: "refresh_valcons (vw_lib w) first cc2 = Some (e, cc3)" "cc_valInfo cc3 \<noteq> None"
      using valcons_total [OF vi] a2(1) assms(6) by metis
    show ?thesis
    proof (cases e)
      case (Some err)
      then show ?thesis using assms(2) r(1) p 2 3
        by (auto simp: GetValInfo_def Let_def Inr simp flip: cc1_def)
    next
      case None
      obtain e5 cc5 c5 s5 where "refresh_details w now first (prov x) cc3 c2 s = Some (e5, cc5, c5, s5)" "cc_valInfo cc5 \<noteq> None"
        using details_total [of x cc3 w] assms(1,5) 3(2) valcons_frame [OF 3(1)] a2 by metis
      then show ?thesis using assms(2) r(1) p 2 3 None
        by (auto simp: GetValInfo_def Let_def Inr simp flip: cc1_def)
    qed
  qed
qed

end

text \<open>
  The provider for the Cosmos SDK keeps the contract as long as the node's answers hold no key of a
  wrong size, on which the SDK panics.
\<close>

definition node_keys_ok :: "sdk_lib \<Rightarrow> abci_world \<Rightarrow> bool" where
  "node_keys_ok lib aw \<longleftrightarrow>
     (\<forall>v val key. aw_Validator aw v = Answer val \<and> qv_ConsensusPubkey val = Some key \<longrightarrow>
        (\<exists>r. consensus_address lib key = Some r \<and> (\<forall>a. r = Inr a \<longrightarrow> a = [] \<or> length a = 20)))"

lemma QueryValidatorInfo_contract:
  assumes "node_keys_ok lib aw"
  shows "\<exists>r. QueryValidatorInfo ops lib aw cc = Some r \<and>
    (\<forall>v. r = Inr v \<and> needs_key (cc_ValAddress cc) \<longrightarrow> 20 \<le> length (fst v))"
proof (cases "Contains (cc_ValAddress cc) ''valcons''")
  case True
  then show ?thesis by (auto simp: QueryValidatorInfo_def needs_key_def split: sum.split)
next
  case False
  show ?thesis
  proof (cases "aw_Validator aw (cc_ValAddress cc)")
    case (Answer val)
    show ?thesis
    proof (cases "qv_ConsensusPubkey val")
      case (Some key)
      obtain r where "consensus_address lib key = Some r" "\<And>a. r = Inr a \<Longrightarrow> a = [] \<or> length a = 20"
        using assms Answer Some unfolding node_keys_ok_def by blast
      then show ?thesis using False Answer Some
        by (cases r) (auto simp: QueryValidatorInfo_def answered_def)
    qed (use False Answer in \<open>simp add: QueryValidatorInfo_def answered_def\<close>)
  qed (use False in \<open>simp_all add: QueryValidatorInfo_def answered_def\<close>)
qed

lemma DefaultProvider_simps [simp]:
  "cp_UnvotedOpenProposals (DefaultProvider ops lib aw) cc = Some (QueryUnvotedOpenProposals lib aw cc)"
  "cp_ChainInfo (DefaultProvider ops lib aw) = QueryChainInfo ops aw"
  "cp_ValidatorInfo (DefaultProvider ops lib aw) = QueryValidatorInfo ops lib aw"
  "cp_SigningInfo (DefaultProvider ops lib aw) = QuerySigningInfo aw"
  "cp_SlashingParams (DefaultProvider ops lib aw) cc = Some (QuerySlashingParams aw)"
  "cp_StakingParams (DefaultProvider ops lib aw) cc = Some (QueryStakingParams aw)"
  "cp_VotingPool (DefaultProvider ops lib aw) cc = Some (map_sum id Some (QueryValidatorVotingPool aw cc))"
  "cp_RewardsAndCommission (DefaultProvider ops lib aw) cc =
     Some (QueryValidatorSelfDelegationRewardsAndCommission lib aw cc)"
  "cp_DenomMetadata (DefaultProvider ops lib aw) cc d = Some (QueryDenomMetadata aw d)"
  by (simp_all add: DefaultProvider_def)

interpretation sdk: chain_provider "\<lambda>(ops, lib, aw). DefaultProvider ops lib aw" "\<lambda>(ops, lib, aw) _ _. node_keys_ok lib aw"
proof (unfold_locales, goal_cases)
  case (1 x cc)
  then show ?case by (cases x) (simp add: QueryValidatorInfo_contract del: split_paired_All)
next
  case (2 x cc)
  obtain ops lib aw where x: "x = (ops, lib, aw)" by (cases x)
  show ?case by (cases "QueryValidatorVotingPool aw cc") (simp_all add: x)
qed (auto simp: QueryChainInfo_def QuerySigningInfo_def)


section \<open>What a refresh leaves alone\<close>

text \<open>
  \<open>kept\<close>: what belongs to the configuration, the metadata of the denom, and a signing window that
  is known.
\<close>

definition kept :: "bool \<Rightarrow> ChainConfig \<Rightarrow> ChainConfig \<Rightarrow> bool" where
  "kept first cc cc' \<longleftrightarrow>
     cc_name cc' = cc_name cc \<and> cc_ValAddress cc' = cc_ValAddress cc \<and> cc_Alerts cc' = cc_Alerts cc \<and>
     cc_Nodes cc' = cc_Nodes cc \<and> cc_silencedUntil cc' = cc_silencedUntil cc \<and>
     cc_Provider cc' = cc_Provider cc \<and> cc_blocksResults cc' = cc_blocksResults cc \<and>
     (\<not> first \<longrightarrow> cc_denomMetadata cc' = cc_denomMetadata cc) \<and> (cc_valInfo cc \<noteq> None \<longrightarrow> cc_valInfo cc' \<noteq> None) \<and>
     (\<forall>vi. cc_valInfo cc = Some vi \<and> vi_Window vi \<noteq> 0 \<longrightarrow>
        (\<exists>vi'. cc_valInfo cc' = Some vi' \<and> vi_Window vi' = vi_Window vi))"

lemma kept_refl [simp]: "kept first cc cc"
  by (simp add: kept_def)

lemma kept_trans: "kept first a b \<Longrightarrow> kept first b c \<Longrightarrow> kept first a c"
  unfolding kept_def by fastforce

lemma kept_with_valinfo: "(\<And>vi. vi_Window (f vi) = vi_Window vi) \<Longrightarrow> kept first cc cc1 \<Longrightarrow> kept first cc (with_valinfo f cc1)"
  unfolding kept_def by (fastforce simp: with_valinfo_def)

lemma store_validator_kept: "kept first cc (store_validator v cc)"
  by (cases v) (auto simp: store_validator_def intro!: kept_with_valinfo)

lemma price_kept: "refresh_price w now c cc cache = (cc', cache') \<Longrightarrow> kept first cc cc'"
  by (auto simp: refresh_price_def kept_def split: if_splits prod.splits sum.splits)

lemma valcons_kept: "refresh_valcons lib first cc = Some (e, cc') \<Longrightarrow> kept first cc cc'"
  by (erule valcons_shape) (simp add: kept_with_valinfo)

lemma price_frame:
  "cc_totalBondedTokens (fst (refresh_price w now c cc cache)) = cc_totalBondedTokens cc"
  "cc_denomMetadata (fst (refresh_price w now c cc cache)) = cc_denomMetadata cc"
  "cc_InflationRateOverriding (fst (refresh_price w now c cc cache)) = cc_InflationRateOverriding cc"
  by (simp_all add: refresh_price_def split: prod.split sum.split)

lemma store_validator_simps [simp]:
  "cc_totalBondedTokens (store_validator v cc) = cc_totalBondedTokens cc"
  "cc_denomMetadata (store_validator v cc) = cc_denomMetadata cc"
  "cc_InflationRateOverriding (store_validator v cc) = cc_InflationRateOverriding cc"
  by (cases v; simp add: store_validator_def)+

lemma pool_kept: "refresh_pool ops p cc = Some cc' \<Longrightarrow> kept first cc cc'"
  unfolding refresh_pool_def
  by (erule outcomeE)
    (auto simp: Let_def kept_def with_valinfo_def split: option.split_asm)

lemma metadata_kept: "load_metadata w p now rs cc c = Some (cc', c') \<Longrightarrow> kept True cc cc'"
proof -
  assume m: "load_metadata w p now rs cc c = Some (cc', c')"
  obtain g h where hub: "fetchBankMetadataFromGitHub now (vw_metadata_json w) cc c = (g, h)" by fastforce
  obtain d where d: "bond_denom p cc rs = Some d" using m by (auto simp: load_metadata_def bind_eq_Some_conv)
  define upd where "upd = (\<lambda>md. cc\<lparr>cc_denomMetadata := Some md\<rparr>)"
  have upd: "cc\<lparr>cc_denomMetadata := Some md\<rparr> = upd md" "kept True cc (upd md)" for md by (simp_all add: upd_def kept_def)
  show "kept True cc cc'"
  proof (cases "d = []")
    case True
    then show ?thesis using m d by (simp add: load_metadata_def)
  next
    case False
    then obtain r where r: "cp_DenomMetadata p cc d = Some r" using m d by (auto simp: load_metadata_def bind_eq_Some_conv)
    show ?thesis
      using m False unfolding load_metadata_def d r hub upd(1)
      by (cases r) (auto simp: r upd(2) split: sum.split_asm option.split_asm)
  qed
qed

lemma rewards_kept: "refresh_rewards w p now first cc cache = Some (cc', cache') \<Longrightarrow> kept first cc cc'"
  unfolding refresh_rewards_def
  by (erule outcomeE) (cases first; auto simp: bind_eq_Some_conv intro!: kept_with_valinfo dest: metadata_kept)+

lemma kept_updates [simp]:
  "kept first cc (cc1\<lparr>cc_communityTax := a\<rparr>) \<longleftrightarrow> kept first cc cc1"
  "kept first cc (cc1\<lparr>cc_totalSupply := b, cc_communityTax := a, cc_inflationRate := c\<rparr>) \<longleftrightarrow> kept first cc cc1"
  by (simp_all add: kept_def)

lemma validator_apr_kept: "kept first cc cc1 \<Longrightarrow> kept first cc (validator_apr cc1 base)"
  unfolding validator_apr_def by (rule kept_with_valinfo) (simp_all add: kept_def)

lemma apr_kept: "refresh_apr p cc = Some cc' \<Longrightarrow> kept first cc cc'"
proof -
  assume a: "refresh_apr p cc = Some cc'"
  then obtain r where "cp_ChainInfo p cc = Some r" by (auto simp: refresh_apr_def bind_eq_Some_conv)
  with a show ?thesis
    by (cases r)
      (auto simp: refresh_apr_def Let_def intro!: validator_apr_kept split: prod.split_asm if_split_asm)
qed

lemma project_kept: "kept first cc (project_rewards cc)"
  by (auto simp: project_rewards_def Let_def intro!: kept_with_valinfo split: option.split)

lemma proposals_kept: "refresh_proposals p cc s = Some (cc', s') \<Longrightarrow> kept first cc cc'"
  unfolding refresh_proposals_def
  by (erule outcomeE) (auto simp: Let_def bind_eq_Some_conv kept_def split: if_splits)

lemma window_kept: "refresh_window p cc s = Some (cc', s') \<Longrightarrow> kept first cc cc'"
proof -
  assume a: "refresh_window p cc s = Some (cc', s')"
  then obtain vi where vi: "cc_valInfo cc = Some vi" by (auto simp: refresh_window_def bind_eq_Some_conv)
  show ?thesis
  proof (cases "vi_Window vi = 0")
    case True
    then have "do { r \<leftarrow> cp_SlashingParams p cc;
        case r of Inl _ \<Rightarrow> Some (cc, s)
        | Inr params \<Rightarrow> do { s1 \<leftarrow> (if cfg_Prom (td s) then
               do { u \<leftarrow> mkUpdate cc metricWindowSize (f64_of_int (sp_SignedBlocksWindow params)) [];
                    v \<leftarrow> mkUpdate cc metricTotalNodes (f64_of_int (int (length (cc_Nodes cc)))) [];
                    Some (s\<lparr>statsChan := statsChan s @ [u, v]\<rparr>) } else Some s);
            Some (with_valinfo (\<lambda>vi. vi\<lparr>vi_Window := sp_SignedBlocksWindow params\<rparr>) cc, s1) } } = Some (cc', s')"
      using a vi by (simp add: refresh_window_def)
    then show ?thesis
      by (rule outcomeE) (auto simp: bind_eq_Some_conv kept_def with_valinfo_def vi True)
  qed (use a vi in \<open>simp add: refresh_window_def\<close>)
qed

lemma signing_kept: "refresh_signing p cc s = Some (e, cc', s') \<Longrightarrow> kept first cc cc'"
  unfolding refresh_signing_def
proof (erule outcomeE)
  fix i assume "(let cc1 = with_valinfo (\<lambda>vi. vi\<lparr>vi_Tombstoned := si_Tombstoned i, vi_Missed := si_MissedBlocksCounter i\<rparr>) cc
      in do { s1 \<leftarrow> (if cfg_Prom (td s) then
                  do { u \<leftarrow> mkUpdate cc1 metricWindowMissed (f64_of_int (si_MissedBlocksCounter i)) [];
                       Some (s\<lparr>statsChan := statsChan s @ [u]\<rparr>) } else Some s);
              (cc2, s2) \<leftarrow> refresh_window p cc1 s1; Some (None, cc2, s2) }) = Some (e, cc', s')"
  then obtain s1 where "refresh_window p
      (with_valinfo (\<lambda>vi. vi\<lparr>vi_Tombstoned := si_Tombstoned i, vi_Missed := si_MissedBlocksCounter i\<rparr>) cc) s1 = Some (cc', s')"
    by (auto simp: Let_def bind_eq_Some_conv)
  from window_kept [OF this] show "kept first cc cc'" by (rule kept_trans [rotated]) (simp add: kept_with_valinfo)
qed auto

lemma details_kept: "refresh_details w now first p cc cache s = Some (e, cc', cache', s') \<Longrightarrow> kept first cc cc'"
proof -
  assume "refresh_details w now first p cc cache s = Some (e, cc', cache', s')"
  then obtain cc1 cc2 c2 cc3 cc4 s1 where
      1: "refresh_pool (vw_ops w) p cc = Some cc1" "refresh_rewards w p now first cc1 cache = Some (cc2, c2)"
      "(if cc_denomMetadata cc2 = None then Some cc2 else map_option project_rewards (refresh_apr p cc2)) = Some cc3"
      "refresh_proposals p cc3 s = Some (cc4, s1)" "refresh_signing p cc4 s1 = Some (e, cc', s')"
    by (auto simp: refresh_details_def bind_eq_Some_conv)
  have "kept first cc2 cc3" using 1(3) apr_kept kept_trans [OF _ project_kept] by (auto split: if_splits)
  then show ?thesis
    using pool_kept [OF 1(1)] rewards_kept [OF 1(2)] proposals_kept [OF 1(4)] signing_kept [OF 1(5)]
    by (blast intro: kept_trans)
qed

lemma GetValInfo_kept:
  assumes "GetValInfo w now first cc cache s = Some (err, cc', cache', s')"
  shows "kept first cc cc'"
proof (cases "cc_client cc = None")
  case True
  then show ?thesis using assms by (simp add: GetValInfo_def)
next
  case False
  define cc1 where "cc1 = (if cc_valInfo cc = None then cc\<lparr>cc_valInfo := Some new_ValInfo\<rparr> else cc)"
  have k1: "kept first cc cc1" by (auto simp: cc1_def kept_def)
  have "do { info \<leftarrow> cp_ValidatorInfo (provider_of w cc1) cc1;
        case info of Inl err \<Rightarrow> Some (Some err, cc1, cache, s)
        | Inr v \<Rightarrow>
            let (cc2, cache1) = refresh_price w now (td s) (store_validator v cc1) cache
            in do { (err, cc3) \<leftarrow> refresh_valcons (vw_lib w) first cc2;
                    (if err \<noteq> None then Some (err, cc3, cache1, s)
                     else refresh_details w now first (provider_of w cc1) cc3 cache1 s) } } = Some (err, cc', cache', s')"
    using assms unfolding GetValInfo_def by (simp only: False Let_def if_False cc1_def)
  then have "kept first cc1 cc'"
  proof (rule outcomeE)
    fix v assume "(let (cc2, cache1) = refresh_price w now (td s) (store_validator v cc1) cache
            in do { (err, cc3) \<leftarrow> refresh_valcons (vw_lib w) first cc2;
                    (if err \<noteq> None then Some (err, cc3, cache1, s)
                     else refresh_details w now first (provider_of w cc1) cc3 cache1 s) }) = Some (err, cc', cache', s')"
    then obtain cc2 c2 e cc3 where 2: "refresh_price w now (td s) (store_validator v cc1) cache = (cc2, c2)"
        "refresh_valcons (vw_lib w) first cc2 = Some (e, cc3)"
        "cc' = cc3 \<or> refresh_details w now first (provider_of w cc1) cc3 c2 s = Some (err, cc', cache', s')"
      by (auto simp: bind_eq_Some_conv split: prod.splits if_splits)
    then have "kept first cc3 cc'" using details_kept by fastforce
    then show ?thesis
      using store_validator_kept [where cc = cc1 and v = v] price_kept [OF 2(1)] valcons_kept [OF 2(2)] by (blast intro: kept_trans)
  qed auto
  with k1 show ?thesis by (rule kept_trans)
qed

text \<open>
  What is loaded once stays. A refresh (\<^verbatim>\<open>GetValInfo(false)\<close>) never changes the metadata of the
  denom, so a chain whose first call ended before it was found stays without display units, APR and
  projected rewards; it never changes a signing window that is known; and it leaves the chain's
  name, address, alert settings, nodes and maintenance window alone, whatever the provider answers.
\<close>

lemma refresh_keeps_metadata_and_window:
  assumes "GetValInfo w now False cc cache s = Some (err, cc', cache', s')"
  shows "cc_denomMetadata cc' = cc_denomMetadata cc \<and>
    (\<forall>vi. cc_valInfo cc = Some vi \<and> vi_Window vi \<noteq> 0 \<longrightarrow>
       (\<exists>vi'. cc_valInfo cc' = Some vi' \<and> vi_Window vi' = vi_Window vi)) \<and>
    cc_name cc' = cc_name cc \<and> cc_ValAddress cc' = cc_ValAddress cc \<and> cc_Alerts cc' = cc_Alerts cc \<and>
    cc_Nodes cc' = cc_Nodes cc \<and> cc_silencedUntil cc' = cc_silencedUntil cc"
  using GetValInfo_kept [OF assms] unfolding kept_def by blast

section \<open>A voting pool that was never read\<close>

lemma division_by_zero: "0 < x \<Longrightarrow> f64_div (Fin x) (Fin 0) = Inf False"
  by simp

lemma outcome_Inr: "m = Some (Inr v) \<Longrightarrow> do { r \<leftarrow> m; case r of Inl err \<Rightarrow> f err | Inr v \<Rightarrow> g v } = g v"
  by simp

lemma rewards_denom:
  assumes "refresh_rewards w p now False cc cache = Some (cc', cache')"
  shows "cc_totalBondedTokens cc' = cc_totalBondedTokens cc \<and> cc_InflationRateOverriding cc' = cc_InflationRateOverriding cc \<and>
    cc_denomMetadata cc' = cc_denomMetadata cc"
  using assms unfolding refresh_rewards_def
  by (rule outcomeE) (auto simp: bind_eq_Some_conv)

lemma window_shape:
  assumes "refresh_window p cc s = Some (cc', s')"
  obtains f where "cc' = with_valinfo f cc"
proof -
  obtain vi where vi: "cc_valInfo cc = Some vi" using assms by (auto simp: refresh_window_def bind_eq_Some_conv)
  have "cc' = cc \<or> (\<exists>n. cc' = with_valinfo (\<lambda>vi. vi\<lparr>vi_Window := n\<rparr>) cc)"
  proof (cases "vi_Window vi = 0")
    case True
    then obtain r where r: "cp_SlashingParams p cc = Some r"
      using assms vi by (auto simp: refresh_window_def bind_eq_Some_conv)
    show ?thesis using assms vi True by (cases r) (auto simp: refresh_window_def r bind_eq_Some_conv)
  qed (use assms vi in \<open>simp add: refresh_window_def\<close>)
  then show thesis using that [of "\<lambda>vi. vi"] that by (auto simp: with_valinfo_id)
qed

lemma signing_shape:
  assumes "refresh_signing p cc s = Some (e, cc', s')"
  shows "cc_baseAPR cc' = cc_baseAPR cc \<and> cc_unvotedOpenGovProposals cc' = cc_unvotedOpenGovProposals cc"
proof -
  obtain r where r: "cp_SigningInfo p cc = Some r" using assms by (auto simp: refresh_signing_def bind_eq_Some_conv)
  show ?thesis using assms
    by (cases r) (auto simp: refresh_signing_def r Let_def bind_eq_Some_conv elim!: window_shape)
qed

lemma proposals_shape:
  assumes "refresh_proposals p cc s = Some (cc', s')"
  shows "cc_baseAPR cc' = cc_baseAPR cc"
proof -
  obtain r where r: "cp_UnvotedOpenProposals p cc = Some r" using assms by (auto simp: refresh_proposals_def bind_eq_Some_conv)
  show ?thesis using assms
    by (cases r) (auto simp: refresh_proposals_def r Let_def bind_eq_Some_conv split: if_split_asm)
qed

lemma project_base [simp]: "cc_baseAPR (project_rewards cc) = cc_baseAPR cc"
  by (simp add: project_rewards_def split: option.split)

text \<open>What the stages before the details leave alone.\<close>

lemma GetValInfo_details:
  assumes "GetValInfo w now first cc cache s = Some (None, cc', cache', s')" "cc_client cc \<noteq> None" "cc_valInfo cc \<noteq> None"
  obtains cc3 c3 where "refresh_details w now first (provider_of w cc) cc3 c3 s = Some (None, cc', cache', s')"
    "cc_totalBondedTokens cc3 = cc_totalBondedTokens cc" "cc_denomMetadata cc3 = cc_denomMetadata cc"
    "cc_InflationRateOverriding cc3 = cc_InflationRateOverriding cc"
proof -
  have "do { info \<leftarrow> cp_ValidatorInfo (provider_of w cc) cc;
        case info of Inl err \<Rightarrow> Some (Some err, cc, cache, s)
        | Inr v \<Rightarrow>
            let (cc2, cache1) = refresh_price w now (td s) (store_validator v cc) cache
            in do { (err, cc3) \<leftarrow> refresh_valcons (vw_lib w) first cc2;
                    (if err \<noteq> None then Some (err, cc3, cache1, s)
                     else refresh_details w now first (provider_of w cc) cc3 cache1 s) } } = Some (None, cc', cache', s')"
    using assms(1) unfolding GetValInfo_def by (simp only: assms(2,3) Let_def if_False)
  then show thesis
  proof (rule outcomeE)
    fix v assume "(let (cc2, cache1) = refresh_price w now (td s) (store_validator v cc) cache
            in do { (err, cc3) \<leftarrow> refresh_valcons (vw_lib w) first cc2;
                    (if err \<noteq> None then Some (err, cc3, cache1, s)
                     else refresh_details w now first (provider_of w cc) cc3 cache1 s) }) = Some (None, cc', cache', s')"
    then obtain cc2 c2 cc3 where 2: "refresh_price w now (td s) (store_validator v cc) cache = (cc2, c2)"
        "refresh_valcons (vw_lib w) first cc2 = Some (None, cc3)"
        "refresh_details w now first (provider_of w cc) cc3 c2 s = Some (None, cc', cache', s')"
      by (auto simp: bind_eq_Some_conv split: prod.splits if_splits)
    have "cc_totalBondedTokens cc2 = cc_totalBondedTokens cc \<and> cc_denomMetadata cc2 = cc_denomMetadata cc \<and>
        cc_InflationRateOverriding cc2 = cc_InflationRateOverriding cc"
      using price_frame [of w now "td s" "store_validator v cc" cache] by (simp add: 2(1))
    moreover have "cc_totalBondedTokens cc3 = cc_totalBondedTokens cc2 \<and> cc_denomMetadata cc3 = cc_denomMetadata cc2 \<and>
        cc_InflationRateOverriding cc3 = cc_InflationRateOverriding cc2"
      using 2(2) by (rule valcons_shape) simp
    ultimately show thesis using that [OF 2(3)] by simp
  qed simp
qed

lemma details_unread_pool:
  assumes "refresh_details w now False p cc cache s = Some (e, cc', cache', s')"
    "\<And>c. \<exists>err. cp_VotingPool p c = Some (Inl err)" "cc_totalBondedTokens cc = Fin 0" "cc_denomMetadata cc \<noteq> None"
    "\<And>c. cc_denomMetadata c \<noteq> None \<Longrightarrow> cp_ChainInfo p c = Some (Inr (supply, tax, inflation))" "cc_InflationRateOverriding cc = Fin 0"
    "f64_mul (f64_mul inflation (f64_sub (Fin 1) tax)) supply = Fin x" "0 < x"
  shows "cc_baseAPR cc' = Inf False"
proof -
  obtain cc1 cc2 c2 cc3 cc4 s1 where
      1: "refresh_pool (vw_ops w) p cc = Some cc1" "refresh_rewards w p now False cc1 cache = Some (cc2, c2)"
      "(if cc_denomMetadata cc2 = None then Some cc2 else map_option project_rewards (refresh_apr p cc2)) = Some cc3"
      "refresh_proposals p cc3 s = Some (cc4, s1)" "refresh_signing p cc4 s1 = Some (e, cc', s')"
    using assms(1) by (auto simp: refresh_details_def bind_eq_Some_conv)
  obtain err where "cp_VotingPool p cc = Some (Inl err)" using assms(2) by blast
  then have "cc1 = cc" using 1(1) by (simp add: refresh_pool_def)
  then have 2: "cc_totalBondedTokens cc2 = Fin 0" "cc_InflationRateOverriding cc2 = Fin 0" "cc_denomMetadata cc2 \<noteq> None"
    using rewards_denom [OF 1(2)] assms(3,4,6) by simp_all
  obtain c where c: "refresh_apr p cc2 = Some c" "cc3 = project_rewards c" using 1(3) 2(3) by auto
  have "cc_baseAPR c = Inf False"
    using c(1) 2(1,2) assms(5) [OF 2(3)] assms(7,8) by (auto simp: refresh_apr_def Let_def validator_apr_def)
  then show ?thesis using c(2) proposals_shape [OF 1(4)] signing_shape [OF 1(5)] by simp
qed

text \<open>
  C36: One failed query of the voting pool stops the dashboard of every chain. While the pool of a
  chain has not been read yet and its node does not answer that query, a refresh that ends without
  an error divides by zero: the base APR is infinite, every status of the chain is refused by the
  JSON encoder, and the dashboard's aggregator keeps its old document, with the statuses of all
  the other chains.
\<close>

theorem unread_pool_freezes_dashboard:
  assumes "GetValInfo w now False cc cache s = Some (None, cc', cache', s')" "cc_client cc \<noteq> None" "cc_valInfo cc \<noteq> None"
    "\<And>c. \<exists>err. cp_VotingPool (provider_of w cc) c = Some (Inl err)" "cc_totalBondedTokens cc = Fin 0"
    "cc_denomMetadata cc \<noteq> None" "cc_InflationRateOverriding cc = Fin 0"
    "\<And>c. cc_denomMetadata c \<noteq> None \<Longrightarrow> cp_ChainInfo (provider_of w cc) c = Some (Inr (supply, tax, inflation))"
    "f64_mul (f64_mul inflation (f64_sub (Fin 1) tax)) supply = Fin x" "0 < x"
  shows "\<exists>u. toDashStatus t cc' height lastError healthy active = Some u \<and> \<not> json_ok u \<and>
    fst (updateStatus u hideLogs dc) = None \<and> getStatusCache (snd (updateStatus u hideLogs dc)) = getStatusCache dc"
proof -
  obtain cc3 c3 where 3: "refresh_details w now False (provider_of w cc) cc3 c3 s = Some (None, cc', cache', s')"
      "cc_totalBondedTokens cc3 = Fin 0" "cc_denomMetadata cc3 \<noteq> None" "cc_InflationRateOverriding cc3 = Fin 0"
    using GetValInfo_details [OF assms(1-3)] assms(5-7) by metis
  have inf: "cc_baseAPR cc' = Inf False"
    by (rule details_unread_pool [OF 3(1) assms(4) 3(2,3) assms(8) 3(4) assms(9,10)])
  obtain vi where "cc_valInfo cc' = Some vi" using GetValInfo_kept [OF assms(1)] assms(3) by (auto simp: kept_def)
  then obtain u where u: "toDashStatus t cc' height lastError healthy active = Some u"
    by (simp add: toDashStatus_def)
  then have n: "\<not> json_ok u"
    using inf by (auto simp: toDashStatus_def bind_eq_Some_conv json_ok_def finite_f64_def)
  have "gm_get (gm_set (cs_Name u) (redact hideLogs u) (dc_status dc)) (cs_Name u) = Some (redact hideLogs u)" by simp
  then have "redact hideLogs u \<in> snd ` set (gm_set (cs_Name u) (redact hideLogs u) (dc_status dc))"
    by (force simp: gm_get_def dest: map_of_SomeD)
  with n have "\<not> (\<forall>x\<in>set (sort_key cs_Name (map snd (gm_set (cs_Name u) (redact hideLogs u) (dc_status dc)))). json_ok x)"
    unfolding sorted_table_set by force
  then show ?thesis using u n by (simp add: updateStatus_def Let_def getStatusCache_def)
qed

section \<open>The theorems on a concrete chain\<close>

definition whole_ops :: dec_ops where
  "whole_ops = \<lparr>dec_One = 10 ^ 18, dec_MulInt64 = (\<lambda>a n. Some (a * n)), dec_Quo = (\<lambda>a b. Some (a * 10 ^ 18 div b)),
     dec_Mul = (\<lambda>a b. Some (a * b div 10 ^ 18)), dec_Add = (\<lambda>a b. Some (a + b)),
     dec_MustFloat64 = (\<lambda>a. f64_of_int (a div 10 ^ 18))\<rparr>"

definition demo_world :: "abci_world \<Rightarrow> valinfo_world" where
  "demo_world aw = \<lparr>vw_ops = whole_ops, vw_lib = demo_sdk, vw_getPrice = (\<lambda>_ _ c. (Inl ''no price'', c)),
     vw_metadata_json = NoReply ''offline'', vw_default = DefaultProvider whole_ops demo_sdk aw,
     vw_namada = DefaultProvider whole_ops demo_sdk aw\<rparr>"

text \<open>A chain that is watched by its consensus address, and a node that answers all but the pool.\<close>

definition valcons_chain :: ChainConfig where
  "valcons_chain = sample_chain\<lparr>cc_ValAddress := ''netvalcons1qqqqqqqqqqqqqq'',
     cc_denomMetadata := Some \<lparr>md_Description = [], md_DenomUnits = [], md_Base = ''unet'', md_Display = [], md_Name = [], md_Symbol = []\<rparr>\<rparr>"

definition poolless_node :: abci_world where
  "poolless_node = silent_node\<lparr>aw_SupplyOf := \<lambda>_. Answer 1000, aw_CommunityTax := Answer 0, aw_Inflation := Answer (10 ^ 18),
     aw_SigningInfo := \<lambda>_. Answer \<lparr>si_Tombstoned = False, si_MissedBlocksCounter = 3\<rparr>\<rparr>"

lemma demo_world_simps [simp]:
  "provider_of (demo_world aw) cc = DefaultProvider whole_ops demo_sdk aw" "vw_lib (demo_world aw) = demo_sdk"
  "vw_ops (demo_world aw) = whole_ops" "vw_default (demo_world aw) = DefaultProvider whole_ops demo_sdk aw"
  by (simp_all add: demo_world_def provider_of_def)

lemma valcons_chain_simps [simp]:
  "cc_client valcons_chain \<noteq> None" "cc_valInfo valcons_chain = Some sample_valinfo" "cc_totalBondedTokens valcons_chain = Fin 0"
  "cc_denomMetadata valcons_chain \<noteq> None" "cc_InflationRateOverriding valcons_chain = Fin 0"
  "pv_Name (cc_Provider valcons_chain) \<noteq> ''namada''" "20 \<le> length (cc_ValAddress valcons_chain)"
  "Contains (cc_ValAddress valcons_chain) ''valcons''"
  by (simp_all add: valcons_chain_def sample_chain_def HasPrefix_def)


lemma demo_refresh:
  "\<exists>cc' cache' s'. GetValInfo (demo_world poolless_node) noon False valcons_chain [] (sample_sys valcons_chain no_alarms) =
     Some (None, cc', cache', s')"
proof -
  let ?p = "DefaultProvider whole_ops demo_sdk poolless_node" and ?s = "sample_sys valcons_chain no_alarms"
  have s: "\<not> cfg_Prom (td ?s)" "\<not> pc_Enabled (cfg_PriceConversion (td ?s))" by (simp_all add: sample_sys_def sample_config_def)
  obtain v where v: "cp_ValidatorInfo ?p valcons_chain = Some (Inr v)"
    by (simp add: QueryValidatorInfo_def demo_sdk_def)
  let ?c1 = "store_validator v valcons_chain"
  have c1: "cc_valInfo ?c1 \<noteq> None" "cc_ValAddress ?c1 = cc_ValAddress valcons_chain" "cc_denomMetadata ?c1 \<noteq> None"
      "\<forall>vi. cc_valInfo ?c1 = Some vi \<longrightarrow> vi_Window vi \<noteq> 0"
    by (cases v; simp add: store_validator_def sample_valinfo_def)+
  obtain cc3 where c3: "refresh_valcons demo_sdk False ?c1 = Some (None, cc3)" "cc_valInfo cc3 \<noteq> None" "cc_denomMetadata cc3 \<noteq> None"
      "\<forall>vi. cc_valInfo cc3 = Some vi \<longrightarrow> vi_Window vi \<noteq> 0"
  proof (rule that)
    show "refresh_valcons demo_sdk False ?c1 = Some (None, with_valinfo (\<lambda>vi. vi\<lparr>vi_Valcons := cc_ValAddress ?c1\<rparr>) ?c1)"
      using c1(2) by (simp add: refresh_valcons_def)
  qed (use c1(1,4) in auto)
  have pool: "refresh_pool whole_ops ?p cc3 = Some cc3"
    by (simp add: refresh_pool_def QueryValidatorVotingPool_def answered_def poolless_node_def silent_node_def)
  have rewards: "refresh_rewards w ?p noon False cc3 [] = Some (cc3, [])" for w
    by (simp add: refresh_rewards_def QueryValidatorSelfDelegationRewardsAndCommission_def answered_def
        poolless_node_def silent_node_def split: sum.split)
  obtain r where r: "QueryChainInfo whole_ops poolless_node cc3 = Some r" using c3(3) by (auto simp: QueryChainInfo_def)
  obtain cc4 where c4: "refresh_apr ?p cc3 = Some cc4" by (simp add: refresh_apr_def r Let_def)
  let ?c5 = "project_rewards cc4"
  have proposals: "refresh_proposals ?p cc ?s = Some (cc, ?s)" for cc
    by (simp add: refresh_proposals_def QueryUnvotedOpenProposals_def poolless_node_def silent_node_def)
  have k: "kept False cc3 ?c5" using apr_kept [OF c4] project_kept kept_trans by blast
  then obtain vi where vi: "cc_valInfo ?c5 = Some vi" "vi_Window vi \<noteq> 0" using c3(2,4) by (auto simp: kept_def)
  have "\<exists>cc'. refresh_signing ?p ?c5 ?s = Some (None, cc', ?s)"
    using vi s by (simp add: refresh_signing_def QuerySigningInfo_def answered_def poolless_node_def refresh_window_def Let_def)
  then obtain cc' where "refresh_signing ?p ?c5 ?s = Some (None, cc', ?s)" by blast
  then have "refresh_details (demo_world poolless_node) noon False ?p cc3 [] ?s = Some (None, cc', [], ?s)"
    using c3(3) by (auto simp: refresh_details_def pool rewards c4 proposals)
  then show ?thesis
    using v c3(1) s by (simp add: GetValInfo_def refresh_price_def)
qed

lemma refresh_keeps_metadata_and_window_witness:
  "\<exists>cc' cache' s'. GetValInfo (demo_world poolless_node) noon False valcons_chain [] (sample_sys valcons_chain no_alarms) =
     Some (None, cc', cache', s') \<and> cc_denomMetadata cc' = cc_denomMetadata valcons_chain"
proof -
  obtain cc' cache' s' where "GetValInfo (demo_world poolless_node) noon False valcons_chain [] (sample_sys valcons_chain no_alarms) =
     Some (None, cc', cache', s')" using demo_refresh by blast
  from this refresh_keeps_metadata_and_window [OF this] show ?thesis by blast
qed

theorem unread_pool_freezes_dashboard_witness:
  "\<exists>cc' cache' s' u. GetValInfo (demo_world poolless_node) noon False valcons_chain [] (sample_sys valcons_chain no_alarms) =
     Some (None, cc', cache', s') \<and> toDashStatus noon cc' 1 [] 1 0 = Some u \<and> fst (updateStatus u False newDashCache) = None"
proof -
  obtain cc' cache' s' where g: "GetValInfo (demo_world poolless_node) noon False valcons_chain [] (sample_sys valcons_chain no_alarms) =
     Some (None, cc', cache', s')" using demo_refresh by blast
  have pool: "\<exists>err. cp_VotingPool (provider_of (demo_world poolless_node) valcons_chain) c = Some (Inl err)" for c
    by (simp add: QueryValidatorVotingPool_def answered_def poolless_node_def silent_node_def)
  have info: "cp_ChainInfo (provider_of (demo_world poolless_node) valcons_chain) c = Some (Inr (Fin 1000, Fin 0, Fin 1))"
    if "cc_denomMetadata c \<noteq> None" for c
    using that by (auto simp: QueryChainInfo_def answered_def poolless_node_def whole_ops_def ToDec_def f64_of_int_small)
  have one: "f64_mul (f64_mul (Fin 1) (f64_sub (Fin 1) (Fin 0))) (Fin 1000) = Fin 1000"
    using f64_round_int [of 1] f64_round_int [of 1000] by (simp add: f64_sub_def)
  show ?thesis
    using g unread_pool_freezes_dashboard [OF g _ _ pool _ _ _ info one, of noon 1 "[]" 1 0 False newDashCache] by fastforce
qed

end
