(* ===== verification/NamadaProvider.thy ===== *)
theory NamadaProvider
  imports NamadaTypes ValidatorInfo
begin

text \<open>
  The provider for Namada (\<^verbatim>\<open>td2/provider-namada.go\<close>): proposals, votes, rewards and the voting power
  come from indexers over HTTP, the validator and the liveness parameters from the node.

  An answer of an indexer is a \<open>reply\<close>; the code does not look at its status. An answer of the node is
  an error of the query, an error of decoding its value, or the decoded value. The requests of one
  method are made one after the other, so the answers are functions of what is asked.
\<close>

type_synonym 'a borsh = "string + (string + 'a)"

record namada_world =
  nw_Proposals :: "string \<Rightarrow> NamadaProposalResponse reply"
  nw_Votes :: "string \<Rightarrow> f64 option list reply"
  nw_Rewards :: "string \<Rightarrow> NamadaValidatorRewardsResponse list reply"
  nw_VotingPower :: "string \<Rightarrow> NamadaVotingPowerResponse reply"
  nw_State :: "string \<Rightarrow> ValidatorStateInfo borsh"
  nw_Metadata :: "string \<Rightarrow> ValidatorMetaData borsh"
  nw_Stake :: "string \<Rightarrow> Dec option borsh"
  nw_Commission :: "string \<Rightarrow> ValidatorCommissionPair borsh"
  nw_Liveness :: "LivenessInfo borsh"
  nw_NewIntFromString :: "string \<Rightarrow> int option"
  nw_MustNewDecFromStr :: "string \<Rightarrow> int option"

section \<open>The configuration\<close>

definition config_list :: "ChainConfig \<Rightarrow> string \<Rightarrow> any_value list option" where
  "config_list cc key = (case gm_get (pv_Configs (cc_Provider cc)) key of Some (AnyList vs) \<Rightarrow> Some vs | _ \<Rightarrow> None)"

definition config_string :: "ChainConfig \<Rightarrow> string \<Rightarrow> string option" where
  "config_string cc key = (case gm_get (pv_Configs (cc_Provider cc)) key of Some (AnyString t) \<Rightarrow> Some t | _ \<Rightarrow> None)"

text \<open>
  A request to an entry of the list, formatted with \<^verbatim>\<open>%s\<close>. The text of an entry that is not a string
  is no URL, so the request fails.
\<close>

definition ask :: "(string \<Rightarrow> 'a reply) \<Rightarrow> any_value \<Rightarrow> string \<Rightarrow> 'a reply" where
  "ask get indexer path = (case indexer of AnyString url \<Rightarrow> get (url @ path) | _ \<Rightarrow> NoReply ''invalid URL'')"

text \<open>The strings of the list; any other entry becomes the empty string.\<close>

definition url_of :: "any_value \<Rightarrow> string" where
  "url_of v = (case v of AnyString str \<Rightarrow> str | _ \<Rightarrow> [])"

section \<open>Proposals\<close>

fun add_proposals :: "NamadaProposal list \<Rightarrow> string list \<times> govProposal list \<Rightarrow> string list \<times> govProposal list" where
  "add_proposals [] found = found"
| "add_proposals (np # nps) (ids, props) =
     (case ToGovProposal np of
        Inl _ \<Rightarrow> add_proposals nps (ids, props)
      | Inr converted \<Rightarrow>
          if np_ID np \<notin> set ids
          then add_proposals nps
                 (ids @ [np_ID np],
                  props @ [\<lparr>gp_ProposalId = pr_ProposalId converted, gp_VotingEndTime = pr_VotingEndTime converted,
                            gp_Title = np_Content np, gp_Summary = []\<rparr>])
          else add_proposals nps (ids, props))"

fun voting_period_loop ::
  "(string \<Rightarrow> NamadaProposalResponse reply) \<Rightarrow> string list \<Rightarrow> string option \<Rightarrow> string list \<times> govProposal list \<Rightarrow>
   govProposal list \<times> string option" where
  "voting_period_loop get [] lastErr found = (snd found, lastErr)"
| "voting_period_loop get (indexer # indexers) lastErr found =
     (case get (indexer @ ''/api/v1/gov/proposal?status=votingPeriod'') of
        NoReply err \<Rightarrow> voting_period_loop get indexers (Some err) found
      | Reply _ _ resp \<Rightarrow>
          let (lastErr', found') = (case resp of
                Inl err \<Rightarrow> (Some err, found)
              | Inr respJson \<Rightarrow> (lastErr, add_proposals (nr_Results respJson) found))
          in if snd found' \<noteq> [] then (snd found', None) else voting_period_loop get indexers lastErr' found')"

definition getVotingPeriodProposals :: "namada_world \<Rightarrow> string list \<Rightarrow> govProposal list \<times> string option" where
  "getVotingPeriodProposals w indexers = voting_period_loop (nw_Proposals w) indexers None ([], [])"

fun add_votes :: "f64 option list \<Rightarrow> f64 list \<Rightarrow> f64 list" where
  "add_votes [] ids = ids"
| "add_votes (None # votes) ids = add_votes votes ids"
| "add_votes (Some i # votes) ids = add_votes votes (if i \<in> set ids then ids else ids @ [i])"

fun voted_ids :: "namada_world \<Rightarrow> string \<Rightarrow> any_value list \<Rightarrow> f64 list \<Rightarrow> f64 list" where
  "voted_ids w validatorAddress [] ids = ids"
| "voted_ids w validatorAddress (indexer # indexers) ids =
     (case ask (nw_Votes w) indexer (''/api/v1/gov/voter/'' @ validatorAddress @ ''/votes'') of
        Reply _ _ (Inr results) \<Rightarrow> voted_ids w validatorAddress indexers (add_votes results ids)
      | _ \<Rightarrow> voted_ids w validatorAddress indexers ids)"

definition Namada_QueryUnvotedOpenProposals :: "namada_world \<Rightarrow> ChainConfig \<Rightarrow> string + govProposal list" where
  "Namada_QueryUnvotedOpenProposals w cc =
     (case (config_list cc ''indexers'', config_string cc ''validator_address'') of
        (Some indexers, Some validatorAddress) \<Rightarrow>
          (case getVotingPeriodProposals w (map url_of indexers) of
             (_, Some err) \<Rightarrow> Inl err
           | (proposals, None) \<Rightarrow>
               let voted = voted_ids w validatorAddress indexers []
               in Inr (filter (\<lambda>p. f64_of_int (int (gp_ProposalId p)) \<notin> set voted) proposals))
      | _ \<Rightarrow> Inr [])"

section \<open>The validator\<close>

definition decoded :: "(string \<Rightarrow> string) \<Rightarrow> (string \<Rightarrow> string) \<Rightarrow> 'a borsh \<Rightarrow> string + 'a" where
  "decoded failed undecodable r =
     (case r of Inl err \<Rightarrow> Inl (failed err) | Inr (Inl err) \<Rightarrow> Inl (undecodable err) | Inr (Inr v) \<Rightarrow> Inr v)"

text \<open>What the stake and the commission rate are read as; a text that is no number leaves the zero.\<close>

definition stake_read :: "Dec option \<Rightarrow> f64" where
  "stake_read stake =
     (case stake of
        None \<Rightarrow> Fin 0
      | Some d \<Rightarrow> (case ParseFloat (Uint_String (Raw d)) of None \<Rightarrow> Fin 0 | Some x \<Rightarrow> f64_div x (Fin 1000000)))"

definition commission_read :: "Dec option \<Rightarrow> f64" where
  "commission_read rate =
     (case rate of
        None \<Rightarrow> Fin 0
      | Some d \<Rightarrow> (case ParseFloat (Dec_String d) of None \<Rightarrow> Fin 0 | Some x \<Rightarrow> x))"

definition Namada_QueryValidatorInfo ::
  "sdk_lib \<Rightarrow> namada_world \<Rightarrow> ChainConfig \<Rightarrow> string + (string \<times> string \<times> bool \<times> bool \<times> f64 \<times> f64)" where
  "Namada_QueryValidatorInfo lib w cc =
     (case (if Contains (cc_ValAddress cc) ''valcons''
            then map_sum id (\<lambda>(_, bz). hex_upper bz) (sdk_Decode lib (cc_ValAddress cc)) else Inr []) of
        Inl _ \<Rightarrow> Inl (''could not decode and convert your address '' @ cc_ValAddress cc)
      | Inr hexAddress \<Rightarrow>
          (case config_string cc ''validator_address'' of
             None \<Rightarrow> Inr (ToBytes hexAddress, cc_ValAddress cc, False, True, Fin 0, Fin 0)
           | Some addr \<Rightarrow>
               (case decoded (\<lambda>_. ''failed to query Namada validator'' @ [CHR 0x27] @ ''s state '' @ addr) (\<lambda>e. ''unmarshal validator state: '' @ e)
                       (nw_State w (''/vp/pos/validator/state/'' @ addr)) of
                  Inl err \<Rightarrow> Inl err
                | Inr state \<Rightarrow>
                    (case decoded (\<lambda>e. ''query validator metadata: '' @ e) (\<lambda>e. ''unmarshal validator metadata: '' @ e)
                            (nw_Metadata w (''/vp/pos/validator/metadata/'' @ addr)) of
                       Inl err \<Rightarrow> Inl err
                     | Inr metadata \<Rightarrow>
                         (case decoded (\<lambda>e. ''query validator stake: '' @ e) (\<lambda>e. ''unmarshal validator stake: '' @ e)
                                 (nw_Stake w (''/vp/pos/validator/stake/'' @ addr)) of
                            Inl err \<Rightarrow> Inl err
                          | Inr stake \<Rightarrow>
                              (case decoded (\<lambda>e. ''query validator commission rate: '' @ e)
                                      (\<lambda>e. ''unmarshal validator commission pair: '' @ e)
                                      (nw_Commission w (''/vp/pos/validator/commission/'' @ addr)) of
                                 Inl err \<Rightarrow> Inl err
                               | Inr commission \<Rightarrow>
                                   let moniker = (case Option.bind (vm_Metadata metadata) me_Name of None \<Rightarrow> [] | Some n \<Rightarrow> n)
                                   in Inr (ToBytes hexAddress, moniker, vs_State state = Some ValidatorStateJailed,
                                           vs_State state = Some ValidatorStateConsensus, stake_read stake,
                                           commission_read (vc_CommissionRate commission))))))))"

section \<open>Liveness\<close>

definition getLivenessInfo :: "namada_world \<Rightarrow> string + LivenessInfo" where
  "getLivenessInfo w =
     decoded (\<lambda>e. ''query validator liveness_info: '' @ e) (\<lambda>e. ''unmarshal liveness info: '' @ e) (nw_Liveness w)"

fun missed_votes :: "string \<Rightarrow> ValidatorLiveness list \<Rightarrow> SigningInfo \<Rightarrow> string + SigningInfo" where
  "missed_votes hexAddress [] info = Inr info"
| "missed_votes hexAddress (v # vs) info =
     (if vl_CometAddress v = hexAddress then
        (if 9223372036854775807 < vl_MissedVotes v
         then Inl (''MissedVotes too large for int64: '' @ utoa (vl_MissedVotes v))
         else missed_votes hexAddress vs (info\<lparr>si_MissedBlocksCounter := int (vl_MissedVotes v)\<rparr>))
      else missed_votes hexAddress vs info)"

definition Namada_QuerySigningInfo :: "namada_world \<Rightarrow> ChainConfig \<Rightarrow> SigningInfo outcome" where
  "Namada_QuerySigningInfo w cc =
     (case getLivenessInfo w of
        Inl err \<Rightarrow> Some (Inl err)
      | Inr info \<Rightarrow>
          do { vi \<leftarrow> cc_valInfo cc;
               let hexAddress = hex_upper (case vi_Conspub vi of None \<Rightarrow> [] | Some pub \<Rightarrow> pub);
               Some (missed_votes hexAddress (li_Validators info)
                       \<lparr>si_Tombstoned = False, si_MissedBlocksCounter = 0\<rparr>) })"

definition Namada_QuerySlashingParams :: "namada_world \<Rightarrow> SlashingParams outcome" where
  "Namada_QuerySlashingParams w =
     (case getLivenessInfo w of
        Inl err \<Rightarrow> Some (Inl err)
      | Inr info \<Rightarrow>
          if 9223372036854775807 < li_LivenessWindowLen info
          then Some (Inl (''LivenessWindowLen too large for int64: '' @ utoa (li_LivenessWindowLen info)))
          else do { threshold \<leftarrow> nw_MustNewDecFromStr w (Dec_String (li_LivenessThreshold info));
                    Some (Inr \<lparr>sp_SignedBlocksWindow = int (li_LivenessWindowLen info), sp_MinSignedPerWindow = threshold\<rparr>) })"

section \<open>Rewards and voting power\<close>

text \<open>The commission found so far is kept over the indexers; the rewards stay zero.\<close>

fun rewards_loop ::
  "namada_world \<Rightarrow> string \<Rightarrow> any_value list \<Rightarrow> string option \<Rightarrow> int \<Rightarrow> string + int" where
  "rewards_loop w addr [] lastErr amount = (case lastErr of None \<Rightarrow> Inr amount | Some err \<Rightarrow> Inl err)"
| "rewards_loop w addr (indexer # indexers) lastErr amount =
     (case ask (nw_Rewards w) indexer (''/api/v1/pos/reward/'' @ addr) of
        NoReply err \<Rightarrow> rewards_loop w addr indexers (Some err) amount
      | Reply _ _ resp \<Rightarrow>
          let (lastErr', amount') = (case resp of
                Inl err \<Rightarrow> (Some err, amount)
              | Inr [] \<Rightarrow> (lastErr, amount)
              | Inr (r # _) \<Rightarrow> (lastErr, case nw_NewIntFromString w (vr_MinDenomAmount r) of
                                         None \<Rightarrow> amount | Some value \<Rightarrow> ToDec value))
          in if 0 < amount' then Inr amount' else rewards_loop w addr indexers lastErr' amount')"

definition unam :: "int \<Rightarrow> DecCoin list" where
  "unam amount = [\<lparr>dc_Denom = ''unam'', dc_Amount = amount\<rparr>]"

definition Namada_QueryRewardsAndCommission :: "namada_world \<Rightarrow> ChainConfig \<Rightarrow> string + (DecCoin list \<times> DecCoin list)" where
  "Namada_QueryRewardsAndCommission w cc =
     (case (config_list cc ''indexers'', config_string cc ''validator_address'') of
        (Some indexers, Some addr) \<Rightarrow> map_sum id (\<lambda>amount. (unam 0, unam amount)) (rewards_loop w addr indexers None 0)
      | _ \<Rightarrow> Inr (unam 0, unam 0))"

fun voting_power_loop :: "namada_world \<Rightarrow> any_value list \<Rightarrow> string option \<Rightarrow> string + int option" where
  "voting_power_loop w [] lastErr = (case lastErr of None \<Rightarrow> Inr None | Some err \<Rightarrow> Inl err)"
| "voting_power_loop w (indexer # indexers) lastErr =
     (case ask (nw_VotingPower w) indexer ''/api/v1/pos/voting-power'' of
        NoReply err \<Rightarrow> voting_power_loop w indexers (Some err)
      | Reply _ _ (Inl err) \<Rightarrow> voting_power_loop w indexers (Some err)
      | Reply _ _ (Inr respJson) \<Rightarrow>
          (case nw_NewIntFromString w (vp_TotalVotingPower respJson) of
             Some bondedTokens \<Rightarrow> Inr (Some bondedTokens)
           | None \<Rightarrow> voting_power_loop w indexers lastErr))"

definition Namada_QueryValidatorVotingPool :: "namada_world \<Rightarrow> ChainConfig \<Rightarrow> string + int option" where
  "Namada_QueryValidatorVotingPool w cc =
     (case config_list cc ''indexers'' of None \<Rightarrow> Inr None | Some indexers \<Rightarrow> voting_power_loop w indexers None)"

definition NamadaProvider :: "sdk_lib \<Rightarrow> namada_world \<Rightarrow> ChainProvider" where
  "NamadaProvider lib w =
     \<lparr>cp_UnvotedOpenProposals = (\<lambda>cc. Some (Namada_QueryUnvotedOpenProposals w cc)),
      cp_ChainInfo = (\<lambda>cc. Some (Inl ''CalculateAPR not implemented for Namada'')),
      cp_ValidatorInfo = (\<lambda>cc. Some (Namada_QueryValidatorInfo lib w cc)),
      cp_SigningInfo = Namada_QuerySigningInfo w,
      cp_SlashingParams = (\<lambda>cc. Namada_QuerySlashingParams w),
      cp_StakingParams = (\<lambda>cc. Some (Inl ''QueryStakingParams with ABCIQuery not implemented for Namada'')),
      cp_VotingPool = (\<lambda>cc. Some (Namada_QueryValidatorVotingPool w cc)),
      cp_RewardsAndCommission = (\<lambda>cc. Some (Namada_QueryRewardsAndCommission w cc)),
      cp_DenomMetadata = (\<lambda>cc denom. Some (Inl ''QueryDenomMetadata with ABCIQuery not implemented for Namada''))\<rparr>"

lemma NamadaProvider_simps [simp]:
  "cp_UnvotedOpenProposals (NamadaProvider lib nw) cc = Some (Namada_QueryUnvotedOpenProposals nw cc)"
  "cp_ChainInfo (NamadaProvider lib nw) cc = Some (Inl ''CalculateAPR not implemented for Namada'')"
  "cp_ValidatorInfo (NamadaProvider lib nw) cc = Some (Namada_QueryValidatorInfo lib nw cc)"
  "cp_SigningInfo (NamadaProvider lib nw) = Namada_QuerySigningInfo nw"
  "cp_SlashingParams (NamadaProvider lib nw) cc = Namada_QuerySlashingParams nw"
  "cp_StakingParams (NamadaProvider lib nw) cc = Some (Inl ''QueryStakingParams with ABCIQuery not implemented for Namada'')"
  "cp_VotingPool (NamadaProvider lib nw) cc = Some (Namada_QueryValidatorVotingPool nw cc)"
  "cp_RewardsAndCommission (NamadaProvider lib nw) cc = Some (Namada_QueryRewardsAndCommission nw cc)"
  "cp_DenomMetadata (NamadaProvider lib nw) cc d = Some (Inl ''QueryDenomMetadata with ABCIQuery not implemented for Namada'')"
  by (simp_all add: NamadaProvider_def)

section \<open>The missing pool\<close>

text \<open>
  No indexer tells the voting power, and none fails either: there is no list of indexers, or each
  answers a document whose total is no number, as the document of an error has none.
\<close>

definition no_total :: "namada_world \<Rightarrow> ProviderConfig \<Rightarrow> bool" where
  "no_total nw pv \<longleftrightarrow>
     (case gm_get (pv_Configs pv) ''indexers'' of
        Some (AnyList indexers) \<Rightarrow>
          \<forall>ix\<in>set indexers. \<exists>code status r. ask (nw_VotingPower nw) ix ''/api/v1/pos/voting-power'' = Reply code status (Inr r) \<and>
            nw_NewIntFromString nw (vp_TotalVotingPower r) = None
      | _ \<Rightarrow> True)"

lemma voting_power_loop_missing:
  "voting_power_loop nw ixs lastErr = Inr None \<longleftrightarrow> lastErr = None \<and>
    (\<forall>ix\<in>set ixs. \<exists>code status r. ask (nw_VotingPower nw) ix ''/api/v1/pos/voting-power'' = Reply code status (Inr r) \<and>
       nw_NewIntFromString nw (vp_TotalVotingPower r) = None)"
  by (induction nw ixs lastErr rule: voting_power_loop.induct)
    (auto split: reply.split sum.split option.split)

lemma pool_missing: "Namada_QueryValidatorVotingPool nw cc = Inr None \<longleftrightarrow> no_total nw (cc_Provider cc)"
  by (simp add: Namada_QueryValidatorVotingPool_def config_list_def no_total_def voting_power_loop_missing
      split: option.split any_value.split)

lemma missed_votes_total: "Namada_QuerySigningInfo nw cc \<noteq> None" if "cc_valInfo cc \<noteq> None"
  using that by (auto simp: Namada_QuerySigningInfo_def split: sum.split)

lemma threshold_total:
  assumes "\<And>t. nw_MustNewDecFromStr nw t \<noteq> None"
  shows "Namada_QuerySlashingParams nw \<noteq> None"
proof (cases "getLivenessInfo nw")
  case (Inr info)
  obtain d where "nw_MustNewDecFromStr nw (Dec_String (li_LivenessThreshold info)) = Some d" using assms by blast
  then show ?thesis by (simp add: Namada_QuerySlashingParams_def Inr)
qed (simp add: Namada_QuerySlashingParams_def)

lemma info_cong:
  assumes "cc_ValAddress cc' = cc_ValAddress cc" "cc_Provider cc' = cc_Provider cc"
  shows "Namada_QueryValidatorInfo lib nw cc' = Namada_QueryValidatorInfo lib nw cc"
proof -
  have "config_string cc' = config_string cc" by (rule ext) (simp add: config_string_def assms(2))
  then show ?thesis by (simp only: Namada_QueryValidatorInfo_def assms(1))
qed

text \<open>The contract of a provider, for a chain watched by its consensus address.\<close>

definition namada_ok :: "namada_world \<Rightarrow> ProviderConfig \<Rightarrow> string \<Rightarrow> bool" where
  "namada_ok nw pv va \<longleftrightarrow> \<not> needs_key va \<and> \<not> no_total nw pv \<and> (\<forall>t. nw_MustNewDecFromStr nw t \<noteq> None)"

interpretation namada: chain_provider "\<lambda>(lib, nw). NamadaProvider lib nw" "\<lambda>(lib, nw). namada_ok nw"
proof (unfold_locales, goal_cases)
  case (2 x cc)
  then show ?case by (cases x) (auto simp: namada_ok_def pool_missing)
next
  case (6 x pv va cc)
  then show ?case using threshold_total by (cases x) (auto simp: namada_ok_def)
next
  case (9 x pv va cc)
  show ?case using missed_votes_total [OF 9(2)] by (cases x) (simp del: not_None_eq)
qed (auto simp: namada_ok_def split: prod.splits)


section \<open>Votes\<close>

text \<open>Whether an indexer that answers lists a vote on the proposal.\<close>

definition vote_listed :: "namada_world \<Rightarrow> string \<Rightarrow> any_value list \<Rightarrow> nat \<Rightarrow> bool" where
  "vote_listed nw addr indexers pid \<longleftrightarrow>
     (\<exists>ix\<in>set indexers. case ask (nw_Votes nw) ix (''/api/v1/gov/voter/'' @ addr @ ''/votes'') of
        Reply _ _ (Inr votes) \<Rightarrow> Some (f64_of_int (int pid)) \<in> set votes
      | _ \<Rightarrow> False)"

lemma add_votes_set: "set (add_votes votes ids) = set ids \<union> {i. Some i \<in> set votes}"
  by (induction votes ids rule: add_votes.induct) auto

lemma voted_ids_set: "f64_of_int (int pid) \<in> set (voted_ids nw addr indexers ids) \<longleftrightarrow>
    f64_of_int (int pid) \<in> set ids \<or> vote_listed nw addr indexers pid"
  by (induction nw addr indexers ids rule: voted_ids.induct)
    (auto simp: vote_listed_def add_votes_set split: reply.split sum.split)

lemma Namada_unvoted:
  assumes "config_list cc ''indexers'' = Some ixs" "config_string cc ''validator_address'' = Some addr"
    "getVotingPeriodProposals nw (map url_of ixs) = (ps, None)"
  shows "Namada_QueryUnvotedOpenProposals nw cc = Inr (filter (\<lambda>p. \<not> vote_listed nw addr ixs (gp_ProposalId p)) ps)"
  by (simp add: Namada_QueryUnvotedOpenProposals_def assms Let_def voted_ids_set)

text \<open>
  On Namada a failed vote query reopens every proposal. While the votes are listed, exactly the
  open proposals without a listed vote count as unvoted; in a poll in which every indexer fails to
  answer the query for the votes, all open proposals count as unvoted, whatever the poll before
  said, and they stop doing so with the next answer. The provider for the Cosmos SDK keeps the
  earlier state instead.
\<close>

lemma failed_vote_queries_reopen_proposals:
  assumes "config_list cc ''indexers'' = Some ixs" "config_string cc ''validator_address'' = Some addr"
    "getVotingPeriodProposals nw (map url_of ixs) = (ps, None)" "getVotingPeriodProposals nw' (map url_of ixs) = (ps, None)"
    "\<And>p. p \<in> set ps \<Longrightarrow> vote_listed nw addr ixs (gp_ProposalId p)"
    "\<And>ix. ix \<in> set ixs \<Longrightarrow> \<exists>err. ask (nw_Votes nw') ix (''/api/v1/gov/voter/'' @ addr @ ''/votes'') = NoReply err \<or>
       (\<exists>code status. ask (nw_Votes nw') ix (''/api/v1/gov/voter/'' @ addr @ ''/votes'') = Reply code status (Inl err))"
  shows "Namada_QueryUnvotedOpenProposals nw cc = Inr [] \<and> Namada_QueryUnvotedOpenProposals nw' cc = Inr ps"
proof -
  have 1: "Namada_QueryUnvotedOpenProposals nw cc = Inr []"
    using assms(5) by (simp add: Namada_unvoted [OF assms(1-3)] filter_empty_conv)
  have "\<not> vote_listed nw' addr ixs pid" for pid
    unfolding vote_listed_def using assms(6) by (fastforce split: reply.splits sum.splits)
  then have "Namada_QueryUnvotedOpenProposals nw' cc = Inr ps" by (simp add: Namada_unvoted [OF assms(1,2,4)])
  with 1 show ?thesis by blast
qed

section \<open>A dead indexer\<close>

text \<open>Polls of one chain, each with its own answers.\<close>

fun namada_polls :: "sdk_lib \<Rightarrow> namada_world list \<Rightarrow> ChainConfig \<Rightarrow> sys \<Rightarrow> (ChainConfig \<times> sys) option" where
  "namada_polls lib [] cc s = Some (cc, s)"
| "namada_polls lib (nw # nws) cc s =
     do { (cc', s') \<leftarrow> refresh_proposals (NamadaProvider lib nw) cc s; namada_polls lib nws cc' s' }"

text \<open>An answer to the query for the open proposals: none of them, or a failure.\<close>

definition no_open :: "namada_world \<Rightarrow> string \<Rightarrow> bool" where
  "no_open nw url \<longleftrightarrow>
     (\<exists>code status r. nw_Proposals nw (url @ ''/api/v1/gov/proposal?status=votingPeriod'') = Reply code status (Inr r) \<and>
        nr_Results r = [])"

definition unanswered :: "namada_world \<Rightarrow> string \<Rightarrow> bool" where
  "unanswered nw url \<longleftrightarrow>
     (case nw_Proposals nw (url @ ''/api/v1/gov/proposal?status=votingPeriod'') of
        NoReply _ \<Rightarrow> True | Reply _ _ r \<Rightarrow> isl r)"

lemma voting_period_none:
  assumes "\<And>url. url \<in> set urls \<Longrightarrow> no_open nw url \<or> unanswered nw url"
    "lastErr \<noteq> None \<or> (\<exists>url\<in>set urls. unanswered nw url)"
  shows "\<exists>err. voting_period_loop (nw_Proposals nw) urls lastErr (ids, []) = ([], Some err)"
  using assms
proof (induction urls arbitrary: lastErr)
  case (Cons url urls)
  let ?r = "nw_Proposals nw (url @ ''/api/v1/gov/proposal?status=votingPeriod'')"
  have later: "\<And>u. u \<in> set urls \<Longrightarrow> no_open nw u \<or> unanswered nw u" using Cons.prems(1) by simp
  show ?case
  proof (cases "unanswered nw url")
    case True
    then show ?thesis using Cons.IH [OF later] by (cases ?r; cases "body ?r") (auto simp: unanswered_def)
  next
    case False
    then obtain code status r where r: "?r = Reply code status (Inr r)" "nr_Results r = []"
      using Cons.prems(1) [of url] by (auto simp: no_open_def)
    then show ?thesis using Cons.IH [OF later, of lastErr] Cons.prems(2) False by simp
  qed
qed simp

text \<open>
  One dead indexer keeps the alerts of closed proposals open. Once no proposal is open, every
  poll in which some indexer fails and the others list nothing ends in an error, so the chain
  keeps the proposals it last knew over any number of polls, and an evaluation after them has an
  active alert about each of them, although nothing is left to vote on.
\<close>

lemma dead_indexer_keeps_alerts:
  assumes "config_list cc ''indexers'' = Some ixs" "config_string cc ''validator_address'' = Some addr"
    "\<And>nw ix. nw \<in> set nws \<Longrightarrow> ix \<in> set ixs \<Longrightarrow> no_open nw (url_of ix) \<or> unanswered nw (url_of ix)"
    "\<And>nw. nw \<in> set nws \<Longrightarrow> \<exists>ix\<in>set ixs. unanswered nw (url_of ix)"
    "chain_of s k = Some cc" "cc_name cc = k" "alarms_ok (alarms s)" "\<not> IsZero now" "\<not> silenced now cc" "proposals_ok cc"
  shows "namada_polls lib nws cc s = Some (cc, s) \<and>
    (\<exists>r cc' s'. evaluateUnvotedGovernanceProposalAlert zone now cc s = (r, cc', s') \<and>
       (\<forall>p\<in>set (cc_unvotedOpenGovProposals cc). exist (alarms s') k (proposal_id cc p)))"
proof -
  have "namada_polls lib nws cc s = Some (cc, s)"
    using assms(3,4)
  proof (induction nws)
    case (Cons nw nws)
    have "\<exists>err. voting_period_loop (nw_Proposals nw) (map url_of ixs) None ([], []) = ([], Some err)"
      using Cons.prems by (intro voting_period_none) auto
    then have "\<exists>err. Namada_QueryUnvotedOpenProposals nw cc = Inl err"
      by (auto simp: Namada_QueryUnvotedOpenProposals_def assms(1,2) getVotingPeriodProposals_def)
    then show ?case using Cons by (auto simp: refresh_proposals_def)
  qed simp
  moreover have "\<exists>r cc' s'. evaluateUnvotedGovernanceProposalAlert zone now cc s = (r, cc', s') \<and>
      activeAlarms (alarms s') k = {i \<in> activeAlarms (alarms s) k. \<not> gov_stale cc i} \<union> proposal_id cc ` set (cc_unvotedOpenGovProposals cc)"
    using evaluateUnvotedGovernanceProposalAlert_effect(1) [OF assms(5-10), of zone]
    by (elim exE conjE) (intro exI conjI; assumption)
  then obtain r cc' s' where e: "evaluateUnvotedGovernanceProposalAlert zone now cc s = (r, cc', s')"
      "activeAlarms (alarms s') k = {i \<in> activeAlarms (alarms s) k. \<not> gov_stale cc i} \<union> proposal_id cc ` set (cc_unvotedOpenGovProposals cc)"
    by (elim exE conjE)
  have "exist (alarms s') k (proposal_id cc p)" if "p \<in> set (cc_unvotedOpenGovProposals cc)" for p
    using e(2) that by (simp add: activeAlarms_def set_eq_iff)
  ultimately show ?thesis using e(1) by blast
qed

section \<open>The theorems on a concrete chain\<close>

definition demo_indexers :: "any_value list" where
  "demo_indexers = [AnyString ''https://a'', AnyString ''https://b'']"

definition namada_settings :: ProviderConfig where
  "namada_settings = \<lparr>pv_Name = ''namada'', pv_Configs = [(''indexers'', AnyList demo_indexers), (''validator_address'', AnyString ''tnam1x'')]\<rparr>"

text \<open>Indexers whose every answer is the document of an error, which has none of the fields.\<close>

definition failing_world :: namada_world where
  "failing_world = \<lparr>nw_Proposals = (\<lambda>_. NoReply ''timeout''), nw_Votes = (\<lambda>_. NoReply ''timeout''),
     nw_Rewards = (\<lambda>_. NoReply ''timeout''), nw_VotingPower = (\<lambda>_. Reply 500 ''Internal Server Error'' (Inr \<lparr>vp_TotalVotingPower = []\<rparr>)),
     nw_State = (\<lambda>_. Inr (Inr \<lparr>vs_State = Some 0, vs_Epoch = 1\<rparr>)), nw_Metadata = (\<lambda>_. Inr (Inr \<lparr>vm_Metadata = None\<rparr>)),
     nw_Stake = (\<lambda>_. Inr (Inr None)),
     nw_Commission = (\<lambda>_. Inr (Inr \<lparr>vc_CommissionRate = None, vc_MaxCommissionChangePerEpoch = None, vc_Epoch = 1\<rparr>)),
     nw_Liveness = Inl ''timeout'', nw_NewIntFromString = (\<lambda>t. if t = [] then None else Some 1),
     nw_MustNewDecFromStr = (\<lambda>_. Some 0)\<rparr>"

definition namada_chain :: ChainConfig where
  "namada_chain = valcons_chain\<lparr>cc_Provider := namada_settings\<rparr>"

lemma namada_chain_simps [simp]:
  "cc_client namada_chain \<noteq> None" "cc_Provider namada_chain = namada_settings" "pv_Name namada_settings = ''namada''"
  "Contains (cc_ValAddress namada_chain) ''valcons''" "20 \<le> length (cc_ValAddress namada_chain)"
  "config_list namada_chain ''indexers'' = Some demo_indexers" "config_string namada_chain ''validator_address'' = Some ''tnam1x''"
  by (simp_all add: namada_chain_def valcons_chain_def sample_chain_def namada_settings_def config_list_def
      config_string_def HasPrefix_def gm_get_def)


text \<open>An indexer that lists proposal 7, and the vote on it as long as it answers.\<close>

definition open_page :: "NamadaProposalResponse reply" where
  "open_page = Reply 200 ''OK'' (Inr \<lparr>nr_Results = [\<lparr>np_ID = ''7'', np_Content = ''text'', np_Type = [], np_TallyType = [],
      np_Data = [], np_Author = [], np_StartEpoch = [], np_EndEpoch = [], np_ActivationEpoch = [],
      np_StartTime = ''1'', np_EndTime = ''9'', np_CurrentTime = [], np_ActivationTime = [], np_Status = [],
      np_YayVotes = [], np_NayVotes = [], np_AbstainVotes = []\<rparr>],
    nr_Page = 1, nr_PerPage = 10, nr_TotalPages = 1, nr_TotalItems = 1\<rparr>)"

definition seven :: "govProposal list" where
  "seven = [\<lparr>gp_ProposalId = 7, gp_VotingEndTime = time_Unix 9, gp_Title = ''text'', gp_Summary = []\<rparr>]"

lemma open_page_proposals:
  "getVotingPeriodProposals (failing_world\<lparr>nw_Proposals := \<lambda>_. open_page, nw_Votes := v\<rparr>) (map url_of demo_indexers) = (seven, None)"
proof -
  have "ParseUint ''7'' = (7, None)" "ParseInt ''1'' = (1, None)" "ParseInt ''9'' = (9, None)" 
    using ParseUint_utoa [of 7] ParseInt_itoa [of 1] ParseInt_itoa [of 9] by (simp_all add: itoa_eval int64_def)
  then show ?thesis
    by (simp add: getVotingPeriodProposals_def demo_indexers_def open_page_def ToGovProposal_def seven_def)
qed

lemma failed_vote_queries_reopen_proposals_witness:
  "Namada_QueryUnvotedOpenProposals (failing_world\<lparr>nw_Proposals := \<lambda>_. open_page,
       nw_Votes := \<lambda>_. Reply 200 ''OK'' (Inr [Some (Fin 7)])\<rparr>) namada_chain = Inr [] \<and>
   Namada_QueryUnvotedOpenProposals (failing_world\<lparr>nw_Proposals := \<lambda>_. open_page,
       nw_Votes := \<lambda>_. NoReply ''timeout''\<rparr>) namada_chain = Inr seven"
proof (rule failed_vote_queries_reopen_proposals [of namada_chain demo_indexers "''tnam1x''"])
  show "vote_listed (failing_world\<lparr>nw_Proposals := \<lambda>_. open_page, nw_Votes := \<lambda>_. Reply 200 ''OK'' (Inr [Some (Fin 7)])\<rparr>)
      ''tnam1x'' demo_indexers (gp_ProposalId p)" if "p \<in> set seven" for p
    using that by (simp add: vote_listed_def seven_def demo_indexers_def ask_def f64_of_int_small)
qed (simp_all add: open_page_proposals ask_def split: any_value.split)

lemma dead_indexer_keeps_alerts_witness:
  "namada_polls demo_sdk [failing_world, failing_world] (gov_sample\<lparr>cc_Provider := namada_settings\<rparr>)
      (sample_sys (gov_sample\<lparr>cc_Provider := namada_settings\<rparr>) no_alarms) =
    Some (gov_sample\<lparr>cc_Provider := namada_settings\<rparr>, sample_sys (gov_sample\<lparr>cc_Provider := namada_settings\<rparr>) no_alarms)"
proof -
  let ?cc = "gov_sample\<lparr>cc_Provider := namada_settings\<rparr>"
  have c: "config_list ?cc ''indexers'' = Some demo_indexers" "config_string ?cc ''validator_address'' = Some ''tnam1x''"
    by (simp_all add: config_list_def config_string_def namada_settings_def gm_get_def)
  have "proposals_ok ?cc" using gov_sample_ok by (simp add: proposals_ok_def proposal_id_def [abs_def] del: gov_sample_ok)
  moreover have "unanswered failing_world u" for u by (simp add: unanswered_def failing_world_def)
  moreover have "\<exists>ix. ix \<in> set demo_indexers" by (auto simp: demo_indexers_def)
  ultimately show ?thesis
    using dead_indexer_keeps_alerts [OF c, of "[failing_world, failing_world]" "sample_sys ?cc no_alarms" "''net''" noon demo_sdk 0]
    by (simp add: alarms_ok_no_alarms)
qed

end
