(* ===== verification/Metrics.thy ===== *)
theory Metrics
  imports BlockWatch
begin

text \<open>
  The Prometheus exporter (\<^verbatim>\<open>td2/prometheus.go\<close>): the gauges, the labels of an update and \<^verbatim>\<open>setStat\<close>.
  The HTTP server is outside.

  Of the client library this models what is documented: a vector holds one gauge for each list of
  label values; \<^verbatim>\<open>With\<close> panics when the labels are not those of the vector, or when a value is not
  valid UTF-8, which is the parameter \<open>utf8\<close>; registering a name twice panics.
\<close>

record GaugeVec =
  gv_Name :: string
  gv_Help :: string
  gv_Labels :: "string list"
  gv_Series :: "(string list, f64) gomap"

type_synonym metrics = "(metricType, GaugeVec) gomap"

definition new_gauge :: "string \<Rightarrow> string \<Rightarrow> string list \<Rightarrow> GaugeVec" where
  "new_gauge name help labels = \<lparr>gv_Name = name, gv_Help = help, gv_Labels = labels, gv_Series = []\<rparr>"

definition chainLabels :: "string list" where
  "chainLabels = [''name'', ''chain_id'', ''moniker'']"

definition hostLabels :: "string list" where
  "hostLabels = [''name'', ''chain_id'', ''moniker'', ''endpoint'']"

definition gauges :: metrics where
  "gauges =
     [
      (metricSigned, new_gauge ''tenderduty_signed_blocks''
         ''count of blocks signed since tenderduty was started'' chainLabels),
      (metricProposed, new_gauge ''tenderduty_proposed_blocks''
         ''count of blocks proposed since tenderduty was started'' chainLabels),
      (metricMissed, new_gauge ''tenderduty_missed_blocks''
         ''count of blocks missed without seeing a precommit or prevote since tenderduty was started'' chainLabels),
      (metricPrevote, new_gauge ''tenderduty_missed_blocks_prevote_present''
         ''count of blocks missed where a prevote was seen since tenderduty was started'' chainLabels),
      (metricPrecommit, new_gauge ''tenderduty_missed_blocks_precommit_present''
         ''count of blocks missed where a precommit was seen since tenderduty was started'' chainLabels),
      (metricConsecutive, new_gauge ''tenderduty_consecutive_missed_blocks''
         ''the current count of consecutively missed blocks regardless of precommit or prevote status'' chainLabels),
      (metricEmptyBlocks, new_gauge ''tenderduty_empty_proposed_blocks''
         ''count of empty blocks proposed (blocks with zero transactions) since tenderduty was started'' chainLabels),
      (metricConsecutiveEmpty, new_gauge ''tenderduty_consecutive_empty_blocks''
         ''the current count of consecutively proposed empty blocks'' chainLabels),
      (metricWindowSize, new_gauge ''tenderduty_missed_block_window''
         ''the missed block aka slashing window'' chainLabels),
      (metricWindowMissed, new_gauge ''tenderduty_missed_blocks_for_window''
         ''the current count of missed blocks in the slashing window regardless of precommit or prevote status'' chainLabels),
      (metricLastBlockSeconds, new_gauge ''tenderduty_time_since_last_block''
         ''how many seconds since the previous block was finalized, only set when a new block is seen, not useful for stall detection, helpful for averaging times'' chainLabels),
      (metricLastBlockSecondsNotFinal, new_gauge ''tenderduty_time_since_last_block_unfinalized''
         ''how many seconds since the previous block was finalized, set regardless of finalization, useful for stall detection, not helpful for figuring average time'' chainLabels),
      (metricTotalNodes, new_gauge ''tenderduty_total_monitored_endpoints''
         ''the count of rpc endpoints being monitored for a chain'' chainLabels),
      (metricUnealthyNodes, new_gauge ''tenderduty_total_unhealthy_endpoints''
         ''the count of unhealthy rpc endpoints being monitored for a chain'' chainLabels),
      (metricUnvotedProposals, new_gauge ''tenderduty_total_unvoted_gov_proposals''
         ''the count of the unvoted governance proposals that are in the voting period'' chainLabels),
      (metricNodeLagSeconds, new_gauge ''tenderduty_endpoint_syncing_seconds_behind''
         ''how many seconds a node is behind the head of a chain'' hostLabels),
      (metricNodeDownSeconds, new_gauge ''tenderduty_endpoint_down_seconds''
         ''how many seconds a node has been marked as unhealthy'' hostLabels)]"

text \<open>The gauges are registered one after the other.\<close>

fun register_all :: "GaugeVec list \<Rightarrow> GaugeVec list \<Rightarrow> GaugeVec list option" where
  "register_all [] reg = Some reg"
| "register_all (g # gs) reg =
     (if gv_Name g \<in> gv_Name ` set reg then None else register_all gs (reg @ [g]))"

definition prometheusExporter :: "metrics option" where
  "prometheusExporter = do { _ \<leftarrow> register_all (map snd gauges) []; Some gauges }"

section \<open>Updates\<close>

definition labels_of :: "promUpdate \<Rightarrow> (string, string) gomap" where
  "labels_of update =
     (let lbls = [(''name'', pu_name update), (''chain_id'', pu_chainId update), (''moniker'', pu_moniker update)]
      in if pu_metric update = metricNodeLagSeconds \<or> pu_metric update = metricNodeDownSeconds
         then gm_set ''endpoint'' (pu_endpoint update) lbls else lbls)"

definition With :: "(string \<Rightarrow> bool) \<Rightarrow> GaugeVec \<Rightarrow> (string, string) gomap \<Rightarrow> string list option" where
  "With utf8 gv lbls =
     (if length lbls = length (gv_Labels gv) \<and> (\<forall>l\<in>set (gv_Labels gv). \<exists>v. gm_get lbls l = Some v \<and> utf8 v)
      then Some (map (\<lambda>l. the (gm_get lbls l)) (gv_Labels gv)) else None)"

definition setStat :: "(string \<Rightarrow> bool) \<Rightarrow> promUpdate \<Rightarrow> metrics \<Rightarrow> metrics option" where
  "setStat utf8 update m =
     do { gv \<leftarrow> gm_get m (pu_metric update);
          vals \<leftarrow> With utf8 gv (labels_of update);
          Some (gm_set (pu_metric update) (gv\<lparr>gv_Series := gm_set vals (pu_counter update) (gv_Series gv)\<rparr>) m) }"

fun stats_run :: "(string \<Rightarrow> bool) \<Rightarrow> promUpdate list \<Rightarrow> metrics \<Rightarrow> metrics option" where
  "stats_run utf8 [] m = Some m"
| "stats_run utf8 (u # us) m = do { m' \<leftarrow> setStat utf8 u m; stats_run utf8 us m' }"

text \<open>What is served: the gauge of a metric under some label values.\<close>

definition series :: "metrics \<Rightarrow> metricType \<Rightarrow> string list \<Rightarrow> f64 option" where
  "series m t vals = do { gv \<leftarrow> gm_get m t; gm_get (gv_Series gv) vals }"

section \<open>The exporter shows the latest updates\<close>

definition per_node :: "metricType \<Rightarrow> bool" where
  "per_node t \<longleftrightarrow> t = metricNodeLagSeconds \<or> t = metricNodeDownSeconds"

definition update_values :: "promUpdate \<Rightarrow> string list" where
  "update_values u =
     [pu_name u, pu_chainId u, pu_moniker u] @ (if per_node (pu_metric u) then [pu_endpoint u] else [])"

text \<open>Every metric has a gauge with the labels its updates carry.\<close>

definition metrics_ok :: "metrics \<Rightarrow> bool" where
  "metrics_ok m \<longleftrightarrow> (\<forall>t. \<exists>gv. gm_get m t = Some gv \<and> gv_Labels gv = (if per_node t then hostLabels else chainLabels))"

lemma gauges_ok: "metrics_ok gauges"
  unfolding metrics_ok_def
proof
  fix t
  show "\<exists>gv. gm_get gauges t = Some gv \<and> gv_Labels gv = (if per_node t then hostLabels else chainLabels)"
    by (cases t) (simp_all add: gauges_def gm_get_def new_gauge_def per_node_def)
qed

lemma exporter_starts: "prometheusExporter = Some gauges"
  unfolding prometheusExporter_def gauges_def by code_simp

lemma With_values:
  assumes "metrics_ok m" "gm_get m (pu_metric u) = Some gv" "list_all utf8 (update_values u)"
  shows "With utf8 gv (labels_of u) = Some (update_values u)"
proof -
  have "gv_Labels gv = (if per_node (pu_metric u) then hostLabels else chainLabels)"
    using assms(1,2) unfolding metrics_ok_def by (metis option.inject)
  then show ?thesis
    using assms(3)
    by (auto simp: With_def labels_of_def update_values_def per_node_def hostLabels_def chainLabels_def gm_get_def gm_set_def)
qed

lemma setStat_result:
  assumes "metrics_ok m" "list_all utf8 (update_values u)"
  obtains m' where "setStat utf8 u m = Some m'" "metrics_ok m'"
    "\<And>t vals. series m' t vals =
       (if t = pu_metric u \<and> vals = update_values u then Some (pu_counter u) else series m t vals)"
proof -
  obtain gv where gv: "gm_get m (pu_metric u) = Some gv"
      "gv_Labels gv = (if per_node (pu_metric u) then hostLabels else chainLabels)"
    using assms(1) unfolding metrics_ok_def by blast
  let ?m = "gm_set (pu_metric u) (gv\<lparr>gv_Series := gm_set (update_values u) (pu_counter u) (gv_Series gv)\<rparr>) m"
  show thesis
  proof (rule that)
    show "setStat utf8 u m = Some ?m" using With_values [OF assms(1) gv(1) assms(2)] gv(1) by (simp add: setStat_def)
    show "metrics_ok ?m"
      unfolding metrics_ok_def
    proof
      fix t
      obtain h where "gm_get m t = Some h \<and> gv_Labels h = (if per_node t then hostLabels else chainLabels)"
        using assms(1) unfolding metrics_ok_def by blast
      then show "\<exists>h. gm_get ?m t = Some h \<and> gv_Labels h = (if per_node t then hostLabels else chainLabels)"
        using gv(2) by (cases "t = pu_metric u") auto
    qed
    show "series ?m t vals =
       (if t = pu_metric u \<and> vals = update_values u then Some (pu_counter u) else series m t vals)" for t vals
      using gv(1) by (auto simp: series_def)
  qed
qed

lemma find_snoc: "find P (xs @ [x]) = (case find P xs of Some y \<Rightarrow> Some y | None \<Rightarrow> if P x then Some x else None)"
  by (induction xs) auto

lemma stats_run_result:
  assumes "metrics_ok m" "\<And>u. u \<in> set us \<Longrightarrow> list_all utf8 (update_values u)"
  shows "\<exists>m'. stats_run utf8 us m = Some m' \<and>
    (\<forall>t vals. series m' t vals =
       (case find (\<lambda>u. pu_metric u = t \<and> update_values u = vals) (rev us) of
          Some u \<Rightarrow> Some (pu_counter u) | None \<Rightarrow> series m t vals))"
  using assms
proof (induction us arbitrary: m)
  case (Cons u us)
  obtain m1 where 1: "setStat utf8 u m = Some m1" "metrics_ok m1"
      "\<And>t vals. series m1 t vals =
         (if t = pu_metric u \<and> vals = update_values u then Some (pu_counter u) else series m t vals)"
    using setStat_result [OF Cons.prems(1)] Cons.prems(2) by (metis list.set_intros(1))
  obtain m' where 2: "stats_run utf8 us m1 = Some m'"
      "\<forall>t vals. series m' t vals =
         (case find (\<lambda>u. pu_metric u = t \<and> update_values u = vals) (rev us) of
            Some u \<Rightarrow> Some (pu_counter u) | None \<Rightarrow> series m1 t vals)"
    using Cons.IH [OF 1(2)] Cons.prems(2) by auto
  then show ?case using 1 2 by (auto simp: find_snoc split: option.split)
qed simp

text \<open>
  C39: The metrics page shows the latest update of every series and nothing else. The exporter
  starts (no name is registered twice), every update finds a gauge with the labels it carries, so
  none panics as long as the label values are valid UTF-8, and after any updates the value under a
  metric and label values is that of the last update with them.
\<close>

theorem metrics_show_latest:
  assumes "\<And>u. u \<in> set us \<Longrightarrow> list_all utf8 (update_values u)"
  shows "\<exists>m m'. prometheusExporter = Some m \<and> stats_run utf8 us m = Some m' \<and>
    (\<forall>t vals. series m' t vals =
       map_option pu_counter (find (\<lambda>u. pu_metric u = t \<and> update_values u = vals) (rev us)))"
proof -
  have "series gauges t vals = None" for t vals
    by (cases t) (simp_all add: series_def gauges_def gm_get_def new_gauge_def)
  moreover obtain m' where "stats_run utf8 us gauges = Some m'"
      "\<forall>t vals. series m' t vals =
         (case find (\<lambda>u. pu_metric u = t \<and> update_values u = vals) (rev us) of
            Some u \<Rightarrow> Some (pu_counter u) | None \<Rightarrow> series gauges t vals)"
    using stats_run_result [of gauges us utf8] gauges_ok assms by blast
  ultimately show ?thesis by (simp add: exporter_starts split: option.split)
qed

text \<open>
  A series is never withdrawn. A chain counts its first updates under the moniker it starts
  with; once the validator's own moniker is known, every later update goes to another series, and
  the old one is served with its last value for good: a node that was down at the start is shown
  as down under the old moniker after it has recovered.
\<close>

lemma renamed_validator_leaves_stale_series:
  assumes "\<And>u. u \<in> set us \<Longrightarrow> list_all utf8 (update_values u)" "list_all utf8 (update_values v)" "metrics_ok m"
    "\<And>u. u \<in> set us \<Longrightarrow> pu_name u = pu_name v \<Longrightarrow> pu_moniker u \<noteq> pu_moniker v"
  shows "\<exists>m'. stats_run utf8 (v # us) m = Some m' \<and> series m' (pu_metric v) (update_values v) = Some (pu_counter v)"
proof -
  have "find (\<lambda>u. pu_metric u = pu_metric v \<and> update_values u = update_values v) (rev us) = None"
    using assms(4) by (auto simp: find_None_iff update_values_def)
  then have "find (\<lambda>u. pu_metric u = pu_metric v \<and> update_values u = update_values v) (rev us @ [v]) = Some v"
    by (simp add: find_snoc)
  moreover have "\<And>u. u \<in> set (v # us) \<Longrightarrow> list_all utf8 (update_values u)" using assms(1,2) by auto
  then obtain m' where "stats_run utf8 (v # us) m = Some m'"
      "\<forall>t vals. series m' t vals =
         (case find (\<lambda>u. pu_metric u = t \<and> update_values u = vals) (rev (v # us)) of
            Some u \<Rightarrow> Some (pu_counter u) | None \<Rightarrow> series m t vals)"
    using stats_run_result [of m "v # us" utf8] assms(3) by blast
  ultimately show ?thesis by (simp del: stats_run.simps)
qed

definition down_seconds :: "string \<Rightarrow> f64 \<Rightarrow> promUpdate" where
  "down_seconds mon v =
     \<lparr>pu_metric = metricNodeDownSeconds, pu_counter = v, pu_name = ''net'', pu_chainId = ''net-1'', pu_moniker = mon,
      pu_endpoint = ''http://a:26657''\<rparr>"

theorem metrics_show_latest_witness:
  "\<exists>m m'. prometheusExporter = Some m \<and>
     stats_run (\<lambda>_. True) [down_seconds ''val'' (Fin 60), down_seconds ''val'' (Fin 0)] m = Some m' \<and>
     series m' metricNodeDownSeconds [''net'', ''net-1'', ''val'', ''http://a:26657''] = Some (Fin 0)"
  using metrics_show_latest [of "[down_seconds ''val'' (Fin 60), down_seconds ''val'' (Fin 0)]" "\<lambda>_. True"]
  by (auto simp: down_seconds_def update_values_def per_node_def list_all_iff simp del: stats_run.simps)

lemma renamed_validator_leaves_stale_series_witness:
  "\<exists>m'. stats_run (\<lambda>_. True) [down_seconds ''not connected'' (Fin 60), down_seconds ''val'' (Fin 0)] gauges = Some m' \<and>
     series m' metricNodeDownSeconds [''net'', ''net-1'', ''not connected'', ''http://a:26657''] = Some (Fin 60)"
  using renamed_validator_leaves_stale_series [of "[down_seconds ''val'' (Fin 0)]" "\<lambda>_. True" "down_seconds ''not connected'' (Fin 60)", OF _ _ gauges_ok]
  by (auto simp: down_seconds_def update_values_def per_node_def list_all_iff simp del: stats_run.simps)

end
