(* ===== verification/WsPipeline.thy ===== *)
theory WsPipeline
  imports BlockWatch
begin

text \<open>
  The goroutines around the classification loop (\<^verbatim>\<open>td2/ws.go\<close>): \<^verbatim>\<open>NewClient\<close>, the wait for a
  working endpoint in \<^verbatim>\<open>WsRun\<close>, the reader that routes messages, and the handlers of blocks and
  votes with the unbuffered channels between them.

  A send on an unbuffered channel waits for the receiver. The reader therefore waits while a
  handler is busy, a handler is busy from taking a message until its update has been taken, and
  nothing orders the handlers against each other: the pipeline is a step relation in which each
  handler holds at most one update. JSON decoding is the parameter \<open>codec\<close>. The alert of an
  evidence event is that of \<open>handleEvidence\<close>; here evidence is recorded as it arrives.
\<close>

section \<open>The websocket client\<close>

text \<open>
  A URL is parsed to its scheme and the rest, and written back with the new scheme. For a Unix
  socket nothing is dialled and the client has no connection.
\<close>

datatype TmConn = Unconnected | Dialled bool string

definition NewClient ::
  "(string \<Rightarrow> string + (string \<times> string)) \<Rightarrow> (bool \<Rightarrow> string \<Rightarrow> string option) \<Rightarrow> string \<Rightarrow> bool \<Rightarrow> string + TmConn" where
  "NewClient url_Parse dial u0 allowInsecure =
     (let u = normalize_ws_path u0
      in case url_Parse u of
           Inl err \<Rightarrow> Inl (''parsing url in NewWsClient '' @ u @ '': '' @ err)
         | Inr (scheme, rest) \<Rightarrow>
             (case ws_scheme scheme of
                None \<Rightarrow> Inl (''protocol '' @ scheme @ '' is unknown, valid choices are http, https, tcp, unix, ws, and wss'')
              | Some scheme' \<Rightarrow>
                  let endpoint = scheme' @ '':'' @ rest; insecure = (allowInsecure \<and> scheme' = ''wss'')
                  in if scheme = ''unix'' then Inr Unconnected
                     else case dial insecure endpoint of
                            Some err \<Rightarrow> Inl ((if insecure then ''could not dial wss client to '' else ''could not dial ws client to '') @
                                             endpoint @ '': '' @ err)
                          | None \<Rightarrow> Inr (Dialled insecure endpoint)))"

text \<open>A Unix socket is always accepted, whatever would answer, and never connected.\<close>

lemma unix_socket_never_connected:
  "url_Parse (normalize_ws_path u) = Inr (''unix'', rest) \<Longrightarrow> NewClient url_Parse dial u allowInsecure = Inr Unconnected"
  by (simp add: NewClient_def ws_scheme_def Let_def)

section \<open>Waiting for an endpoint\<close>

text \<open>The looks of the loop at the start of \<^verbatim>\<open>WsRun\<close>: go on, give up, or look again.\<close>

definition endpoint_missing :: "ChainConfig \<Rightarrow> bool" where
  "endpoint_missing cc \<longleftrightarrow>
     cc_client cc = None \<or> (case cc_valInfo cc of None \<Rightarrow> True | Some vi \<Rightarrow> vi_Conspub vi = None)"

fun ws_wait :: "gotime \<Rightarrow> (gotime \<times> ChainConfig) list \<Rightarrow> bool option" where
  "ws_wait started [] = None"
| "ws_wait started ((now, cc) # looks) =
     (if endpoint_missing cc
      then (if started < now - 2 * Minute then Some False else ws_wait started looks)
      else Some True)"

text \<open>A look every thirty seconds: without an endpoint the sixth one gives up, after 150 seconds.\<close>

definition ws_looks :: "gotime \<Rightarrow> ChainConfig list \<Rightarrow> (gotime \<times> ChainConfig) list" where
  "ws_looks started ccs = zip (map (\<lambda>k. started + int k * (30 * Second)) [0..<length ccs]) ccs"

lemma ws_wait_gives_up:
  assumes "\<And>cc. cc \<in> set ccs \<Longrightarrow> endpoint_missing cc"
  shows "ws_wait started (ws_looks started ccs) = (if length ccs \<le> 5 then None else Some False)"
proof -
  have later: "ws_wait started (zip (map (\<lambda>k. started + int k * (30 * Second)) [n..<n + length ccs]) ccs) =
      (if n + length ccs \<le> 5 then None else Some False)" if "n \<le> 5" for n
    using that assms
  proof (induction ccs arbitrary: n)
    case (Cons cc ccs)
    have "[n..<n + length (cc # ccs)] = n # [Suc n..<Suc n + length ccs]" by (simp add: upt_rec)
    then show ?case using Cons.IH [of "Suc n"] Cons.prems by (cases "n = 5") (auto simp: Minute_def Second_def)
  qed simp
  from this [of 0] show ?thesis by (simp add: ws_looks_def)
qed

section \<open>Messages\<close>

record WsReply =
  wr_Id :: int
  wr_Query :: string
  wr_Type :: string
  wr_Value :: "string option"

definition WsReply_Value :: "WsReply \<Rightarrow> string" where
  "WsReply_Value wsr = (case wr_Value wsr of None \<Rightarrow> [] | Some v \<Rightarrow> v)"

record ws_codec =
  wc_reply :: "string \<Rightarrow> WsReply option"
  wc_block :: "string \<Rightarrow> rawBlock option"
  wc_vote :: "string \<Rightarrow> rawVote option"

definition QueryNewBlock :: string where "QueryNewBlock = ''tm.event='' @ [CHR 0x27] @ ''NewBlock'' @ [CHR 0x27]"
definition QueryVote :: string where "QueryVote = ''tm.event='' @ [CHR 0x27] @ ''Vote'' @ [CHR 0x27]"
definition QueryNewEvidence :: string where "QueryNewEvidence = ''tm.event='' @ [CHR 0x27] @ ''NewEvidence'' @ [CHR 0x27]"

text \<open>The subscriptions are written one after the other; the first failure ends the run.\<close>

definition subscription :: "string \<Rightarrow> string" where
  "subscription q =
     (let dq = [char_of (34 :: nat)]
      in ''{'' @ dq @ ''jsonrpc'' @ dq @ '':'' @ dq @ ''2.0'' @ dq @ '','' @ dq @ ''method'' @ dq @ '':'' @ dq @ ''subscribe'' @ dq @
         '','' @ dq @ ''id'' @ dq @ '':1,'' @ dq @ ''params'' @ dq @ '':{'' @ dq @ ''query'' @ dq @ '':'' @ dq @ q @ dq @ ''}}'')"

fun subscribe_all :: "(string \<Rightarrow> bool) \<Rightarrow> string list \<Rightarrow> string list \<times> bool" where
  "subscribe_all write [] = ([], True)"
| "subscribe_all write (q # qs) =
     (if write (subscription q) then (case subscribe_all write qs of (sent, ok) \<Rightarrow> (subscription q # sent, ok)) else ([], False))"

definition block_update :: "ws_codec \<Rightarrow> string \<Rightarrow> WsReply \<Rightarrow> StatusUpdate option" where
  "block_update codec address reply = map_option (handleBlock address) (wc_block codec (WsReply_Value reply))"

definition vote_update :: "ws_codec \<Rightarrow> string \<Rightarrow> WsReply \<Rightarrow> StatusUpdate option" where
  "vote_update codec address reply = Option.bind (wc_vote codec (WsReply_Value reply)) (handleVote address)"

section \<open>Blocks and the idle check\<close>

datatype block_event = LiveTick | NewBlock WsReply | Done

text \<open>
  \<^verbatim>\<open>handleBlocks\<close> over what its channels deliver: the updates sent, and how it ended (\<open>None\<close> while it
  still runs).
\<close>

fun handleBlocks ::
  "ws_codec \<Rightarrow> string \<Rightarrow> gotime \<Rightarrow> (gotime \<times> block_event) list \<Rightarrow> StatusUpdate list \<times> string option option" where
  "handleBlocks codec address lastBlock [] = ([], None)"
| "handleBlocks codec address lastBlock ((now, LiveTick) # es) =
     (if lastBlock < now - Minute then ([], Some (Some ''websocket idle for 1 minute, exiting''))
      else handleBlocks codec address lastBlock es)"
| "handleBlocks codec address lastBlock ((now, NewBlock reply) # es) =
     (case block_update codec address reply of
        None \<Rightarrow> handleBlocks codec address now es
      | Some upd \<Rightarrow> (case handleBlocks codec address now es of (upds, end_state) \<Rightarrow> (upd # upds, end_state)))"
| "handleBlocks codec address lastBlock ((now, Done) # es) = ([], Some None)"

text \<open>Ticks one minute apart.\<close>

definition ticks :: "gotime \<Rightarrow> nat \<Rightarrow> (gotime \<times> block_event) list" where
  "ticks first n = map (\<lambda>k. (first + int k * Minute, LiveTick)) [0..<n]"

text \<open>When the last block message of some events arrived.\<close>

definition last_block :: "gotime \<Rightarrow> (gotime \<times> block_event) list \<Rightarrow> gotime" where
  "last_block started es = fold (\<lambda>(now, e) l. case e of NewBlock _ \<Rightarrow> now | _ \<Rightarrow> l) es started"

lemma handleBlocks_append:
  "handleBlocks codec address started es = (upds, None) \<Longrightarrow>
   handleBlocks codec address started (es @ es') =
     (case handleBlocks codec address (last_block started es) es' of (upds', e) \<Rightarrow> (upds @ upds', e))"
  by (induction codec address started es arbitrary: upds rule: handleBlocks.induct)
    (auto simp: last_block_def split: if_splits option.splits prod.splits)

text \<open>
  An idle websocket is given up between one and two minutes after the last block. When no
  message arrives any more, the tick within a minute of it (whether the block decoded or not)
  changes nothing and the next one ends the handler with an error, which cancels the connection;
  up to then no update is lost.
\<close>

lemma idle_websocket_exits:
  assumes "handleBlocks codec address started es = (upds, None)"
    "last_block started es < first" "first \<le> last_block started es + Minute"
  shows "handleBlocks codec address started (es @ ticks first 1) = (upds, None) \<and>
    handleBlocks codec address started (es @ ticks first 2 @ later) =
      (upds, Some (Some ''websocket idle for 1 minute, exiting'')) \<and>
    last_block started es + Minute < first + Minute \<and> first + Minute \<le> last_block started es + 2 * Minute"
proof -
  have "ticks first 1 = [(first, LiveTick)]" "ticks first 2 = [(first, LiveTick), (first + Minute, LiveTick)]"
    by (simp_all add: ticks_def upt_rec numeral_2_eq_2)
  then show ?thesis using assms(2,3) by (simp add: handleBlocks_append [OF assms(1)] del: One_nat_def)
qed

section \<open>The pipeline\<close>

record ws_state =
  ws_socket :: "string list"
  ws_block :: "StatusUpdate option"
  ws_vote :: "StatusUpdate option"
  ws_evidence :: "WsReply list"
  ws_results :: "StatusUpdate list"

definition of_type :: "ws_codec \<Rightarrow> string \<Rightarrow> string \<Rightarrow> WsReply option" where
  "of_type codec t msg =
     (case wc_reply codec msg of None \<Rightarrow> None | Some reply \<Rightarrow> if wr_Type reply = t then Some reply else None)"

abbreviation (input) "block_type \<equiv> ''tendermint/event/NewBlock''"
abbreviation (input) "vote_type \<equiv> ''tendermint/event/Vote''"
abbreviation (input) "evidence_type \<equiv> ''tendermint/event/NewEvidence''"

inductive ws_step :: "ws_codec \<Rightarrow> string \<Rightarrow> ws_state \<Rightarrow> ws_state \<Rightarrow> bool" for codec address where
  read_block: "ws_socket st = msg # rest \<Longrightarrow> of_type codec block_type msg = Some reply \<Longrightarrow> ws_block st = None \<Longrightarrow>
     ws_step codec address st (st\<lparr>ws_socket := rest, ws_block := block_update codec address reply\<rparr>)"
| read_vote: "ws_socket st = msg # rest \<Longrightarrow> of_type codec vote_type msg = Some reply \<Longrightarrow> ws_vote st = None \<Longrightarrow>
     ws_step codec address st (st\<lparr>ws_socket := rest, ws_vote := vote_update codec address reply\<rparr>)"
| read_evidence: "ws_socket st = msg # rest \<Longrightarrow> of_type codec evidence_type msg = Some reply \<Longrightarrow>
     ws_step codec address st (st\<lparr>ws_socket := rest, ws_evidence := ws_evidence st @ [reply]\<rparr>)"
| read_other: "ws_socket st = msg # rest \<Longrightarrow> of_type codec block_type msg = None \<Longrightarrow> of_type codec vote_type msg = None \<Longrightarrow>
     of_type codec evidence_type msg = None \<Longrightarrow> ws_step codec address st (st\<lparr>ws_socket := rest\<rparr>)"
| send_block: "ws_block st = Some upd \<Longrightarrow>
     ws_step codec address st (st\<lparr>ws_block := None, ws_results := ws_results st @ [upd]\<rparr>)"
| send_vote: "ws_vote st = Some upd \<Longrightarrow>
     ws_step codec address st (st\<lparr>ws_vote := None, ws_results := ws_results st @ [upd]\<rparr>)"

inductive_cases ws_stepE: "ws_step codec address st st'"

definition ws_start :: "string list \<Rightarrow> ws_state" where
  "ws_start msgs = \<lparr>ws_socket = msgs, ws_block = None, ws_vote = None, ws_evidence = [], ws_results = []\<rparr>"

definition ws_drained :: "ws_state \<Rightarrow> bool" where
  "ws_drained st \<longleftrightarrow> ws_socket st = [] \<and> ws_block st = None \<and> ws_vote st = None"

section \<open>Every message once, each kind in order\<close>

definition blocks_of :: "ws_codec \<Rightarrow> string \<Rightarrow> string list \<Rightarrow> StatusUpdate list" where
  "blocks_of codec address = List.map_filter (\<lambda>msg. Option.bind (of_type codec block_type msg) (block_update codec address))"

definition votes_of :: "ws_codec \<Rightarrow> string \<Rightarrow> string list \<Rightarrow> StatusUpdate list" where
  "votes_of codec address = List.map_filter (\<lambda>msg. Option.bind (of_type codec vote_type msg) (vote_update codec address))"

definition evidence_of :: "ws_codec \<Rightarrow> string list \<Rightarrow> WsReply list" where
  "evidence_of codec = List.map_filter (of_type codec evidence_type)"

text \<open>What an update in flight is, and what has arrived, is in flight or is still to be read.\<close>

definition in_flight :: "ws_state \<Rightarrow> bool" where
  "in_flight st \<longleftrightarrow> (\<forall>u\<in>set_option (ws_block st). su_Final u) \<and> (\<forall>u\<in>set_option (ws_vote st). \<not> su_Final u)"

definition all_blocks :: "ws_codec \<Rightarrow> string \<Rightarrow> ws_state \<Rightarrow> StatusUpdate list" where
  "all_blocks codec address st =
     filter su_Final (ws_results st) @ (case ws_block st of None \<Rightarrow> [] | Some u \<Rightarrow> [u]) @ blocks_of codec address (ws_socket st)"

definition all_votes :: "ws_codec \<Rightarrow> string \<Rightarrow> ws_state \<Rightarrow> StatusUpdate list" where
  "all_votes codec address st =
     filter (\<lambda>u. \<not> su_Final u) (ws_results st) @ (case ws_vote st of None \<Rightarrow> [] | Some u \<Rightarrow> [u]) @ votes_of codec address (ws_socket st)"

lemma block_update_final: "block_update codec address reply = Some u \<Longrightarrow> su_Final u"
  by (auto simp: block_update_def handleBlock_def Let_def)

lemma vote_update_not_final: "vote_update codec address reply = Some u \<Longrightarrow> \<not> su_Final u"
  by (auto simp: vote_update_def handleVote_def bind_eq_Some_conv split: if_splits)

lemma of_type_unique: "of_type codec t msg = Some reply \<Longrightarrow> t \<noteq> t' \<Longrightarrow> of_type codec t' msg = None"
  by (auto simp: of_type_def split: option.splits if_splits)

lemma ws_step_invariant:
  assumes "ws_step codec address st st'" "in_flight st"
  shows "in_flight st' \<and> all_blocks codec address st' = all_blocks codec address st \<and>
    all_votes codec address st' = all_votes codec address st \<and>
    ws_evidence st' @ evidence_of codec (ws_socket st') = ws_evidence st @ evidence_of codec (ws_socket st)"
  using assms
proof (induction rule: ws_step.induct)
  case (read_block st msg rest reply)
  then show ?case using of_type_unique [OF read_block(2)]
    by (auto simp: in_flight_def all_blocks_def all_votes_def blocks_of_def votes_of_def evidence_of_def map_filter_simps
        block_update_final split: option.split)
next
  case (read_vote st msg rest reply)
  then show ?case using of_type_unique [OF read_vote(2)]
    by (auto simp: in_flight_def all_blocks_def all_votes_def blocks_of_def votes_of_def evidence_of_def map_filter_simps
        vote_update_not_final split: option.split)
next
  case (read_evidence st msg rest reply)
  then show ?case using of_type_unique [OF read_evidence(2)]
    by (auto simp: in_flight_def all_blocks_def all_votes_def blocks_of_def votes_of_def evidence_of_def map_filter_simps)
qed (auto simp: in_flight_def all_blocks_def all_votes_def blocks_of_def votes_of_def evidence_of_def map_filter_simps)

lemma ws_reach_invariant:
  assumes "(ws_step codec address)\<^sup>*\<^sup>* (ws_start msgs) st"
  shows "in_flight st \<and> all_blocks codec address st = blocks_of codec address msgs \<and>
    all_votes codec address st = votes_of codec address msgs \<and>
    ws_evidence st @ evidence_of codec (ws_socket st) = evidence_of codec msgs"
  using assms
proof (induction rule: rtranclp_induct)
  case base
  show ?case by (simp add: ws_start_def in_flight_def all_blocks_def all_votes_def)
next
  case (step y z)
  then show ?case using ws_step_invariant [OF step(2)] by simp
qed

lemma outcomes_length: "length (outcomes st us) = length (filter su_Final us)"
  by (induction us arbitrary: st) simp_all

text \<open>
  C8: The goroutines behind a websocket lose, duplicate and reorder nothing of one kind. In every
  state the pipeline can reach, the block updates taken so far, the one in flight and those still
  to be read are the updates of all block messages in their order, and so for the votes; evidence
  is handled in the order of arrival. Once drained, the result is a merge of the two sequences.
\<close>

theorem ws_pipeline_keeps_order:
  assumes "(ws_step codec address)\<^sup>*\<^sup>* (ws_start msgs) st"
  shows "all_blocks codec address st = blocks_of codec address msgs \<and> all_votes codec address st = votes_of codec address msgs \<and>
    ws_evidence st @ evidence_of codec (ws_socket st) = evidence_of codec msgs \<and>
    (ws_drained st \<longrightarrow> ws_results st \<in> shuffles (blocks_of codec address msgs) (votes_of codec address msgs))"
  using ws_reach_invariant [OF assms] partition_in_shuffles [of "ws_results st" su_Final]
  by (auto simp: ws_drained_def all_blocks_def all_votes_def blocks_of_def votes_of_def map_filter_simps)

section \<open>Draining\<close>

text \<open>Every message takes a step to be read and, when it leads to an update, one to be sent.\<close>

definition ws_work :: "ws_state \<Rightarrow> nat" where
  "ws_work st = 2 * length (ws_socket st) + length (filter (\<lambda>u. u \<noteq> None) [ws_block st, ws_vote st])"

lemma ws_step_work: "ws_step codec address st st' \<Longrightarrow> ws_work st' < ws_work st"
  by (erule ws_stepE) (auto simp: ws_work_def)

lemma ws_step_progress:
  assumes "\<not> ws_drained st"
  shows "\<exists>st'. ws_step codec address st st'"
proof -
  consider (block) u where "ws_block st = Some u" | (vote) u where "ws_vote st = Some u"
    | (read) msg rest where "ws_socket st = msg # rest" "ws_block st = None" "ws_vote st = None"
    using assms by (cases "ws_socket st"; auto simp: ws_drained_def)
  then show ?thesis
  proof cases
    case read
    then show ?thesis
      by (cases "of_type codec block_type msg"; cases "of_type codec vote_type msg"; cases "of_type codec evidence_type msg")
        (blast intro: ws_step.intros)+
  qed (blast intro: ws_step.intros)+
qed


section \<open>A vote that is overtaken\<close>

text \<open>
  C10: What a block counts as depends on the scheduling. With a vote of the validator and the two
  blocks after it on the socket, both without its signature, one run gives the first block the vote
  and another one, in which the block's handler is first, gives the vote to the second block: the
  heights of votes and blocks are never compared.
\<close>

theorem vote_overtaken_by_block:
  assumes "of_type codec vote_type mv = Some rv" "vote_update codec address rv = Some v" "0 \<le> su_Status v"
    "of_type codec block_type m1 = Some r1" "block_update codec address r1 = Some b1" "su_Status b1 = Statusmissed"
    "of_type codec block_type m2 = Some r2" "block_update codec address r2 = Some b2" "su_Status b2 = Statusmissed"
  shows "\<exists>st st'. (ws_step codec address)\<^sup>*\<^sup>* (ws_start [mv, m1, m2]) st \<and> ws_drained st \<and>
      (ws_step codec address)\<^sup>*\<^sup>* (ws_start [mv, m1, m2]) st' \<and> ws_drained st' \<and>
      outcomes (- 1) (ws_results st) = [su_Status v, Statusmissed] \<and>
      outcomes (- 1) (ws_results st') = [Statusmissed, su_Status v]"
proof -
  let ?at = "\<lambda>msgs b v rs. \<lparr>ws_socket = msgs, ws_block = b, ws_vote = v, ws_evidence = [], ws_results = rs\<rparr>"
  let ?steps = "(ws_step codec address)\<^sup>*\<^sup>*"
  note kinds = block_update_final [OF assms(5)] block_update_final [OF assms(8)] vote_update_not_final [OF assms(2)]
  have read: "ws_step codec address (?at (mv # msgs) b None rs) (?at msgs b (Some v) rs)"
      "ws_step codec address (?at (m1 # msgs) None w rs) (?at msgs (Some b1) w rs)"
      "ws_step codec address (?at (m2 # msgs) None w rs) (?at msgs (Some b2) w rs)" for msgs b w rs
    using ws_step.read_vote [of "?at (mv # msgs) b None rs" mv msgs codec rv address] assms
      ws_step.read_block [of "?at (m1 # msgs) None w rs" m1 msgs codec r1 address]
      ws_step.read_block [of "?at (m2 # msgs) None w rs" m2 msgs codec r2 address] by simp_all
  have send: "ws_step codec address (?at msgs (Some u) w rs) (?at msgs None w (rs @ [u]))"
      "ws_step codec address (?at msgs b (Some u) rs) (?at msgs b None (rs @ [u]))" for msgs u b w rs
    using ws_step.send_block [of "?at msgs (Some u) w rs" u codec address]
      ws_step.send_vote [of "?at msgs b (Some u) rs" u codec address] by simp_all
  note step = converse_rtranclp_into_rtranclp [where r = "ws_step codec address"]
  have "?steps (ws_start [mv, m1, m2]) (?at [] None None [v, b1, b2])"
    unfolding ws_start_def
    by (rule step, rule read(1), rule step, rule send(2), rule step, rule read(2), rule step, rule send(1),
        rule step, rule read(3), rule step, rule send(1)) simp
  moreover have "?steps (ws_start [mv, m1, m2]) (?at [] None None [b1, v, b2])"
    unfolding ws_start_def
    by (rule step, rule read(1), rule step, rule read(2), rule step, rule send(1), rule step, rule send(2),
        rule step, rule read(3), rule step, rule send(1)) simp
  moreover have "outcomes (- 1) [v, b1, b2] = [su_Status v, Statusmissed]" "outcomes (- 1) [b1, v, b2] = [Statusmissed, su_Status v]"
    using kinds assms(3,6,9) by simp_all
  ultimately show ?thesis by (intro exI [of _ "?at [] None None [v, b1, b2]"] exI [of _ "?at [] None None [b1, v, b2]"]) (simp add: ws_drained_def)
qed

section \<open>Ending a run\<close>

text \<open>
  After the cancellation the connection is closed: a read of it returns what is still buffered and
  then fails. The consumer and an idle handler see the cancellation; a send on a channel does not.
\<close>

datatype handler = Waiting | Sending StatusUpdate | Ended
datatype routed = ToBlocks WsReply | ToVotes WsReply
datatype reader = Reading | Routing routed | Returned

record ws_goroutines =
  wg_results :: bool
  wg_blocks :: handler
  wg_votes :: handler
  wg_reader :: reader
  wg_buffer :: "routed list"

definition handler_of :: "StatusUpdate option \<Rightarrow> handler" where
  "handler_of u = (case u of None \<Rightarrow> Waiting | Some upd \<Rightarrow> Sending upd)"

inductive stop_step :: "ws_codec \<Rightarrow> string \<Rightarrow> ws_goroutines \<Rightarrow> ws_goroutines \<Rightarrow> bool" for codec address where
  results_done: "wg_results g \<Longrightarrow> stop_step codec address g (g\<lparr>wg_results := False\<rparr>)"
| take_block: "wg_results g \<Longrightarrow> wg_blocks g = Sending u \<Longrightarrow> stop_step codec address g (g\<lparr>wg_blocks := Waiting\<rparr>)"
| take_vote: "wg_results g \<Longrightarrow> wg_votes g = Sending u \<Longrightarrow> stop_step codec address g (g\<lparr>wg_votes := Waiting\<rparr>)"
| blocks_done: "wg_blocks g = Waiting \<Longrightarrow> stop_step codec address g (g\<lparr>wg_blocks := Ended\<rparr>)"
| votes_done: "wg_votes g = Waiting \<Longrightarrow> stop_step codec address g (g\<lparr>wg_votes := Ended\<rparr>)"
| read_message: "wg_reader g = Reading \<Longrightarrow> wg_buffer g = r # rs \<Longrightarrow>
     stop_step codec address g (g\<lparr>wg_reader := Routing r, wg_buffer := rs\<rparr>)"
| read_fails: "wg_reader g = Reading \<Longrightarrow> wg_buffer g = [] \<Longrightarrow> stop_step codec address g (g\<lparr>wg_reader := Returned\<rparr>)"
| route_block: "wg_reader g = Routing (ToBlocks reply) \<Longrightarrow> wg_blocks g = Waiting \<Longrightarrow>
     stop_step codec address g (g\<lparr>wg_reader := Reading, wg_blocks := handler_of (block_update codec address reply)\<rparr>)"
| route_vote: "wg_reader g = Routing (ToVotes reply) \<Longrightarrow> wg_votes g = Waiting \<Longrightarrow>
     stop_step codec address g (g\<lparr>wg_reader := Reading, wg_votes := handler_of (vote_update codec address reply)\<rparr>)"

inductive_cases stop_stepE: "stop_step codec address g g'"

definition all_ended :: "ws_goroutines \<Rightarrow> bool" where
  "all_ended g \<longleftrightarrow> \<not> wg_results g \<and> wg_blocks g = Ended \<and> wg_votes g = Ended \<and> wg_reader g = Returned"

text \<open>Nothing between two goroutines, and nothing left to read.\<close>

definition nothing_in_flight :: "ws_goroutines \<Rightarrow> bool" where
  "nothing_in_flight g \<longleftrightarrow> (\<forall>u. wg_blocks g \<noteq> Sending u \<and> wg_votes g \<noteq> Sending u) \<and>
     (wg_reader g = Returned \<or> wg_reader g = Reading \<and> wg_buffer g = [])"

definition stopped_at :: "ws_codec \<Rightarrow> string \<Rightarrow> ws_goroutines \<Rightarrow> ws_goroutines \<Rightarrow> bool" where
  "stopped_at codec address g g' \<longleftrightarrow> (stop_step codec address)\<^sup>*\<^sup>* g g' \<and> (\<nexists>g''. stop_step codec address g' g'')"

fun handler_work :: "handler \<Rightarrow> nat" where
  "handler_work Ended = 0" | "handler_work Waiting = 1" | "handler_work (Sending u) = 2"

fun reader_work :: "reader \<Rightarrow> nat" where
  "reader_work Returned = 0" | "reader_work Reading = 1" | "reader_work (Routing r) = 4"

definition stop_work :: "ws_goroutines \<Rightarrow> nat" where
  "stop_work g = of_bool (wg_results g) + handler_work (wg_blocks g) + handler_work (wg_votes g) +
     reader_work (wg_reader g) + 4 * length (wg_buffer g)"

lemma handler_of_work [simp]: "handler_work (handler_of u) < 4"
  by (cases u) (simp_all add: handler_of_def)

lemma stop_step_work: "stop_step codec address g g' \<Longrightarrow> stop_work g' < stop_work g"
  by (erule stop_stepE) (auto simp: stop_work_def)

lemma stops: "\<exists>g'. stopped_at codec address g g'"
proof (induction "stop_work g" arbitrary: g rule: less_induct)
  case less
  show ?case
  proof (cases "\<exists>g1. stop_step codec address g g1")
    case True
    then obtain g1 where g1: "stop_step codec address g g1" by blast
    then obtain g' where "stopped_at codec address g1 g'" using less stop_step_work by blast
    then show ?thesis using g1 by (meson converse_rtranclp_into_rtranclp stopped_at_def)
  qed (auto simp: stopped_at_def)
qed

text \<open>What keeps a goroutine from ending keeps it so in a state where the run has stopped.\<close>

lemma stops_keeping:
  assumes "P g" "\<And>g1 g2. P g1 \<Longrightarrow> stop_step codec address g1 g2 \<Longrightarrow> P g2" "\<And>g. P g \<Longrightarrow> \<not> all_ended g"
  shows "\<exists>g'. stopped_at codec address g g' \<and> \<not> all_ended g'"
proof -
  obtain g' where "stopped_at codec address g g'" using stops by blast
  moreover have "P g'" if "(stop_step codec address)\<^sup>*\<^sup>* g g'" for g'
    using that by (induction rule: rtranclp_induct) (use assms in blast)+
  ultimately show ?thesis using assms(3) by (auto simp: stopped_at_def)
qed

lemma stopped_at_step: "stop_step codec address g g1 \<Longrightarrow> stopped_at codec address g1 g' \<Longrightarrow> stopped_at codec address g g'"
  by (meson converse_rtranclp_into_rtranclp stopped_at_def)

lemma sending_never_ends:
  assumes "\<not> wg_results g" "wg_blocks g = Sending u \<or> wg_votes g = Sending u"
  shows "\<exists>g'. stopped_at codec address g g' \<and> \<not> all_ended g'"
  by (rule stops_keeping [where P = "\<lambda>g. \<not> wg_results g \<and> (wg_blocks g = Sending u \<or> wg_votes g = Sending u)"])
    (use assms in \<open>auto simp: all_ended_def elim: stop_stepE\<close>)

lemma routing_never_ends:
  assumes "wg_reader g = Routing r" "\<not> wg_results g"
  shows "\<exists>g'. stopped_at codec address g g' \<and> \<not> all_ended g'"
proof -
  have stuck: "\<exists>g'. stopped_at codec address g g' \<and> \<not> all_ended g'"
    if "wg_reader g = Routing r" "case r of ToBlocks _ \<Rightarrow> wg_blocks g = Ended | ToVotes _ \<Rightarrow> wg_votes g = Ended" for g
    by (rule stops_keeping [where P = "\<lambda>g. wg_reader g = Routing r \<and>
          (case r of ToBlocks _ \<Rightarrow> wg_blocks g = Ended | ToVotes _ \<Rightarrow> wg_votes g = Ended)"])
      (use that in \<open>auto simp: all_ended_def split: routed.splits elim: stop_stepE\<close>)
  consider "wg_blocks g = Waiting" "\<exists>reply. r = ToBlocks reply" | "wg_votes g = Waiting" "\<exists>reply. r = ToVotes reply"
    | u where "wg_blocks g = Sending u \<or> wg_votes g = Sending u"
    | "case r of ToBlocks _ \<Rightarrow> wg_blocks g = Ended | ToVotes _ \<Rightarrow> wg_votes g = Ended"
    by (cases r; cases "wg_blocks g"; cases "wg_votes g"; simp; blast)
  then show ?thesis
  proof cases
    case 1
    then show ?thesis using stuck [of "g\<lparr>wg_blocks := Ended\<rparr>"] assms stopped_at_step [OF stop_step.blocks_done] by fastforce
  next
    case 2
    then show ?thesis using stuck [of "g\<lparr>wg_votes := Ended\<rparr>"] assms stopped_at_step [OF stop_step.votes_done] by fastforce
  next
    case 3
    then show ?thesis using assms sending_never_ends by blast
  qed (use stuck assms in blast)
qed

text \<open>
  C11: When a websocket run is cancelled, its reader, its handlers of blocks and votes and
  the consumer are certain to end exactly when nothing is in flight between them. Every run after the cancellation is finite, but a handler that has an
  update to send, and the reader while it routes or still has a buffered message, may be left behind
  for good: sends do not look at the cancellation, and the receiver may be gone.
\<close>

theorem cancelled_websocket_leaks_iff:
  assumes "wg_results g"
  shows "(\<forall>g'. stopped_at codec address g g' \<longrightarrow> all_ended g') \<longleftrightarrow> nothing_in_flight g"
proof
  assume quiet: "nothing_in_flight g"
  have "nothing_in_flight g'" if "(stop_step codec address)\<^sup>*\<^sup>* g g'" for g'
    using that quiet by (induction rule: rtranclp_induct) (auto simp: nothing_in_flight_def elim!: stop_stepE)
  moreover have "all_ended g'" if quiet: "nothing_in_flight g'" and stopped: "\<nexists>g''. stop_step codec address g' g''" for g'
  proof -
    have "\<not> wg_results g'" "wg_blocks g' \<noteq> Waiting" "wg_votes g' \<noteq> Waiting" "\<not> (wg_reader g' = Reading \<and> wg_buffer g' = [])"
      using stopped by (blast intro: stop_step.intros)+
    then show ?thesis
      using quiet by (cases "wg_blocks g'"; cases "wg_votes g'") (auto simp: nothing_in_flight_def all_ended_def)
  qed
  ultimately show "\<forall>g'. stopped_at codec address g g' \<longrightarrow> all_ended g'" by (simp add: stopped_at_def)
next
  assume ends: "\<forall>g'. stopped_at codec address g g' \<longrightarrow> all_ended g'"
  let ?g = "g\<lparr>wg_results := False\<rparr>"
  have "stop_step codec address g ?g" using assms by (rule stop_step.results_done)
  then have ends': "\<forall>g'. stopped_at codec address ?g g' \<longrightarrow> all_ended g'" using ends stopped_at_step by blast
  have "\<not> (wg_reader ?g = Reading \<and> wg_buffer ?g = r # rs)" for r rs
    using routing_never_ends [of "?g\<lparr>wg_reader := Routing r, wg_buffer := rs\<rparr>" r codec address]
      stopped_at_step [OF stop_step.read_message] ends' by fastforce
  then show "nothing_in_flight g"
    using sending_never_ends [of ?g _ codec address] routing_never_ends [of ?g _ codec address] ends'
    by (cases "wg_reader g"; cases "wg_buffer g"; simp add: nothing_in_flight_def; blast)
qed

section \<open>The theorems on concrete messages\<close>

text \<open>A node that answers one of two messages: a block without the validator and its precommit.\<close>

definition sample_codec :: ws_codec where
  "sample_codec =
     \<lparr>wc_reply = (\<lambda>msg. if msg = ''b'' then Some \<lparr>wr_Id = 1, wr_Query = QueryNewBlock, wr_Type = block_type, wr_Value = None\<rparr>
        else if msg = ''v'' then Some \<lparr>wr_Id = 1, wr_Query = QueryVote, wr_Type = vote_type, wr_Value = None\<rparr> else None),
      wc_block = (\<lambda>value. Some \<lparr>rb_Height = ''7'', rb_ProposerAddress = ''CC'', rb_Signatures = [], rb_Txs = []\<rparr>),
      wc_vote = (\<lambda>value. Some \<lparr>rv_Type = ''SIGNED_MSG_TYPE_PRECOMMIT'', rv_Height = ''7'', rv_ValidatorAddress = ''AB''\<rparr>)\<rparr>"

definition sample_block :: StatusUpdate where
  "sample_block = \<lparr>su_Height = stringInt64_val ''7'', su_Status = 0, su_Final = True, su_Empty = True\<rparr>"

definition sample_vote :: StatusUpdate where
  "sample_vote = \<lparr>su_Height = stringInt64_val ''7'', su_Status = 2, su_Final = False, su_Empty = False\<rparr>"

lemma sample_messages [simp]:
  "of_type sample_codec block_type ''b'' = Some \<lparr>wr_Id = 1, wr_Query = QueryNewBlock, wr_Type = block_type, wr_Value = None\<rparr>"
  "of_type sample_codec vote_type ''v'' = Some \<lparr>wr_Id = 1, wr_Query = QueryVote, wr_Type = vote_type, wr_Value = None\<rparr>"
  "block_update sample_codec ''AB'' reply = Some sample_block"
  "vote_update sample_codec ''AB'' reply = Some sample_vote"
  "blocks_of sample_codec ''AB'' [''b''] = [sample_block]" "votes_of sample_codec ''AB'' [''b''] = []"
  by (simp_all add: of_type_def sample_codec_def block_update_def vote_update_def handleBlock_def handleVote_def rawBlock_find_def
      sample_block_def sample_vote_def blocks_of_def votes_of_def map_filter_simps)

lemma sample_steps:
  "ws_step sample_codec ''AB'' (ws_start [''b'']) ((ws_start [])\<lparr>ws_block := Some sample_block\<rparr>)"
  "ws_step sample_codec ''AB'' ((ws_start [])\<lparr>ws_block := Some sample_block\<rparr>) ((ws_start [])\<lparr>ws_results := [sample_block]\<rparr>)"
  using ws_step.read_block [of "ws_start [''b'']" "''b''" "[]" sample_codec _ "''AB''"]
    ws_step.send_block [of "(ws_start [])\<lparr>ws_block := Some sample_block\<rparr>" sample_block sample_codec "''AB''"]
  by (simp_all add: ws_start_def)

lemma idle_websocket_exits_witness:
  "handleBlocks sample_codec ''AB'' noon ((noon + 1, NewBlock \<lparr>wr_Id = 1, wr_Query = [], wr_Type = [], wr_Value = None\<rparr>) # ticks (noon + 2) 2) =
     ([sample_block], Some (Some ''websocket idle for 1 minute, exiting''))"
  using idle_websocket_exits [of sample_codec "''AB''" noon
      "[(noon + 1, NewBlock \<lparr>wr_Id = 1, wr_Query = [], wr_Type = [], wr_Value = None\<rparr>)]" "[sample_block]" "noon + 2" "[]"]
  by (simp add: last_block_def Minute_def Second_def)

theorem ws_pipeline_keeps_order_witness:
  "\<exists>st. (ws_step sample_codec ''AB'')\<^sup>*\<^sup>* (ws_start [''b'']) st \<and> ws_drained st \<and> ws_results st \<in> shuffles [sample_block] []"
proof -
  let ?st = "(ws_start [])\<lparr>ws_results := [sample_block]\<rparr>"
  have run: "(ws_step sample_codec ''AB'')\<^sup>*\<^sup>* (ws_start [''b'']) ?st"
    using sample_steps by (meson converse_rtranclp_into_rtranclp rtranclp.rtrancl_refl)
  have "ws_drained ?st" by (simp add: ws_drained_def ws_start_def)
  then show ?thesis using ws_pipeline_keeps_order [OF run] run by auto
qed


theorem vote_overtaken_by_block_witness:
  "\<exists>st. (ws_step sample_codec ''AB'')\<^sup>*\<^sup>* (ws_start [''v'', ''b'', ''b'']) st \<and> ws_drained st \<and>
     outcomes (- 1) (ws_results st) = [0, 2]"
  using vote_overtaken_by_block [OF sample_messages(2) sample_messages(4) _ sample_messages(1) sample_messages(3) _
      sample_messages(1) sample_messages(3)]
  by (auto simp: sample_vote_def sample_block_def)

theorem cancelled_websocket_leaks_iff_witness:
  "\<exists>g'. stopped_at sample_codec ''AB''
     \<lparr>wg_results = True, wg_blocks = Sending sample_block, wg_votes = Waiting, wg_reader = Reading, wg_buffer = []\<rparr> g' \<and> \<not> all_ended g'"
  using cancelled_websocket_leaks_iff
    [of "\<lparr>wg_results = True, wg_blocks = Sending sample_block, wg_votes = Waiting, wg_reader = Reading, wg_buffer = []\<rparr>" sample_codec "''AB''"]
  by (auto simp: nothing_in_flight_def)

end
