(* ===== verification/ProgramRun.thy ===== *)
theory ProgramRun
  imports StateStore
begin

text \<open>
  The program as a whole: the command line (\<^verbatim>\<open>main.go\<close>), the digester's loop (\<^verbatim>\<open>run\<close> of
  \<^verbatim>\<open>td2/digest.go\<close>) and the end of \<^verbatim>\<open>Run\<close> with \<^verbatim>\<open>saveOnExit\<close> (\<^verbatim>\<open>td2/run.go\<close>), as a step relation of
  the goroutines that take part in it.
\<close>

section \<open>The command line\<close>

record cmdline =
  cl_configFile :: string
  cl_encryptedFile :: string
  cl_password :: string
  cl_stateFile :: string
  cl_chainConfigDirectory :: string
  cl_dumpConfig :: bool
  cl_encryptConfig :: bool
  cl_decryptConfig :: bool
  cl_devMode :: bool
  cl_hashPassword :: bool

definition flag_defaults :: cmdline where
  "flag_defaults =
     \<lparr>cl_configFile = ''config.yml'', cl_encryptedFile = ''config.yml.asc'', cl_password = [],
      cl_stateFile = ''.tenderduty-state.json'', cl_chainConfigDirectory = ''chains.d'', cl_dumpConfig = False,
      cl_encryptConfig = False, cl_decryptConfig = False, cl_devMode = False, cl_hashPassword = False\<rparr>"

text \<open>The environment, what is typed at a prompt, and what the functions called answer.\<close>

record main_world =
  mw_CONFIG :: string
  mw_PASSWORD :: string
  mw_ReadPassword :: "string + string"
  mw_bcrypt :: "string \<Rightarrow> string + string"
  mw_EncryptedConfig :: "string \<Rightarrow> string \<Rightarrow> string \<Rightarrow> bool \<Rightarrow> string option"
  mw_Run :: "string \<Rightarrow> string \<Rightarrow> string \<Rightarrow> string \<Rightarrow> bool \<Rightarrow> string option"

datatype printed = Print string | LogError string string

definition main_configFile :: "main_world \<Rightarrow> cmdline \<Rightarrow> string" where
  "main_configFile w cl =
     (if cl_configFile cl = ''config.yml'' \<and> mw_CONFIG w \<noteq> [] then mw_CONFIG w else cl_configFile cl)"

definition main_password :: "main_world \<Rightarrow> cmdline \<Rightarrow> string" where
  "main_password w cl = (if mw_PASSWORD w \<noteq> [] then mw_PASSWORD w else cl_password cl)"

text \<open>What is printed or logged, and the exit status.\<close>

definition main_prog :: "string \<Rightarrow> main_world \<Rightarrow> cmdline \<Rightarrow> printed list \<times> int" where
  "main_prog defaultConfig w cl =
     (if cl_dumpConfig cl then ([Print defaultConfig], 0)
      else if cl_hashPassword cl then
        (case mw_ReadPassword w of
           Inl err \<Rightarrow> ([Print ''Password to hash: '', LogError ''failed to read password'' err], 1)
         | Inr pass \<Rightarrow>
             (case mw_bcrypt w pass of
                Inl err \<Rightarrow> ([Print ''Password to hash: '', Print [], LogError ''failed to hash password'' err], 1)
              | Inr hash \<Rightarrow> ([Print ''Password to hash: '', Print [], Print hash], 0)))
      else
        let configFile = main_configFile w cl; password = main_password w cl
        in if cl_encryptConfig cl \<or> cl_decryptConfig cl then
             (let ask = [Print ''Please enter the encryption password: '']
              in case (if password = [] then mw_ReadPassword w else Inr password) of
                   Inl err \<Rightarrow> (ask @ [LogError ''failed to read password'' err], 1)
                 | Inr pass \<Rightarrow>
                     let out = (if password = [] then ask @ [Print []] else [])
                     in case mw_EncryptedConfig w configFile (cl_encryptedFile cl) pass (\<not> cl_encryptConfig cl) of
                          Some e \<Rightarrow> (out @ [LogError ''failed to process encrypted config'' e], 1)
                        | None \<Rightarrow> (out, 0))
           else
             case mw_Run w configFile (cl_stateFile cl) (cl_chainConfigDirectory cl) password (cl_devMode cl) of
               Some err \<Rightarrow> ([LogError ''tenderduty exiting'' err], 0)
             | None \<Rightarrow> ([], 0))"

text \<open>
  A configuration that cannot be loaded makes the program end with the status of success; a failed
  encryption or decryption does not.
\<close>

lemma failed_start_exits_zero:
  assumes "\<not> cl_dumpConfig cl" "\<not> cl_hashPassword cl" "\<not> cl_encryptConfig cl" "\<not> cl_decryptConfig cl"
    "mw_Run w (main_configFile w cl) (cl_stateFile cl) (cl_chainConfigDirectory cl) (main_password w cl) (cl_devMode cl) = Some err"
  shows "main_prog defaultConfig w cl = ([LogError ''tenderduty exiting'' err], 0)"
  using assms by (simp add: main_prog_def Let_def)

text \<open>With both flags the file is encrypted; an empty password at the prompt is passed on.\<close>

lemma encrypt_before_decrypt:
  assumes "\<not> cl_dumpConfig cl" "\<not> cl_hashPassword cl" "cl_encryptConfig cl" "main_password w cl \<noteq> []"
  shows "snd (main_prog defaultConfig w cl) = 0 \<longleftrightarrow>
    mw_EncryptedConfig w (main_configFile w cl) (cl_encryptedFile cl) (main_password w cl) False = None"
  using assms by (simp add: main_prog_def Let_def split: option.split)

section \<open>The end of a run\<close>

datatype digest_event = DigestTick | DigestDone

text \<open>One turn of the digester's loop: what it posts, its buffers, and whether it has returned.\<close>

definition digester_turn :: "gotime \<Rightarrow> network \<Rightarrow> digest_event \<Rightarrow> digester \<Rightarrow> post list \<times> digester \<times> bool" where
  "digester_turn now net ev dg =
     (case ev of
        DigestTick \<Rightarrow> let (ps, dg') = flush now net dg in (ps, dg', False)
      | DigestDone \<Rightarrow> let (ps, dg') = flush now net dg in (ps, dg', True))"

record program =
  pg_sys :: sys
  pg_digester :: digester
  pg_posts :: "post list"
  pg_saved :: "savedState option"
  pg_cancelled :: bool
  pg_digester_done :: bool
  pg_exited :: bool

definition arrive :: "int \<Rightarrow> network \<Rightarrow> gotime \<Rightarrow> alertMsg \<Rightarrow> program \<Rightarrow> program" where
  "arrive reminder net now msg pg =
     (case deliver_digest reminder now net msg (pg_digester pg, alarms (pg_sys pg)) of
        (ps, dg, a) \<Rightarrow> pg\<lparr>pg_posts := pg_posts pg @ ps, pg_digester := dg, pg_sys := (pg_sys pg)\<lparr>alarms := a\<rparr>\<rparr>)"

definition turn :: "network \<Rightarrow> gotime \<Rightarrow> digest_event \<Rightarrow> program \<Rightarrow> program" where
  "turn net now ev pg =
     (case digester_turn now net ev (pg_digester pg) of
        (ps, dg, ended) \<Rightarrow> pg\<lparr>pg_posts := pg_posts pg @ ps, pg_digester := dg, pg_digester_done := ended\<rparr>)"

text \<open>
  On a signal \<^verbatim>\<open>saveOnExit\<close> saves and closes \<^verbatim>\<open>saved\<close>, then cancels the context; \<^verbatim>\<open>Run\<close> waits for
  both and returns, and \<^verbatim>\<open>main\<close> with it. The digester sees the cancellation in its own goroutine.
\<close>

inductive program_step :: "int \<Rightarrow> network \<Rightarrow> program \<Rightarrow> program \<Rightarrow> bool" for reminder net where
  message: "\<not> pg_exited pg \<Longrightarrow> program_step reminder net pg (arrive reminder net now msg pg)"
| digest_tick: "\<not> pg_exited pg \<Longrightarrow> \<not> pg_digester_done pg \<Longrightarrow> program_step reminder net pg (turn net now DigestTick pg)"
| final_flush: "\<not> pg_exited pg \<Longrightarrow> \<not> pg_digester_done pg \<Longrightarrow> pg_cancelled pg \<Longrightarrow>
     program_step reminder net pg (turn net now DigestDone pg)"
| save: "\<not> pg_exited pg \<Longrightarrow> pg_saved pg = None \<Longrightarrow>
     program_step reminder net pg (pg\<lparr>pg_saved := Some (saveState now (pg_sys pg))\<rparr>)"
| cancel: "\<not> pg_exited pg \<Longrightarrow> pg_saved pg \<noteq> None \<Longrightarrow> \<not> pg_cancelled pg \<Longrightarrow>
     program_step reminder net pg (pg\<lparr>pg_cancelled := True\<rparr>)"
| exit: "\<not> pg_exited pg \<Longrightarrow> pg_saved pg \<noteq> None \<Longrightarrow> pg_cancelled pg \<Longrightarrow>
     program_step reminder net pg (pg\<lparr>pg_exited := True\<rparr>)"

section \<open>What is lost at the end\<close>

definition pending :: "notifyDest \<Rightarrow> digester \<Rightarrow> alertMsg \<Rightarrow> bool" where
  "pending d dg m \<longleftrightarrow>
     (case d of
        pd \<Rightarrow> False
      | di \<Rightarrow> m \<in> set (buffered (dg_disc dg) (m_discHook m))
      | tg \<Rightarrow> m \<in> set (buffered (dg_tg dg) (tg_bucket m))
      | slk \<Rightarrow> m \<in> set (buffered (dg_slk dg) (m_slkHook m))
      | wh \<Rightarrow> m \<in> set (buffered (dg_wh dg) (m_whURL m)))"

text \<open>The gate of one destination depends on its own record only, PagerDuty apart.\<close>

lemma approve_other: "d' \<noteq> d \<Longrightarrow> sent_of d' (snd (approve r now m d a)) = sent_of d' a"
  by (simp add: approve_def shouldNotify_def Let_def)

lemma approve_cong:
  "sent_of d a = sent_of d a' \<Longrightarrow> d \<noteq> pd \<Longrightarrow>
   fst (approve r now m d a) = fst (approve r now m d a') \<and>
   sent_of d (snd (approve r now m d a)) = sent_of d (snd (approve r now m d a'))"
  by (simp add: approve_def shouldNotify_def Let_def)

lemma answers_approve:
  assumes "answers r now m a = ([b1, b2, b3, b4, b5], a')" "d \<noteq> pd"
  shows "(case d of pd \<Rightarrow> b1 | di \<Rightarrow> b2 | tg \<Rightarrow> b3 | slk \<Rightarrow> b4 | wh \<Rightarrow> b5) = fst (approve r now m d a)"
    and "sent_of d a' = sent_of d (snd (approve r now m d a))"
proof -
  define a1 where "a1 = snd (approve r now m pd a)"
  define a2 where "a2 = snd (approve r now m di a1)"
  define a3 where "a3 = snd (approve r now m tg a2)"
  define a4 where "a4 = snd (approve r now m slk a3)"
  have b: "b2 = fst (approve r now m di a1)" "b3 = fst (approve r now m tg a2)" "b4 = fst (approve r now m slk a3)"
      "b5 = fst (approve r now m wh a4)" "a' = snd (approve r now m wh a4)"
    using assms(1) by (simp_all add: answers_def split_def Let_def a1_def a2_def a3_def a4_def)
  have same: "sent_of di a1 = sent_of di a" "sent_of tg a2 = sent_of tg a" "sent_of slk a3 = sent_of slk a" "sent_of wh a4 = sent_of wh a"
    by (simp_all add: a1_def a2_def a3_def a4_def approve_other)
  note c = approve_cong [OF same(1), of r now m] approve_cong [OF same(2), of r now m]
    approve_cong [OF same(3), of r now m] approve_cong [OF same(4), of r now m]
  show "(case d of pd \<Rightarrow> b1 | di \<Rightarrow> b2 | tg \<Rightarrow> b3 | slk \<Rightarrow> b4 | wh \<Rightarrow> b5) = fst (approve r now m d a)"
    using assms(2) b c by (cases d) simp_all
  show "sent_of d a' = sent_of d (snd (approve r now m d a))"
    using assms(2) b(5) c by (cases d) (simp_all add: a2_def [symmetric] a3_def [symmetric] a4_def [symmetric] approve_other,
      simp_all add: a4_def a3_def a2_def approve_other)
qed

lemma approve_firing:
  assumes "enabled m d" "severity_ok m d" "\<not> m_resolved m" "plain_id (m_uniqueId m)" "\<not> is_sent d (m_uniqueId m) a" "d \<noteq> pd"
  shows "fst (approve r now m d a)"
    and "sent_of d (snd (approve r now m d a)) = gm_set (m_uniqueId m) (sent_entry now m) (sent_of d a)"
  using assms by (simp_all add: approve_def shouldNotify_def severity_ok_def is_sent_def Let_def)

lemma arrive_pending:
  assumes "enabled m d" "severity_ok m d" "\<not> m_resolved m" "plain_id (m_uniqueId m)"
    "\<not> is_sent d (m_uniqueId m) (alarms (pg_sys pg))" "d \<noteq> pd"
  shows "pending d (pg_digester (arrive r net now m pg)) m"
    and "sent_of d (alarms (pg_sys (arrive r net now m pg))) = gm_set (m_uniqueId m) (sent_entry now m) (sent_of d (alarms (pg_sys pg)))"
proof -
  obtain ps dg a' where d: "deliver_digest r now net m (pg_digester pg, alarms (pg_sys pg)) = (ps, dg, a')"
    by (cases "deliver_digest r now net m (pg_digester pg, alarms (pg_sys pg))")
  obtain b1 b2 b3 b4 b5 a'' where ans: "answers r now m (alarms (pg_sys pg)) = ([b1, b2, b3, b4, b5], a'')"
    using answers_five by blast
  note step = deliver_digest_answers [OF d ans]
  note appr = approve_firing [OF assms, of r now] answers_approve [OF ans assms(6)]
  show "pending d (pg_digester (arrive r net now m pg)) m"
    using appr(1,3) step(2-5) assms(3,6) by (cases d) (simp_all add: pending_def arrive_def d wants_resolve_def)
  show "sent_of d (alarms (pg_sys (arrive r net now m pg))) = gm_set (m_uniqueId m) (sent_entry now m) (sent_of d (alarms (pg_sys pg)))"
    using appr(2,4) step(1) by (simp add: arrive_def d)
qed


definition sample_program :: program where
  "sample_program =
     \<lparr>pg_sys = sample_sys sample_chain no_alarms, pg_digester = newDigester Minute, pg_posts = [], pg_saved = None,
      pg_cancelled = False, pg_digester_done = False, pg_exited = False\<rparr>"


end
