(* ===== verification/Supervisor.thy ===== *)
theory Supervisor
  imports ConfigLoad NodeAlerts ValidatorInfo WsPipeline
begin

text \<open>
  The loop that \<^verbatim>\<open>Run\<close> starts for every chain (\<^verbatim>\<open>td2/run.go\<close>): connect, read the chain's parameters and
  the validator, and follow the chain over a websocket until that ends. Between the steps of one
  round nothing else changes the chain here; the other goroutines have theories of their own.
\<close>

section \<open>One websocket run\<close>

text \<open>What the world answers in one round. The updates are those the pipeline has delivered.\<close>

record round_world =
  rw_now :: gotime
  rw_rpc :: rpc_world
  rw_directory :: "CosmosDirectoryChainData reply"
  rw_paths :: "(string, string) gomap"
  rw_valinfo :: valinfo_world
  rw_dial :: "string \<Rightarrow> bool"
  rw_updates :: "(gotime \<times> string \<times> StatusUpdate) list"

definition WsRun :: "round_world \<Rightarrow> ChainConfig \<Rightarrow> sys \<Rightarrow> (ChainConfig \<times> sys) option" where
  "WsRun w cc s =
     (if ws_wait (rw_now w) (ws_looks (rw_now w) (replicate 6 cc)) \<noteq> Some True then Some (cc, s)
      else
        let cc1 = connect_ws (rw_dial w) cc
        in if cc_wsclient cc1 = None then Some (cc1, s)
           else do { (_, cc2, s2) \<leftarrow> status_run (rw_updates w) (- 1, cc1, s); Some (cc2, s2) })"

section \<open>The loop\<close>

type_synonym supervised = "ChainConfig \<times> cached TenderdutyCache \<times> sys"

definition supervise_round :: "round_world \<Rightarrow> supervised \<Rightarrow> supervised option" where
  "supervise_round w st =
     (case st of (cc, cache, s) \<Rightarrow>
        do { (e, cc1, cache1, s1) \<leftarrow> newRpc (rw_now w) (rw_rpc w) (rw_directory w) (rw_paths w) cc cache s;
             (if e \<noteq> None then Some (cc1, cache1, s1)
              else do { (_, cc2) \<leftarrow> GetMinSignedPerWindow (rw_valinfo w) cc1;
                        (_, cc3, cache3, s3) \<leftarrow> GetValInfo (rw_valinfo w) (rw_now w) True cc2 cache1 s1;
                        (cc4, s4) \<leftarrow> WsRun w cc3 s3;
                        Some (cc4, cache3, s4) }) })"

section \<open>The minute of the health check\<close>

text \<open>One tick of \<^verbatim>\<open>monitorHealth\<close> after the checks of its nodes have ended.\<close>

definition monitorHealth_tick :: "round_world \<Rightarrow> string \<Rightarrow> supervised \<Rightarrow> supervised option" where
  "monitorHealth_tick w chainName st =
     (case st of (cc, cache, s) \<Rightarrow>
        do { (nodes, cc1, s1) \<leftarrow> check_nodes (rw_now w) (rw_rpc w) chainName (cc_Nodes cc) cc s;
             let cc2 = cc1\<lparr>cc_Nodes := nodes\<rparr>;
             (cc3, cache3, s3) \<leftarrow>
               (if cc_client cc2 = None
                then do { (_, c, cache', s') \<leftarrow> newRpc (rw_now w) (rw_rpc w) (rw_directory w) (rw_paths w) cc2 cache s1;
                          Some (c, cache', s') }
                else Some (cc2, cache, s1));
             (_, cc4, cache4, s4) \<leftarrow> GetValInfo (rw_valinfo w) (rw_now w) False (remember_valinfo cc3) cache3 s3;
             Some (cc4, cache4, s4) })"

text \<open>The two goroutines of a chain that connect and refresh, in any order of their rounds and ticks.\<close>

datatype chain_event = SupervisorRound round_world | HealthTick round_world

fun event_world :: "chain_event \<Rightarrow> round_world" where
  "event_world (SupervisorRound w) = w"
| "event_world (HealthTick w) = w"

fun handle_event :: "string \<Rightarrow> chain_event \<Rightarrow> supervised \<Rightarrow> supervised option" where
  "handle_event name (SupervisorRound w) st = supervise_round w st"
| "handle_event name (HealthTick w) st = monitorHealth_tick w name st"

fun chain_run :: "string \<Rightarrow> chain_event list \<Rightarrow> supervised \<Rightarrow> supervised option" where
  "chain_run name [] st = Some st"
| "chain_run name (e # es) st = do { st' \<leftarrow> handle_event name e st; chain_run name es st' }"

section \<open>The loop never ends\<close>

text \<open>What the loop relies on, and what no step of it changes.\<close>

definition chain_sound :: "ChainConfig \<Rightarrow> bool" where
  "chain_sound cc \<longleftrightarrow> cc_valInfo cc \<noteq> None \<and> cc_blocksResults cc \<noteq> [] \<and> pv_Name (cc_Provider cc) \<noteq> ''namada'' \<and>
     20 \<le> length (cc_ValAddress cc)"

definition same_setup :: "ChainConfig \<Rightarrow> ChainConfig \<Rightarrow> bool" where
  "same_setup cc cc' \<longleftrightarrow> cc_ValAddress cc' = cc_ValAddress cc \<and> cc_Provider cc' = cc_Provider cc \<and>
     length (cc_blocksResults cc') = length (cc_blocksResults cc) \<and> (cc_valInfo cc \<noteq> None \<longrightarrow> cc_valInfo cc' \<noteq> None)"

lemma same_setup_refl [simp]: "same_setup cc cc"
  by (simp add: same_setup_def)

lemma same_setup_trans: "same_setup a b \<Longrightarrow> same_setup b c \<Longrightarrow> same_setup a c"
  by (simp add: same_setup_def)

lemma same_setup_sound: "same_setup cc cc' \<Longrightarrow> chain_sound cc \<Longrightarrow> chain_sound cc'"
  by (auto simp: same_setup_def chain_sound_def simp flip: length_greater_0_conv)

lemma kept_same_setup: "kept first cc cc' \<Longrightarrow> same_setup cc cc'"
  by (simp add: kept_def same_setup_def)

lemma tryUrl_setup: "same_setup cc0 (snd (tryUrl w u cc)) = same_setup cc0 cc"
  by (simp add: same_setup_def tryUrl_def Let_def split: sum.split option.split)

lemma tryUrl_same: "tryUrl w u cc = (r, cc') \<Longrightarrow> same_setup cc0 cc \<Longrightarrow> same_setup cc0 cc'"
  using tryUrl_setup [of cc0 w u cc] by simp

lemma try_nodes_same: "try_nodes now w aw nodes cc = (ok, nodes', cc') \<Longrightarrow> same_setup cc0 cc \<Longrightarrow> same_setup cc0 cc'"
  by (induction now w aw nodes cc arbitrary: ok nodes' cc' rule: try_nodes.induct)
    (auto split: if_splits prod.splits dest: tryUrl_same)

lemma setup_updates [simp]:
  "same_setup cc0 (cc\<lparr>cc_Nodes := n\<rparr>) = same_setup cc0 cc"
  "same_setup cc0 (cc\<lparr>cc_noNodes := b\<rparr>) = same_setup cc0 cc"
  "same_setup cc0 (cc\<lparr>cc_lastValInfo := lv\<rparr>) = same_setup cc0 cc"
  "same_setup cc0 (cc\<lparr>cc_noNodes := b, cc_lastError := e\<rparr>) = same_setup cc0 cc"
  "same_setup cc0 (cc\<lparr>cc_minSignedPerWindow := m\<rparr>) = same_setup cc0 cc"
  "same_setup cc0 (cc\<lparr>cc_wsclient := c, cc_noWsNodes := b\<rparr>) = same_setup cc0 cc"
  "same_setup cc0 (cc\<lparr>cc_noWsNodes := b\<rparr>) = same_setup cc0 cc"
  "same_setup cc0 (cc\<lparr>cc_wsclient := c\<rparr>) = same_setup cc0 cc"
  by (simp_all add: same_setup_def)

lemma newRpc_same:
  assumes "newRpc now w resp paths cc cache s = Some (e, cc', cache', s')"
  shows "same_setup cc cc'"
proof -
  define dir where "dir = (if cc_cosmosDirectoryData cc = None then snd (loadCosmosDirectoryData now resp cc cache) else (cc, cache))"
  obtain cc1 c1 where 1: "dir = (cc1, c1)" by (cases dir)
  have s1: "same_setup cc cc1"
    using 1 loadCosmosDirectoryData_frame [of now resp cc cache] by (auto simp: dir_def same_setup_def split: if_splits)
  obtain ok ns cc2 where 2: "try_nodes now w (\<exists>endpoint\<in>set (cc_Nodes cc1). \<not> nd_down endpoint) (cc_Nodes cc1) cc1 = (ok, ns, cc2)"
    by (metis prod_cases3)
  have s2: "same_setup cc cc2" using try_nodes_same [OF 2 s1] .
  obtain m f sy cc3 where 3: "tryUrl w (guessPublicEndpoint w (getRegistryUrlByChainName (getEffectiveChainName (cc2\<lparr>cc_Nodes := ns\<rparr>))))
      (cc2\<lparr>cc_Nodes := ns\<rparr>) = ((m, f, sy), cc3)"
    by (metis prod.collapse)
  have s3: "same_setup cc cc3" using tryUrl_same [OF 3] s2 by simp
  define fallback where "fallback = (case public_endpoint w paths cc3 of None \<Rightarrow> (True, cc3)
      | Some node \<Rightarrow> (let ((_, failed, _), c) = tryUrl w node cc3 in (failed, c)))"
  obtain f4 cc4 where 4: "fallback = (f4, cc4)" by (cases fallback)
  have s4: "same_setup cc cc4"
    using 4 s3 tryUrl_same [of w _ cc3] by (auto simp: fallback_def split: option.splits prod.splits)
  show ?thesis
    using assms s2 s3 s4 unfolding newRpc_def dir_def [symmetric] 1 prod.case Let_def 2 3 fallback_def [unfolded Let_def, symmetric] 4
    by (auto simp: bind_eq_Some_conv split: if_splits)
qed

lemma connect_ws_same: "same_setup cc (connect_ws dial cc)"
  by (auto simp: connect_ws_def split: option.split)

lemma newRpc_connects:
  assumes "cc_valInfo cc \<noteq> None"
  obtains e cc' cache' s' where "newRpc now w resp paths cc cache s = Some (e, cc', cache', s')" "e = None \<Longrightarrow> cc_client cc' \<noteq> None"
  using newRpc_first_usable [OF assms, of now w resp paths cache s] by (auto split: option.splits)

lemma GetMinSignedPerWindow_total:
  assumes "vw_default w = DefaultProvider ops lib aw" "pv_Name (cc_Provider cc) \<noteq> ''namada''"
  shows "\<exists>e cc'. GetMinSignedPerWindow w cc = Some (e, cc') \<and> same_setup cc cc' \<and> cc_client cc' = cc_client cc"
  using assms by (cases "QuerySlashingParams aw") (simp_all add: GetMinSignedPerWindow_def provider_of_def)

text \<open>The classification loop does not panic, whether the validator is bonded or not.\<close>

lemma status_run_total:
  assumes "cc_valInfo cc = Some vi" "cc_blocksResults cc \<noteq> []" "\<forall>(now, stamp, u)\<in>set us. 0 \<le> su_Status u"
    "- 1 \<le> st"
  shows "\<exists>st' cc' s'. status_run us (st, cc, s) = Some (st', cc', s') \<and> same_setup cc cc'"
  using assms
proof (induction us arbitrary: st cc s)
  case (Cons e us)
  obtain now stamp u where e: "e = (now, stamp, u)" by (cases e)
  define x where "x = (if st < su_Status u \<and> vi_Bonded vi then su_Status u else st)"
  have u: "0 \<le> su_Status u" and x: "0 \<le> x \<or> \<not> vi_Bonded vi" "- 1 \<le> x" using Cons.prems(3,4) by (auto simp: e x_def)
  show ?case
  proof (cases "su_Final u")
    case False
    then have "on_status now stamp u (st, cc, s) = Some (x, cc, s)"
      using Cons.prems(1) by (auto simp: on_status_def x_def)
    then show ?thesis using Cons.IH [of cc x s] Cons.prems x(2) by (simp add: e)
  next
    case True
    obtain cc1 s1 where f: "finish_block now stamp (su_Height u) x cc s = Some (cc1, s1)"
        "cc_blocksResults cc1 = x # butlast (cc_blocksResults cc)" "cc_valInfo cc1 = cc_valInfo cc"
        "cc_ValAddress cc1 = cc_ValAddress cc" "cc_Provider cc1 = cc_Provider cc"
      using finish_block_total [OF Cons.prems(1,2) x(1)] by metis
    have "on_status now stamp u (st, cc, s) = Some (- 1, cc1, s1)"
      using Cons.prems(1) True f(1) by (auto simp: on_status_def x_def)
    moreover have "same_setup cc cc1" using f Cons.prems(2) by (simp add: same_setup_def flip: length_greater_0_conv)
    ultimately show ?thesis
      using Cons.IH [of cc1 "- 1" s1] Cons.prems(1,3) f(2,3) same_setup_trans [of cc cc1] by (auto simp: e)
  qed
qed simp

lemma pipeline_status:
  assumes "(ws_step codec address)\<^sup>*\<^sup>* (ws_start msgs) st"
  shows "\<forall>u\<in>set (ws_results st). 0 \<le> su_Status u"
proof -
  have update: "block_update codec address reply = Some u \<Longrightarrow> 0 \<le> su_Status u" "vote_update codec address reply = Some u \<Longrightarrow> 0 \<le> su_Status u"
    for reply u
    by (auto simp: block_update_def handleBlock_def vote_update_def handleVote_def Let_def bind_eq_Some_conv split: if_splits)
  have "\<forall>u \<in> set (ws_results st) \<union> set_option (ws_block st) \<union> set_option (ws_vote st). 0 \<le> su_Status u"
    using assms
  proof (induction rule: rtranclp_induct)
    case (step y z)
    from step(2,3) show ?case by cases (auto dest: update)
  qed (simp add: ws_start_def)
  then show ?thesis by blast
qed

text \<open>
  The node of a round answers with keys of the right size, its updates come from the pipeline, and a
  client can be made for every node (the health check panics otherwise).
\<close>

definition round_ok :: "round_world \<Rightarrow> bool" where
  "round_ok w \<longleftrightarrow>
     (\<exists>ops lib aw. vw_default (rw_valinfo w) = DefaultProvider ops lib aw \<and> node_keys_ok lib aw) \<and> dec_total (vw_ops (rw_valinfo w)) \<and>
     (\<exists>codec address msgs st. (ws_step codec address)\<^sup>*\<^sup>* (ws_start msgs) st \<and>
        map (\<lambda>(now, stamp, u). u) (rw_updates w) = ws_results st) \<and>
     (\<forall>u. w_NewClient (rw_rpc w) u = None)"

lemma WsRun_total:
  assumes "round_ok w" "chain_sound cc"
  shows "\<exists>cc' s'. WsRun w cc s = Some (cc', s') \<and> same_setup cc cc'"
proof -
  let ?cc = "connect_ws (rw_dial w) cc"
  have "chain_sound ?cc" using connect_ws_same assms(2) by (rule same_setup_sound)
  then obtain vi where vi: "cc_valInfo ?cc = Some vi" and "cc_blocksResults ?cc \<noteq> []" by (auto simp: chain_sound_def)
  moreover have "\<forall>(now, stamp, u)\<in>set (rw_updates w). 0 \<le> su_Status u"
  proof -
    obtain codec address msgs st where "(ws_step codec address)\<^sup>*\<^sup>* (ws_start msgs) st"
        "map (\<lambda>(now, stamp, u). u) (rw_updates w) = ws_results st"
      using assms(1) unfolding round_ok_def by blast
    then have "\<forall>u\<in>set (map (\<lambda>(now, stamp, u). u) (rw_updates w)). 0 \<le> su_Status u" using pipeline_status by metis
    then show ?thesis by fastforce
  qed
  ultimately obtain st' cc' s' where "status_run (rw_updates w) (- 1, ?cc, s) = Some (st', cc', s')" "same_setup ?cc cc'"
    using status_run_total [OF vi] by blast
  then show ?thesis
    using connect_ws_same [of cc "rw_dial w"] same_setup_trans [of cc ?cc cc'] by (auto simp: WsRun_def Let_def)
qed

lemma supervise_round_total:
  assumes "round_ok w" "chain_sound cc"
  shows "\<exists>cc' cache' s'. supervise_round w (cc, cache, s) = Some (cc', cache', s') \<and> same_setup cc cc'"
proof -
  obtain ops lib aw where w: "vw_default (rw_valinfo w) = DefaultProvider ops lib aw" "node_keys_ok lib aw" "dec_total (vw_ops (rw_valinfo w))"
    using assms(1) unfolding round_ok_def by blast
  have "cc_valInfo cc \<noteq> None" using assms(2) by (simp add: chain_sound_def)
  then obtain e cc1 c1 s1 where 1: "newRpc (rw_now w) (rw_rpc w) (rw_directory w) (rw_paths w) cc cache s = Some (e, cc1, c1, s1)"
      "e = None \<Longrightarrow> cc_client cc1 \<noteq> None"
    by (rule newRpc_connects [where now = "rw_now w" and w = "rw_rpc w" and resp = "rw_directory w" and paths = "rw_paths w"
          and cache = cache and s = s]) blast
  note same1 = newRpc_same [OF 1(1)]
  show ?thesis
  proof (cases "e = None")
    case False
    then show ?thesis using 1(1) same1 by (simp add: supervise_round_def)
  next
    case True
    have sound1: "chain_sound cc1" using same1 assms(2) by (rule same_setup_sound)
    obtain e2 cc2 where 2: "GetMinSignedPerWindow (rw_valinfo w) cc1 = Some (e2, cc2)" "same_setup cc1 cc2" "cc_client cc2 = cc_client cc1"
      using GetMinSignedPerWindow_total w(1) sound1 unfolding chain_sound_def by metis
    have sound2: "chain_sound cc2" using 2(2) sound1 by (rule same_setup_sound)
    obtain e3 cc3 c3 s3 where 3: "GetValInfo (rw_valinfo w) (rw_now w) True cc2 c1 s1 = Some (e3, cc3, c3, s3)"
      using sdk.GetValInfo_total [of "(ops, lib, aw)" cc2 "rw_valinfo w"] w sound2 2(3) 1(2) [OF True]
      unfolding chain_sound_def by fastforce
    note same3 = kept_same_setup [OF GetValInfo_kept [OF 3]]
    have sound3: "chain_sound cc3" using same3 sound2 by (rule same_setup_sound)
    obtain cc4 s4 where 4: "WsRun w cc3 s3 = Some (cc4, s4)" "same_setup cc3 cc4"
      using WsRun_total [OF assms(1) sound3] by blast
    have "same_setup cc cc4" using same1 2(2) same3 4(2) by (blast intro: same_setup_trans)
    then show ?thesis using True 1(1) 2(1) 3 4(1) by (simp add: supervise_round_def)
  qed
qed

lemma remember_valinfo_same: "same_setup cc0 (remember_valinfo cc) = same_setup cc0 cc" "cc_client (remember_valinfo cc) = cc_client cc"
  by (simp_all add: remember_valinfo_def split: option.split)

lemma monitorHealth_tick_total:
  assumes "round_ok w" "chain_sound cc"
  shows "\<exists>cc' cache' s'. monitorHealth_tick w name (cc, cache, s) = Some (cc', cache', s') \<and> same_setup cc cc'"
proof -
  obtain ops lib aw where w: "vw_default (rw_valinfo w) = DefaultProvider ops lib aw" "node_keys_ok lib aw" "dec_total (vw_ops (rw_valinfo w))"
    and new: "\<forall>u. w_NewClient (rw_rpc w) u = None"
    using assms(1) unfolding round_ok_def by blast
  have "cc_valInfo cc \<noteq> None" using assms(2) by (simp add: chain_sound_def)
  then obtain nodes b s1 where 1: "check_nodes (rw_now w) (rw_rpc w) name (cc_Nodes cc) cc s = Some (nodes, cc\<lparr>cc_noNodes := b\<rparr>, s1)"
    using check_nodes_result [of cc "cc_Nodes cc" "rw_rpc w" "rw_now w" name s] new by auto
  let ?cc2 = "cc\<lparr>cc_noNodes := b\<rparr>\<lparr>cc_Nodes := nodes\<rparr>"
  have sound2: "chain_sound ?cc2" by (rule same_setup_sound [OF _ assms(2)]) simp
  define connected where "connected = (if cc_client ?cc2 = None
      then do { (_, c, cache', s') \<leftarrow> newRpc (rw_now w) (rw_rpc w) (rw_directory w) (rw_paths w) ?cc2 cache s1; Some (c, cache', s') }
      else Some (?cc2, cache, s1))"
  obtain cc3 c3 s3 where 3: "connected = Some (cc3, c3, s3)" "same_setup ?cc2 cc3"
  proof (cases "cc_client ?cc2 = None")
    case True
    have "cc_valInfo ?cc2 \<noteq> None" using sound2 by (simp add: chain_sound_def)
    then obtain e c c' s' where n: "newRpc (rw_now w) (rw_rpc w) (rw_directory w) (rw_paths w) ?cc2 cache s1 = Some (e, c, c', s')"
      by (rule newRpc_connects [where now = "rw_now w" and w = "rw_rpc w" and resp = "rw_directory w" and paths = "rw_paths w"
            and cache = cache and s = s1]) blast
    show ?thesis by (rule that [of c c' s']) (use True n newRpc_same [OF n] in \<open>simp_all add: connected_def\<close>)
  next
    case False
    show ?thesis by (rule that [of ?cc2 cache s1]) (use False in \<open>auto simp: connected_def\<close>)
  qed
  let ?cc4 = "remember_valinfo cc3"
  have same4: "same_setup cc ?cc4" using same_setup_trans [of cc ?cc2 cc3] 3(2) by (simp add: remember_valinfo_same)
  have sound4: "chain_sound ?cc4" using same4 assms(2) by (rule same_setup_sound)
  obtain e5 cc5 c5 s5 where 5: "GetValInfo (rw_valinfo w) (rw_now w) False ?cc4 c3 s3 = Some (e5, cc5, c5, s5)"
  proof (cases "cc_client ?cc4 = None")
    case False
    then show thesis
      using that sdk.GetValInfo_total [of "(ops, lib, aw)" ?cc4 "rw_valinfo w"] w sound4 unfolding chain_sound_def by fastforce
  qed (use that in \<open>simp add: GetValInfo_def\<close>)
  have "same_setup cc cc5" using same4 kept_same_setup [OF GetValInfo_kept [OF 5]] by (rule same_setup_trans)
  moreover have "monitorHealth_tick w name (cc, cache, s) = Some (cc5, c5, s5)"
    unfolding monitorHealth_tick_def prod.case 1 Option.bind.simps Let_def connected_def [symmetric] 3(1) 5 ..
  ultimately show ?thesis by blast
qed

lemma chain_run_total:
  assumes "\<forall>e\<in>set events. round_ok (event_world e)" "chain_sound cc"
  shows "\<exists>cc' cache' s'. chain_run name events (cc, cache, s) = Some (cc', cache', s') \<and> same_setup cc cc'"
  using assms
proof (induction events arbitrary: cc cache s)
  case (Cons e es)
  have "\<exists>cc1 c1 s1. handle_event name e (cc, cache, s) = Some (cc1, c1, s1) \<and> same_setup cc cc1"
    using Cons.prems supervise_round_total monitorHealth_tick_total by (cases e) auto
  then obtain cc1 c1 s1 where 1: "handle_event name e (cc, cache, s) = Some (cc1, c1, s1)" "same_setup cc cc1" by blast
  moreover have "chain_sound cc1" using 1(2) Cons.prems(2) by (rule same_setup_sound)
  ultimately show ?case using Cons.IH [of cc1 c1 s1] Cons.prems(1) same_setup_trans [of cc cc1] by fastforce
qed simp


text \<open>Two rounds: one without any endpoint, one in which the first node answers.\<close>

definition sample_round :: "rpc_world \<Rightarrow> round_world" where
  "sample_round rpc =
     \<lparr>rw_now = noon, rw_rpc = rpc, rw_directory = NoReply ''timeout'', rw_paths = cosmosPaths,
      rw_valinfo = demo_world silent_node, rw_dial = (\<lambda>u. True), rw_updates = []\<rparr>"

lemma sample_round_ok:
  assumes "\<forall>u. w_NewClient rpc u = None"
  shows "round_ok (sample_round rpc)"
proof -
  have "node_keys_ok demo_sdk silent_node" by (simp add: node_keys_ok_def silent_node_def)
  moreover have "dec_total whole_ops" by (simp add: dec_total_def whole_ops_def)
  moreover have "\<exists>codec address msgs st. (ws_step codec address)\<^sup>*\<^sup>* (ws_start msgs) st \<and> [] = ws_results st"
    by (intro exI [of _ sample_codec] exI [of _ "[]"] exI [of _ "ws_start []"]) (simp add: ws_start_def)
  ultimately show ?thesis
    using assms unfolding round_ok_def sample_round_def
    by (intro conjI exI [of _ whole_ops] exI [of _ demo_sdk] exI [of _ silent_node]) simp_all
qed


end
