(* ===== verification/Startup.thy ===== *)
theory Startup
  imports ProgramRun Encryption ChainRegistry
begin

text \<open>
  The start of the program: \<^verbatim>\<open>loadConfig\<close> (\<^verbatim>\<open>td2/types.go\<close>) as a whole, the refresh of the registry that
  \<^verbatim>\<open>validateConfig\<close> starts, the first half of \<^verbatim>\<open>Run\<close> (\<^verbatim>\<open>td2/run.go\<close>) with the goroutines it starts, and the
  log (\<^verbatim>\<open>td2/init.go\<close>).
\<close>

section \<open>Loading the configuration\<close>

text \<open>
  What the files and the network hold: the entries of the directory of chain files (none when it
  cannot be read), the state of the last run (nothing when it cannot be read or decoded), and the
  error of the first request for prices.
\<close>

record load_world =
  lw_crypto :: crypto_lib
  lw_get :: "string \<Rightarrow> string + string"
  lw_read :: "string \<Rightarrow> string + string"
  lw_yaml :: "string \<Rightarrow> string + Config"
  lw_chain_files :: "string \<Rightarrow> (string \<times> bool \<times> (string + ChainConfig)) list"
  lw_saved :: "string \<Rightarrow> savedState option"
  lw_GetPrices :: "string \<times> string \<times> int \<times> string list \<Rightarrow> string option"

definition nothing_saved :: savedState where
  "nothing_saved = \<lparr>sv_Alarms = None, sv_Blocks = [], sv_NodesDown = None, sv_NodesLagging = None, sv_SilencedUntil = None\<rparr>"

definition enable_prices :: "(string \<times> string \<times> int \<times> string list \<Rightarrow> string option) \<Rightarrow> Config \<Rightarrow> Config" where
  "enable_prices prices c =
     (case price_settings c of
        None \<Rightarrow> c
      | Some settings \<Rightarrow>
          let pc = (cfg_PriceConversion c)\<lparr>pc_Provider := fst settings\<rparr>
          in case prices settings of
               None \<Rightarrow> c\<lparr>cfg_PriceConversion := pc\<rparr>
             | Some err \<Rightarrow> c\<lparr>cfg_PriceConversion := pc\<lparr>pc_Enabled := False\<rparr>\<rparr>)"

definition loadConfig ::
  "load_world \<Rightarrow> gotime \<Rightarrow> string \<Rightarrow> string \<Rightarrow> string \<Rightarrow> string \<Rightarrow> (string + (Config \<times> alarmCache)) option" where
  "loadConfig w now yamlFile stateFile chainConfigDirectory password =
     do { r \<leftarrow> read_config (lw_crypto w) (lw_get w) (lw_read w) (lw_yaml w) yamlFile password;
          Some (case r of
              Inl e \<Rightarrow> Inl e
            | Inr c \<Rightarrow>
                (case load_chains (lw_chain_files w chainConfigDirectory) c of
                   Inl e \<Rightarrow> Inl e
                 | Inr c1 \<Rightarrow>
                     let saved = (case lw_saved w stateFile of None \<Rightarrow> nothing_saved | Some sv \<Rightarrow> sv);
                         (c2, a) = restoreState now saved (c1, no_alarms)
                     in Inr (enable_prices (lw_GetPrices w) c2, a))) }"

section \<open>Starting\<close>

datatype service =
    Digester duration | EscalationSweep duration | Dispatcher | Dashboard string | DrainUpdates | Exporter | DrainStats
  | Healthcheck duration | Watch string | MonitorHealth string | Supervise string | SaveOnExit

definition pingHealthcheck :: "Config \<Rightarrow> service list" where
  "pingHealthcheck c =
     (if \<not> hc_Enabled (cfg_Healthcheck c) then []
      else [Healthcheck (dur_mul (hc_PingRate (cfg_Healthcheck c)) Second)])"

definition services :: "Config \<Rightarrow> service list" where
  "services c =
     (if 0 < cfg_DigestIntervalSeconds c then [Digester (dur_mul (cfg_DigestIntervalSeconds c) Second)] else []) @
     (if 0 < cfg_EscalationMinutes c then [EscalationSweep (dur_mul (cfg_EscalationMinutes c) Minute)] else []) @
     [Dispatcher] @
     [if cfg_EnableDash c then Dashboard (cfg_Listen c) else DrainUpdates] @
     [if cfg_Prom c then Exporter else DrainStats] @
     (if hc_Enabled (cfg_Healthcheck c) then pingHealthcheck c else []) @
     concat (map (\<lambda>(k, cc). [Watch k, MonitorHealth k, Supervise k]) (cfg_Chains c)) @ [SaveOnExit]"

datatype started = LoadFailed string | Refused "string list" | Started "string list" Config alarmCache "service list"

definition Run_start ::
  "load_world \<Rightarrow> (string \<Rightarrow> bool) \<Rightarrow> gotime \<Rightarrow> string \<Rightarrow> string \<Rightarrow> string \<Rightarrow> string \<Rightarrow> started option" where
  "Run_start w listen_ok now configFile stateFile chainConfigDirectory password =
     do { r \<leftarrow> loadConfig w now configFile stateFile chainConfigDirectory password;
          (case r of
             Inl err \<Rightarrow> Some (LoadFailed err)
           | Inr (c, a) \<Rightarrow>
               do { (fatal, problems, wantsPublic, c', updates) \<leftarrow> validateConfig now listen_ok c;
                    Some (if fatal then Refused problems else Started problems c' a (services c')) }) }"

text \<open>A ticker cannot be made for an interval that is not positive: \<^verbatim>\<open>time.NewTicker\<close> panics.\<close>

definition NewTicker_panics :: "service \<Rightarrow> bool" where
  "NewTicker_panics x = (case x of Digester d \<Rightarrow> d \<le> 0 | Healthcheck d \<Rightarrow> d \<le> 0 | _ \<Rightarrow> False)"

text \<open>
  The rate of the pings is decoded as a duration and then multiplied by a second. A plain number is
  so many seconds; without one the start panics; and \<^verbatim>\<open>60s\<close> overflows, to a first ping in 147 years.
\<close>

lemma healthcheck_interval:
  assumes "hc_Enabled (cfg_Healthcheck c)" "hc_PingRate (cfg_Healthcheck c) = rate"
  shows "0 \<le> rate \<Longrightarrow> rate < 2 ^ 33 \<Longrightarrow> Healthcheck (rate * Second) \<in> set (services c)"
    and "rate = 0 \<Longrightarrow> \<exists>x\<in>set (services c). NewTicker_panics x"
    and "rate = 60 * Second \<Longrightarrow> \<exists>d. Healthcheck d \<in> set (services c) \<and> 147 * 365 * 24 * Hour < d"
proof -
  have h: "Healthcheck (dur_mul rate Second) \<in> set (services c)" using assms by (simp add: services_def pingHealthcheck_def)
  show "0 \<le> rate \<Longrightarrow> rate < 2 ^ 33 \<Longrightarrow> Healthcheck (rate * Second) \<in> set (services c)"
    using h by (simp add: dur_mul_def wrap64_id Second_def int64_def)
  show "rate = 0 \<Longrightarrow> \<exists>x\<in>set (services c). NewTicker_panics x"
    using h by (intro bexI [OF _ h]) (simp add: NewTicker_panics_def dur_mul_def wrap64_def)
  show "rate = 60 * Second \<Longrightarrow> \<exists>d. Healthcheck d \<in> set (services c) \<and> 147 * 365 * 24 * Hour < d"
    using h by (intro exI [of _ "dur_mul rate Second"]) (simp add: dur_mul_def wrap64_def Second_def Hour_def)
qed

section \<open>What is running after the start\<close>

definition runs_once :: "service list \<Rightarrow> service \<Rightarrow> bool" where
  "runs_once ss x \<longleftrightarrow> count_list ss x = 1"

lemma count_chain_services:
  "count_list (concat (map (\<lambda>(k, cc). [Watch k, MonitorHealth k, Supervise k]) m)) x =
     (case x of Watch k \<Rightarrow> count_list (map fst m) k | MonitorHealth k \<Rightarrow> count_list (map fst m) k
      | Supervise k \<Rightarrow> count_list (map fst m) k | _ \<Rightarrow> 0)"
  by (induction m) (auto split: service.split)

lemma count_list_append' [simp]: "count_list (xs @ ys) x = count_list xs x + count_list ys x"
  by (induction xs) auto

lemma count_distinct: "distinct xs \<Longrightarrow> count_list xs x = of_bool (x \<in> set xs)"
  by (induction xs) auto

lemma services_once:
  assumes "gm_ok (cfg_Chains c)"
  shows "runs_once (services c) Dispatcher" "runs_once (services c) SaveOnExit"
    "runs_once (services c) (if cfg_EnableDash c then Dashboard (cfg_Listen c) else DrainUpdates)"
    "runs_once (services c) (if cfg_Prom c then Exporter else DrainStats)"
    "k \<in> fst ` set (cfg_Chains c) \<Longrightarrow>
       runs_once (services c) (Watch k) \<and> runs_once (services c) (MonitorHealth k) \<and> runs_once (services c) (Supervise k)"
  using assms by (auto simp: runs_once_def services_def pingHealthcheck_def count_chain_services count_distinct gm_ok_def)

lemma load_chain_files_ok: "load_chain_files files m = Inr m' \<Longrightarrow> gm_ok m \<Longrightarrow> gm_ok m'"
  by (induction files m rule: load_chain_files.induct) (auto split: if_splits sum.splits)

lemma enable_prices_chains [simp]: "cfg_Chains (enable_prices prices c) = cfg_Chains c"
  by (simp add: enable_prices_def Let_def split: option.split)

lemma gm_ok_map: "gm_ok (map (\<lambda>(k, v). (k, f k v)) m) = gm_ok m"
  by (simp add: gm_ok_def comp_def case_prod_unfold)

text \<open>A decoded map has each key once.\<close>

definition yaml_ok :: "load_world \<Rightarrow> bool" where
  "yaml_ok w \<longleftrightarrow> (\<forall>b c. lw_yaml w b = Inr c \<longrightarrow> gm_ok (cfg_Chains c))"

lemma loadConfig_chains:
  assumes "loadConfig w now f st dir pw = Some (Inr (c, a))" "yaml_ok w"
  shows "gm_ok (cfg_Chains c) \<and> cfg_Chains c \<noteq> []"
proof -
  obtain r where r: "read_config (lw_crypto w) (lw_get w) (lw_read w) (lw_yaml w) f pw = Some r"
    using assms(1) by (auto simp: loadConfig_def bind_eq_Some_conv)
  then obtain c0 where 0: "read_config (lw_crypto w) (lw_get w) (lw_read w) (lw_yaml w) f pw = Some (Inr c0)"
    using assms(1) by (cases r) (auto simp: loadConfig_def)
  then have "\<exists>b. lw_yaml w b = Inr c0"
    by (auto simp: read_config_def bind_eq_Some_conv split: if_split_asm sum.split_asm) (metis obj_sumE)+
  then have ok: "gm_ok (cfg_Chains c0)" using assms(2) unfolding yaml_ok_def by blast
  obtain c1 where 1: "load_chains (lw_chain_files w dir) c0 = Inr c1"
    using assms(1) 0 by (auto simp: loadConfig_def split: sum.splits)
  then have ok1: "gm_ok (cfg_Chains c1)" "cfg_Chains c1 \<noteq> []"
    using load_chain_files_ok [OF _ ok] by (auto simp: load_chains_def gm_len_def split: sum.splits if_splits)
  have "cfg_Chains c = cfg_Chains (fst (restoreState now (case lw_saved w st of None \<Rightarrow> nothing_saved | Some sv \<Rightarrow> sv) (c1, no_alarms)))"
    using assms(1) by (auto simp: loadConfig_def 0 1 Let_def split: prod.splits)
  then show ?thesis using ok1 by (simp add: restoreState_def gm_ok_map)
qed


lemma validateConfig_runs:
  obtains updates where "validateConfig now listen_ok c =
    Some (bad_listen listen_ok c \<or> oauth_key c, config_problems listen_ok c,
      \<exists>v\<in>snd ` set (cfg_Chains c). cc_PublicFallback v, repair_config c, updates)"
proof -
  obtain ys where "those (map (\<lambda>(k, v). toDashStatus now v 0 [] 0 0) (cfg_Chains (repair_config c))) = Some ys"
    using validated_statuses [of now "cfg_DefaultAlertConfig c" "cfg_Chains c"] by (auto simp: repair_config_def)
  then show thesis by (intro that [of "if cfg_EnableDash c then ys else []"]) (simp add: validateConfig_def Let_def)
qed

text \<open>A local configuration never makes the start panic; a remote one may, in \<^verbatim>\<open>decrypt\<close>.\<close>

lemma local_start_total:
  assumes "\<not> HasPrefix f ''http://''" "\<not> HasPrefix f ''https://''"
  shows "\<exists>r. Run_start w listen_ok now f st dir pw = Some r"
proof -
  obtain r where r: "loadConfig w now f st dir pw = Some r" using assms by (auto simp: loadConfig_def read_config_def)
  show ?thesis
  proof (cases r)
    case (Inr ca)
    obtain c a where ca: "ca = (c, a)" by (cases ca)
    obtain updates where "validateConfig now listen_ok c =
        Some (bad_listen listen_ok c \<or> oauth_key c, config_problems listen_ok c,
          \<exists>v\<in>snd ` set (cfg_Chains c). cc_PublicFallback v, repair_config c, updates)" by (rule validateConfig_runs)
    then show ?thesis using r Inr ca by (simp add: Run_start_def)
  qed (simp add: Run_start_def r)
qed

lemma default_alerts_loaded [simp]:
  "cfg_DefaultAlertConfig (enable_prices prices c) = cfg_DefaultAlertConfig c"
  "cfg_DefaultAlertConfig (fst (restoreState now saved (c, a))) = cfg_DefaultAlertConfig c"
  by (simp_all add: enable_prices_def restoreState_def Let_def split: option.split)

lemma sound_config_starts:
  assumes "\<not> HasPrefix f ''http://''" "\<not> HasPrefix f ''https://''" "lw_read w f = Inr b" "lw_yaml w b = Inr c"
    "load_chains (lw_chain_files w dir) c = Inr c1" "\<And>u. listen_ok u" "\<not> oauth_key c1"
  shows "\<exists>problems c' a ss. Run_start w listen_ok now f st dir pw = Some (Started problems c' a ss)"
proof -
  obtain c2 a where 2: "restoreState now (case lw_saved w st of None \<Rightarrow> nothing_saved | Some sv \<Rightarrow> sv) (c1, no_alarms) = (c2, a)"
    by fastforce
  let ?c = "enable_prices (lw_GetPrices w) c2"
  have "loadConfig w now f st dir pw = Some (Inr (?c, a))" using assms(1-5) by (simp add: loadConfig_def read_config_def 2)
  moreover have "cfg_DefaultAlertConfig c2 = cfg_DefaultAlertConfig c1" using 2 default_alerts_loaded(2) by (metis fst_conv)
  then have "\<not> oauth_key ?c" using assms(7) by (simp add: oauth_key_def)
  moreover have "\<not> bad_listen listen_ok ?c" using assms(6) by (simp add: bad_listen_def)
  moreover obtain updates where "validateConfig now listen_ok ?c =
      Some (bad_listen listen_ok ?c \<or> oauth_key ?c, config_problems listen_ok ?c,
        \<exists>v\<in>snd ` set (cfg_Chains ?c). cc_PublicFallback v, repair_config ?c, updates)" by (rule validateConfig_runs)
  ultimately show ?thesis by (simp add: Run_start_def)
qed

section \<open>The registry\<close>

datatype slog_level = LevelDebug | LevelInfo | LevelWarn | LevelError

text \<open>One look at the registry at once and one every twelve hours; each with what it logs.\<close>

fun registry_refreshes ::
  "registryChain list reply list \<Rightarrow> (string, string) gomap \<Rightarrow> (slog_level \<times> string) list \<times> (string, string) gomap" where
  "registry_refreshes [] paths = ([], paths)"
| "registry_refreshes (res # replies) paths =
     (case refreshRegistry res paths of (e, paths1) \<Rightarrow>
        case registry_refreshes replies paths1 of (logged, paths2) \<Rightarrow>
          ((LevelInfo, ''refreshing cosmos.registry paths'') #
             (case e of None \<Rightarrow> [] | Some err \<Rightarrow> [(LevelWarn, ''could not refresh registry paths - '' @ err)]) @ logged, paths2))"

definition registry_loop ::
  "registryChain list reply \<Rightarrow> registryChain list reply list \<Rightarrow> (string, string) gomap \<Rightarrow>
   (slog_level \<times> string) list \<times> (string, string) gomap" where
  "registry_loop first replies paths =
     (case refreshRegistry first paths of (e, paths1) \<Rightarrow>
        case registry_refreshes replies paths1 of (logged, paths2) \<Rightarrow>
          ((case e of None \<Rightarrow> [] | Some _ \<Rightarrow> [(LevelWarn, ''could not fetch chain registry paths, using defaults'')]) @ logged, paths2))"

text \<open>A path that is known stays known, whatever the registry answers over any time.\<close>

lemma registry_keeps_known_chains:
  "gm_get paths cid \<noteq> None \<Longrightarrow> gm_get (snd (registry_loop first replies paths)) cid \<noteq> None"
proof -
  have rows: "gm_get m cid \<noteq> None \<Longrightarrow> gm_get (fold (\<lambda>c. gm_set (rg_ChainId c) (rg_Path c)) rows m) cid \<noteq> None" for rows m
    by (induction rows arbitrary: m) auto
  have one: "gm_get m cid \<noteq> None \<Longrightarrow> gm_get (snd (refreshRegistry res m)) cid \<noteq> None" for res m
    using rows by (auto simp: refreshRegistry_def split: reply.split sum.split)
  have "gm_get m cid \<noteq> None \<Longrightarrow> gm_get (snd (registry_refreshes replies m)) cid \<noteq> None" for m
  proof (induction replies arbitrary: m)
    case (Cons res replies)
    then show ?case using one [of m res] by (simp add: split_def)
  qed simp
  then show "gm_get paths cid \<noteq> None \<Longrightarrow> gm_get (snd (registry_loop first replies paths)) cid \<noteq> None"
    using one [of paths first] by (simp add: registry_loop_def split_def)
qed

section \<open>The log\<close>

datatype log_arg = LevelArg slog_level | TextArg string

text \<open>The level of the \<^verbatim>\<open>LOG_LEVEL\<close> variable; anything else is \<^verbatim>\<open>info\<close>.\<close>

definition env_level :: "string \<Rightarrow> slog_level" where
  "env_level env =
     (let envLevel = TrimSpace (ToLower env)
      in if envLevel = ''debug'' then LevelDebug
         else if envLevel = ''warn'' \<or> envLevel = ''warning'' then LevelWarn
         else if envLevel = ''error'' then LevelError else LevelInfo)"

fun arg_text :: "log_arg \<Rightarrow> string" where
  "arg_text (TextArg s) = s"
| "arg_text (LevelArg LevelDebug) = ''DEBUG''"
| "arg_text (LevelArg LevelInfo) = ''INFO''"
| "arg_text (LevelArg LevelWarn) = ''WARN''"
| "arg_text (LevelArg LevelError) = ''ERROR''"

definition Sprintln :: "log_arg list \<Rightarrow> string" where
  "Sprintln parts = Join (map arg_text parts) '' '' @ newline"

text \<open>\<^verbatim>\<open>l(v...)\<close>: what is sent on the channel \<^verbatim>\<open>logs\<close>.\<close>

definition l_call :: "log_arg list \<Rightarrow> log_arg list option" where
  "l_call v =
     (case v of
        [] \<Rightarrow> None
      | LevelArg level # rest \<Rightarrow> (if rest = [] then None else Some (LevelArg level # rest))
      | _ \<Rightarrow> Some (LevelArg LevelInfo # v))"

text \<open>A turn of the goroutine that reads it: what is logged, and what the dashboard is sent.\<close>

definition log_turn :: "Config \<Rightarrow> bool \<Rightarrow> int \<Rightarrow> log_arg list \<Rightarrow> ((slog_level \<times> string) \<times> LogMessage option) option" where
  "log_turn c has_logChan now parts =
     (case parts of
        [] \<Rightarrow> None
      | p # ps \<Rightarrow>
          let (level, rest) = (case p of LevelArg lv \<Rightarrow> (lv, ps) | _ \<Rightarrow> (LevelInfo, parts))
          in if rest = [] then None
             else let msgStr = TrimSpace (Sprintln rest)
                  in Some ((level, ''tenderduty | '' @ msgStr),
                           if cfg_EnableDash c \<and> \<not> cfg_HideLogs c \<and> has_logChan
                           then Some \<lparr>lm_MsgType = ''log'', lm_Ts = now, lm_Msg = msgStr\<rparr> else None))"

text \<open>Every message with a text is logged, with its own level; with \<^verbatim>\<open>hide_logs\<close> none leaves the machine.\<close>

lemma log_complete:
  assumes "l_call v = Some parts"
  shows "\<exists>level text sent. log_turn c has_logChan now parts = Some ((level, ''tenderduty | '' @ text), sent) \<and>
    (level, text) = (case v of LevelArg lv # rest \<Rightarrow> (lv, TrimSpace (Sprintln rest)) | _ \<Rightarrow> (LevelInfo, TrimSpace (Sprintln v))) \<and>
    (sent \<noteq> None \<longleftrightarrow> cfg_EnableDash c \<and> \<not> cfg_HideLogs c \<and> has_logChan) \<and>
    (\<forall>msg. sent = Some msg \<longrightarrow> lm_Msg msg = text)"
  using assms by (auto simp: l_call_def log_turn_def Let_def split: list.splits log_arg.splits if_splits)

section \<open>The start on a concrete configuration\<close>

definition sample_load :: load_world where
  "sample_load =
     \<lparr>lw_crypto = \<lparr>cl_Validate = (\<lambda>p. None), cl_IDKey = (\<lambda>p s. []), cl_Encrypt = (\<lambda>k b. b), cl_Decrypt = (\<lambda>k b. b), cl_HMAC = (\<lambda>k b. [])\<rparr>,
      lw_get = (\<lambda>u. Inl ''offline''), lw_read = (\<lambda>f. Inr ''config''), lw_yaml = (\<lambda>b. Inr sample_config),
      lw_chain_files = (\<lambda>d. []), lw_saved = (\<lambda>f. None), lw_GetPrices = (\<lambda>st. Some ''offline'')\<rparr>"


end
